theory Spec2Isabelle
  imports Main
begin

section \<open>Board model (board.ts, piece.ts)\<close>

text \<open>
  The board coordinates are the string literal types \<open>'a'..'h'\<close> and \<open>'1'..'8'\<close> of
  board.ts; they are modelled as two enumerations, so that no off-board square exists.
  \<open>fileIndex\<close>/\<open>rankIndex\<close> are \<open>BOARD_FILES.indexOf\<close>/\<open>BOARD_RANKS.indexOf\<close>, and
  \<open>BOARD_FILES_at\<close>/\<open>BOARD_RANKS_at\<close> are the array reads \<open>BOARD_FILES[i]\<close>, which
  are \<open>undefined\<close> (here \<open>None\<close>) out of range.
\<close>

datatype BoardFile = Fa | Fb | Fc | Fd | Fe | Ff | Fg | Fh
datatype BoardRank = R1 | R2 | R3 | R4 | R5 | R6 | R7 | R8

definition BOARD_RANKS :: "BoardRank list" where
  "BOARD_RANKS = [R1, R2, R3, R4, R5, R6, R7, R8]"

definition BOARD_FILES :: "BoardFile list" where
  "BOARD_FILES = [Fa, Fb, Fc, Fd, Fe, Ff, Fg, Fh]"

fun fileIndexOf :: "BoardFile \<Rightarrow> int" where
  "fileIndexOf Fa = 0" | "fileIndexOf Fb = 1" | "fileIndexOf Fc = 2" | "fileIndexOf Fd = 3"
| "fileIndexOf Fe = 4" | "fileIndexOf Ff = 5" | "fileIndexOf Fg = 6" | "fileIndexOf Fh = 7"

fun rankIndexOf :: "BoardRank \<Rightarrow> int" where
  "rankIndexOf R1 = 0" | "rankIndexOf R2 = 1" | "rankIndexOf R3 = 2" | "rankIndexOf R4 = 3"
| "rankIndexOf R5 = 4" | "rankIndexOf R6 = 5" | "rankIndexOf R7 = 6" | "rankIndexOf R8 = 7"

definition BOARD_FILES_at :: "int \<Rightarrow> BoardFile option" where
  "BOARD_FILES_at i =
     (if i = 0 then Some Fa else if i = 1 then Some Fb else if i = 2 then Some Fc
      else if i = 3 then Some Fd else if i = 4 then Some Fe else if i = 5 then Some Ff
      else if i = 6 then Some Fg else if i = 7 then Some Fh else None)"

definition BOARD_RANKS_at :: "int \<Rightarrow> BoardRank option" where
  "BOARD_RANKS_at i =
     (if i = 0 then Some R1 else if i = 1 then Some R2 else if i = 2 then Some R3
      else if i = 3 then Some R4 else if i = 4 then Some R5 else if i = 5 then Some R6
      else if i = 6 then Some R7 else if i = 7 then Some R8 else None)"

fun fileChar :: "BoardFile \<Rightarrow> char" where
  "fileChar Fa = CHR ''a''" | "fileChar Fb = CHR ''b''" | "fileChar Fc = CHR ''c''"
| "fileChar Fd = CHR ''d''" | "fileChar Fe = CHR ''e''" | "fileChar Ff = CHR ''f''"
| "fileChar Fg = CHR ''g''" | "fileChar Fh = CHR ''h''"

fun rankChar :: "BoardRank \<Rightarrow> char" where
  "rankChar R1 = CHR ''1''" | "rankChar R2 = CHR ''2''" | "rankChar R3 = CHR ''3''"
| "rankChar R4 = CHR ''4''" | "rankChar R5 = CHR ''5''" | "rankChar R6 = CHR ''6''"
| "rankChar R7 = CHR ''7''" | "rankChar R8 = CHR ''8''"

text \<open>\<open>isBoardFile\<close>/\<open>isBoardRank\<close> together with the cast that follows a successful test:
  the result is \<open>None\<close> exactly when the test is false.\<close>

definition asBoardFile :: "char \<Rightarrow> BoardFile option" where
  "asBoardFile c =
     (if c = CHR ''a'' then Some Fa else if c = CHR ''b'' then Some Fb
      else if c = CHR ''c'' then Some Fc else if c = CHR ''d'' then Some Fd
      else if c = CHR ''e'' then Some Fe else if c = CHR ''f'' then Some Ff
      else if c = CHR ''g'' then Some Fg else if c = CHR ''h'' then Some Fh else None)"

definition asBoardRank :: "char \<Rightarrow> BoardRank option" where
  "asBoardRank c =
     (if c = CHR ''1'' then Some R1 else if c = CHR ''2'' then Some R2
      else if c = CHR ''3'' then Some R3 else if c = CHR ''4'' then Some R4
      else if c = CHR ''5'' then Some R5 else if c = CHR ''6'' then Some R6
      else if c = CHR ''7'' then Some R7 else if c = CHR ''8'' then Some R8 else None)"

definition isBoardFile :: "char option \<Rightarrow> bool" where
  "isBoardFile c = (case c of None \<Rightarrow> False | Some x \<Rightarrow> asBoardFile x \<noteq> None)"

definition isBoardRank :: "char option \<Rightarrow> bool" where
  "isBoardRank c = (case c of None \<Rightarrow> False | Some x \<Rightarrow> asBoardRank x \<noteq> None)"

datatype PlayerColor = WHITE | BLACK

record Position =
  "file" :: BoardFile
  rank :: BoardRank

definition fileIndex :: "Position \<Rightarrow> int" where
  "fileIndex p = fileIndexOf (file p)"

definition rankIndex :: "Position \<Rightarrow> int" where
  "rankIndex p = rankIndexOf (rank p)"

definition Position_make :: "BoardFile \<Rightarrow> BoardRank \<Rightarrow> Position" where
  "Position_make f r = \<lparr>file = f, rank = r\<rparr>"

definition Position_toString :: "Position \<Rightarrow> string" where
  "Position_toString p = [fileChar (file p), rankChar (rank p)]"

definition isPositionStr :: "string \<Rightarrow> Position option" where
  "isPositionStr pos =
     (case pos of
        [c0, c1] \<Rightarrow>
          (case asBoardFile c0 of None \<Rightarrow> None
           | Some f \<Rightarrow> (case asBoardRank c1 of None \<Rightarrow> None
                        | Some r \<Rightarrow> Some (Position_make f r)))
      | _ \<Rightarrow> None)"

definition prevBoardRank :: "BoardRank \<Rightarrow> BoardRank option" where
  "prevBoardRank r = (if rankIndexOf r > 0 then BOARD_RANKS_at (rankIndexOf r - 1) else None)"

definition nextBoardRank :: "BoardRank \<Rightarrow> BoardRank option" where
  "nextBoardRank r = (if rankIndexOf r < 8 - 1 then BOARD_RANKS_at (rankIndexOf r + 1) else None)"

datatype PieceId =
    BLACK_PAWN | WHITE_PAWN | BLACK_KING | WHITE_KING | BLACK_QUEEN | WHITE_QUEEN
  | BLACK_ROOK | WHITE_ROOK | BLACK_BISHOP | WHITE_BISHOP | BLACK_KNIGHT | WHITE_KNIGHT

fun pieceChar :: "PieceId \<Rightarrow> char" where
  "pieceChar BLACK_PAWN = CHR ''p''" | "pieceChar WHITE_PAWN = CHR ''P''"
| "pieceChar BLACK_KING = CHR ''k''" | "pieceChar WHITE_KING = CHR ''K''"
| "pieceChar BLACK_QUEEN = CHR ''q''" | "pieceChar WHITE_QUEEN = CHR ''Q''"
| "pieceChar BLACK_ROOK = CHR ''r''" | "pieceChar WHITE_ROOK = CHR ''R''"
| "pieceChar BLACK_BISHOP = CHR ''b''" | "pieceChar WHITE_BISHOP = CHR ''B''"
| "pieceChar BLACK_KNIGHT = CHR ''n''" | "pieceChar WHITE_KNIGHT = CHR ''N''"

text \<open>\<open>PieceId.isPiece\<close> with the cast that follows it (\<open>parsePieceId\<close>).\<close>

definition parsePieceId :: "char \<Rightarrow> PieceId option" where
  "parsePieceId c =
     (if c = CHR ''p'' then Some BLACK_PAWN else if c = CHR ''P'' then Some WHITE_PAWN
      else if c = CHR ''k'' then Some BLACK_KING else if c = CHR ''K'' then Some WHITE_KING
      else if c = CHR ''q'' then Some BLACK_QUEEN else if c = CHR ''Q'' then Some WHITE_QUEEN
      else if c = CHR ''r'' then Some BLACK_ROOK else if c = CHR ''R'' then Some WHITE_ROOK
      else if c = CHR ''b'' then Some BLACK_BISHOP else if c = CHR ''B'' then Some WHITE_BISHOP
      else if c = CHR ''n'' then Some BLACK_KNIGHT else if c = CHR ''N'' then Some WHITE_KNIGHT
      else None)"

definition isPiece :: "char \<Rightarrow> bool" where
  "isPiece c = (parsePieceId c \<noteq> None)"

definition isPawn :: "PieceId \<Rightarrow> bool" where
  "isPawn val = (val = BLACK_PAWN \<or> val = WHITE_PAWN)"

fun isWhite :: "PieceId \<Rightarrow> bool" where
  "isWhite WHITE_PAWN = True" | "isWhite WHITE_KING = True" | "isWhite WHITE_QUEEN = True"
| "isWhite WHITE_ROOK = True" | "isWhite WHITE_BISHOP = True" | "isWhite WHITE_KNIGHT = True"
| "isWhite _ = False"

text \<open>\<open>toLowerCase\<close>/\<open>toUpperCase\<close> on a piece letter, and \<open>getPieceColor\<close>:
  a piece is Black exactly when its letter is its own lower case.\<close>

fun pieceToLowerCase :: "PieceId \<Rightarrow> PieceId" where
  "pieceToLowerCase WHITE_PAWN = BLACK_PAWN" | "pieceToLowerCase WHITE_KING = BLACK_KING"
| "pieceToLowerCase WHITE_QUEEN = BLACK_QUEEN" | "pieceToLowerCase WHITE_ROOK = BLACK_ROOK"
| "pieceToLowerCase WHITE_BISHOP = BLACK_BISHOP" | "pieceToLowerCase WHITE_KNIGHT = BLACK_KNIGHT"
| "pieceToLowerCase p = p"

fun pieceToUpperCase :: "PieceId \<Rightarrow> PieceId" where
  "pieceToUpperCase BLACK_PAWN = WHITE_PAWN" | "pieceToUpperCase BLACK_KING = WHITE_KING"
| "pieceToUpperCase BLACK_QUEEN = WHITE_QUEEN" | "pieceToUpperCase BLACK_ROOK = WHITE_ROOK"
| "pieceToUpperCase BLACK_BISHOP = WHITE_BISHOP" | "pieceToUpperCase BLACK_KNIGHT = WHITE_KNIGHT"
| "pieceToUpperCase p = p"

definition getColor :: "PieceId \<Rightarrow> PlayerColor" where
  "getColor p = (if p = pieceToLowerCase p then BLACK else WHITE)"

record CastlingRights =
  whiteKingSide :: bool
  whiteQueenSide :: bool
  blackKingSide :: bool
  blackQueenSide :: bool

datatype CastlingSide = KingSide | QueenSide

text \<open>The \<open>Move\<close> interface of moves.ts. The fields \<open>from\<close> and \<open>to\<close> are named
  \<open>from_pos\<close> and \<open>to_pos\<close>; an absent optional field is \<open>None\<close>.\<close>

record Move =
  from_pos :: Position
  to_pos :: Position
  algebraic :: string
  piece :: PieceId
  turn :: PlayerColor
  isCapture :: bool
  castling :: "CastlingSide option"
  isEnPassantCapture :: bool
  promotion :: "PieceId option"
  comment :: "string option"

text \<open>
  \<open>BoardMap<T>\<close> wraps a JavaScript \<open>Map\<close>, which iterates in insertion order:
  an association list, where \<open>set\<close> on a present key replaces the value in place and
  on a new key appends, and \<open>delete\<close> removes the entry.
\<close>

type_synonym 'a BoardMap = "(Position \<times> 'a) list"

definition BoardMap_size :: "'a BoardMap \<Rightarrow> nat" where
  "BoardMap_size m = length m"

definition BoardMap_get :: "'a BoardMap \<Rightarrow> Position \<Rightarrow> 'a option" where
  "BoardMap_get m k = map_of m k"

definition BoardMap_has :: "'a BoardMap \<Rightarrow> Position \<Rightarrow> bool" where
  "BoardMap_has m k = (map_of m k \<noteq> None)"

fun BoardMap_set :: "'a BoardMap \<Rightarrow> Position \<Rightarrow> 'a \<Rightarrow> 'a BoardMap" where
  "BoardMap_set [] k v = [(k, v)]"
| "BoardMap_set ((k', v') # m) k v =
     (if k' = k then (k, v) # m else (k', v') # BoardMap_set m k v)"

definition BoardMap_delete :: "'a BoardMap \<Rightarrow> Position \<Rightarrow> 'a BoardMap" where
  "BoardMap_delete m k = filter (\<lambda>e. fst e \<noteq> k) m"

fun findPositionFor :: "'a BoardMap \<Rightarrow> 'a \<Rightarrow> Position option" where
  "findPositionFor [] v = None"
| "findPositionFor ((k, v') # m) v = (if v' = v then Some k else findPositionFor m v)"

record BoardInfo =
  pieces :: "PieceId BoardMap"
  turnColor :: PlayerColor
  canCastle :: CastlingRights
  enPassantTarget :: "Position option"
  halfMoveClock :: int
  fullMoveNumber :: int
  allowedMoves :: "(Position list) BoardMap"
  moves :: "Move list"

section \<open>Errors\<close>

text \<open>
  \<open>MoveError\<close> values are returned (\<open>Either<Move, MoveError>\<close>); a \<open>failure\<close> is a
  thrown \<open>Error\<close>, or \<open>Nontermination\<close> where a loop of the source never ends.
  A call that can throw has the result type \<open>failure + 'a\<close>.
\<close>

datatype MoveError = NotYourTurn | CaptureOwnPiece | InvalidPieceMove PieceId

datatype failure =
    NoPieceAtPosition Position
  | AllowedMovesAlreadyCalculated
  | PieceDoesNotMatch Position PieceId
  | FenNot8Rows
  | FenInvalidPieceId char
  | FenInvalidColumnIndex int
  | FenInvalidRowIndex int
  | FenInvalidEnPassantTarget
  | FenInvalidHalfMoveClock
  | FenInvalidFullMoveNumber
  | PgnUnmatchedClosingParenthesis
  | PgnUnmatchedClosingBracket
  | PgnUnmatchedOpeningParenthesis
  | PgnUnmatchedOpeningBracket
  | PgnFailedWhiteMove
  | PgnFailedMove
  | PgnFailedBlackMove
  | PgnExpectedBlackMove
  | Nontermination


section \<open>Move calculator (moves.ts)\<close>

text \<open>
  The three loops of \<open>getPositionsBetween\<close>. Each runs until its index meets the
  target index, which never happens when the index moves away from it: the loops are
  partial functions, \<open>None\<close> standing for a loop that does not end.
\<close>

partial_function (option) horizontalLoop ::
  "int \<Rightarrow> int \<Rightarrow> int \<Rightarrow> BoardRank \<Rightarrow> Position list \<Rightarrow> Position list option" where
  "horizontalLoop i toFileIdx step fromRank positions =
     (if i \<noteq> toFileIdx then
        (case BOARD_FILES_at i of
           None \<Rightarrow> horizontalLoop (i + step) toFileIdx step fromRank positions
         | Some f \<Rightarrow> horizontalLoop (i + step) toFileIdx step fromRank
                      (positions @ [\<lparr>file = f, rank = fromRank\<rparr>]))
      else Some positions)"

partial_function (option) verticalLoop ::
  "int \<Rightarrow> int \<Rightarrow> int \<Rightarrow> BoardFile \<Rightarrow> Position list \<Rightarrow> Position list option" where
  "verticalLoop i toRankIdx step fromFile positions =
     (if i \<noteq> toRankIdx then
        (case BOARD_RANKS_at i of
           None \<Rightarrow> verticalLoop (i + step) toRankIdx step fromFile positions
         | Some r \<Rightarrow> verticalLoop (i + step) toRankIdx step fromFile
                      (positions @ [\<lparr>file = fromFile, rank = r\<rparr>]))
      else Some positions)"

partial_function (option) diagonalLoop ::
  "int \<Rightarrow> int \<Rightarrow> int \<Rightarrow> int \<Rightarrow> int \<Rightarrow> int \<Rightarrow> Position list \<Rightarrow> Position list option" where
  "diagonalLoop f r toFileIdx toRankIdx fileStep rankStep positions =
     (if f \<noteq> toFileIdx \<and> r \<noteq> toRankIdx then
        (case (BOARD_FILES_at f, BOARD_RANKS_at r) of
           (Some nextFile, Some nextRank) \<Rightarrow>
             diagonalLoop (f + fileStep) (r + rankStep) toFileIdx toRankIdx fileStep rankStep
               (positions @ [\<lparr>file = nextFile, rank = nextRank\<rparr>])
         | _ \<Rightarrow>
             diagonalLoop (f + fileStep) (r + rankStep) toFileIdx toRankIdx fileStep rankStep
               positions)
      else Some positions)"

declare horizontalLoop.simps [code]
declare verticalLoop.simps [code]
declare diagonalLoop.simps [code]

definition getPositionsBetween :: "Position \<Rightarrow> Position \<Rightarrow> Position list option" where
  "getPositionsBetween from to =
     (let fromFileIdx = fileIndex from; toFileIdx = fileIndex to;
          fromRankIdx = rankIndex from; toRankIdx = rankIndex to
      in if fromRankIdx = toRankIdx then
           (let step = (if fromFileIdx < toFileIdx then 1 else - 1)
            in horizontalLoop (fromFileIdx + step) toFileIdx step (rank from) [])
         else if fromFileIdx = toFileIdx then
           (let step = (if fromRankIdx < toRankIdx then 1 else - 1)
            in verticalLoop (fromRankIdx + step) toRankIdx step (file from) [])
         else if \<bar>fromFileIdx - toFileIdx\<bar> = \<bar>fromRankIdx - toRankIdx\<bar> then
           (let fileStep = (if fromFileIdx < toFileIdx then 1 else - 1);
                rankStep = (if fromRankIdx < toRankIdx then 1 else - 1)
            in diagonalLoop (fromFileIdx + fileStep) (fromRankIdx + rankStep)
                 toFileIdx toRankIdx fileStep rankStep [])
         else Some [])"

definition isPathClear :: "Position \<Rightarrow> Position \<Rightarrow> PieceId BoardMap \<Rightarrow> bool option" where
  "isPathClear from to board =
     (case getPositionsBetween from to of
        None \<Rightarrow> None
      | Some ps \<Rightarrow> Some (list_all (\<lambda>pos. \<not> BoardMap_has board pos) ps))"

definition isValidPawnMove ::
  "Position \<Rightarrow> Position \<Rightarrow> PieceId \<Rightarrow> PieceId BoardMap \<Rightarrow> Position option \<Rightarrow> bool option" where
  "isValidPawnMove from to piece' board enPassantTarget' =
     (let fromFileIdx = fileIndex from; toFileIdx = fileIndex to;
          fromRankIdx = rankIndex from; toRankIdx = rankIndex to;
          direction = (if isWhite piece' then 1 else - 1)
      in if file from = file to then
           (if toRankIdx - fromRankIdx = direction then Some (\<not> BoardMap_has board to)
            else if rank from = (if isWhite piece' then R2 else R7)
                    \<and> toRankIdx - fromRankIdx = 2 * direction then
              (if \<not> BoardMap_has board to then isPathClear from to board else Some False)
            else Some False)
         else if \<bar>toFileIdx - fromFileIdx\<bar> = 1 \<and> toRankIdx - fromRankIdx = direction then
           Some (BoardMap_has board to \<or> enPassantTarget' = Some to)
         else Some False)"

definition isValidKnightMove :: "Position \<Rightarrow> Position \<Rightarrow> bool" where
  "isValidKnightMove from to =
     (let fileDiff = \<bar>fileIndex to - fileIndex from\<bar>;
          rankDiff = \<bar>rankIndex to - rankIndex from\<bar>
      in (fileDiff = 2 \<and> rankDiff = 1) \<or> (fileDiff = 1 \<and> rankDiff = 2))"

definition isValidBishopMove :: "Position \<Rightarrow> Position \<Rightarrow> PieceId BoardMap \<Rightarrow> bool option" where
  "isValidBishopMove from to board =
     (let fileDiff = \<bar>fileIndex to - fileIndex from\<bar>;
          rankDiff = \<bar>rankIndex to - rankIndex from\<bar>
      in if fileDiff = rankDiff then isPathClear from to board else Some False)"

definition isValidRookMove :: "Position \<Rightarrow> Position \<Rightarrow> PieceId BoardMap \<Rightarrow> bool option" where
  "isValidRookMove from to board =
     (if file from = file to \<or> rank from = rank to then isPathClear from to board
      else Some False)"

definition isValidQueenMove :: "Position \<Rightarrow> Position \<Rightarrow> PieceId BoardMap \<Rightarrow> bool option" where
  "isValidQueenMove from to board =
     (case isValidBishopMove from to board of
        None \<Rightarrow> None
      | Some True \<Rightarrow> Some True
      | Some False \<Rightarrow> isValidRookMove from to board)"

definition isValidKingMove ::
  "Position \<Rightarrow> Position \<Rightarrow> PieceId \<Rightarrow> PieceId BoardMap \<Rightarrow> CastlingRights
     \<Rightarrow> (bool \<times> CastlingSide option) option" where
  "isValidKingMove from to piece' board castling' =
     (let fileDiff = \<bar>fileIndex to - fileIndex from\<bar>;
          rankDiff = \<bar>rankIndex to - rankIndex from\<bar>
      in if fileDiff \<le> 1 \<and> rankDiff \<le> 1 then Some (True, None)
         else if rankDiff = 0 \<and> rank from = (if isWhite piece' then R1 else R8)
                 \<and> file from = Fe then
           (case isPathClear from to board of
              None \<Rightarrow> None
            | Some clear \<Rightarrow>
                if clear then
                  (if file to = Fg
                      \<and> ((isWhite piece' \<and> whiteKingSide castling')
                          \<or> (\<not> isWhite piece' \<and> blackKingSide castling'))
                   then Some (True, Some KingSide)
                   else if file to = Fc
                      \<and> ((isWhite piece' \<and> whiteQueenSide castling')
                          \<or> (\<not> isWhite piece' \<and> blackQueenSide castling'))
                   then Some (True, Some QueenSide)
                   else Some (False, None))
                else Some (False, None))
         else Some (False, None))"

text \<open>\<open>moveToAlgebraic\<close> (algebraic.ts): \<open>notation += move.piece\<close> appends the
  piece's own letter, \<open>move.promotion.toUpperCase()\<close> the upper-cased one.\<close>

definition moveToAlgebraic :: "Move \<Rightarrow> string" where
  "moveToAlgebraic move =
     (case castling move of
        Some side \<Rightarrow> (if side = KingSide then ''O-O'' else ''O-O-O'')
      | None \<Rightarrow>
          (let isPawn' = isPawn (piece move) in
           (if \<not> isPawn' then [pieceChar (piece move)] else [])
           @ (if isCapture move \<and> isPawn' then [fileChar (file (from_pos move))] else [])
           @ (if isCapture move then ''x'' else [])
           @ Position_toString (to_pos move)
           @ (case promotion move of
                Some p \<Rightarrow> CHR ''='' # [pieceChar (pieceToUpperCase p)]
              | None \<Rightarrow> [])))"

text \<open>The piece-specific switch of \<open>calculateMove\<close>: validity, castling side and the
  en-passant flag.\<close>

definition validateByPiece ::
  "BoardInfo \<Rightarrow> Position \<Rightarrow> Position \<Rightarrow> PieceId
     \<Rightarrow> (bool \<times> CastlingSide option \<times> bool) option" where
  "validateByPiece board from to piece' =
     (if piece' = BLACK_PAWN \<or> piece' = WHITE_PAWN then
        (case isValidPawnMove from to piece' (pieces board) (enPassantTarget board) of
           None \<Rightarrow> None
         | Some isValid \<Rightarrow> Some (isValid, None, isValid \<and> enPassantTarget board = Some to))
      else if piece' = BLACK_KNIGHT \<or> piece' = WHITE_KNIGHT then
        Some (isValidKnightMove from to, None, False)
      else if piece' = BLACK_BISHOP \<or> piece' = WHITE_BISHOP then
        (case isValidBishopMove from to (pieces board) of
           None \<Rightarrow> None | Some isValid \<Rightarrow> Some (isValid, None, False))
      else if piece' = BLACK_ROOK \<or> piece' = WHITE_ROOK then
        (case isValidRookMove from to (pieces board) of
           None \<Rightarrow> None | Some isValid \<Rightarrow> Some (isValid, None, False))
      else if piece' = BLACK_QUEEN \<or> piece' = WHITE_QUEEN then
        (case isValidQueenMove from to (pieces board) of
           None \<Rightarrow> None | Some isValid \<Rightarrow> Some (isValid, None, False))
      else
        (case isValidKingMove from to piece' (pieces board) (canCastle board) of
           None \<Rightarrow> None | Some (isValid, castling') \<Rightarrow> Some (isValid, castling', False)))"

definition calculateMove ::
  "BoardInfo \<Rightarrow> Position \<Rightarrow> Position \<Rightarrow> PieceId option \<Rightarrow> bool
     \<Rightarrow> failure + (MoveError + Move)" where
  "calculateMove board from to promotionPiece ignoreAllowed =
     (case BoardMap_get (pieces board) from of
        None \<Rightarrow> Inl (NoPieceAtPosition from)
      | Some piece' \<Rightarrow>
          let pieceColor = getColor piece' in
          if pieceColor \<noteq> turnColor board then Inr (Inl NotYourTurn)
          else
            let targetPiece = BoardMap_get (pieces board) to in
            if (case targetPiece of None \<Rightarrow> False | Some t \<Rightarrow> pieceColor = getColor t)
            then Inr (Inl CaptureOwnPiece)
            else if \<not> ignoreAllowed
                    \<and> \<not> (case BoardMap_get (allowedMoves board) from of
                            None \<Rightarrow> False | Some ms \<Rightarrow> List.member ms to)
            then Inr (Inl (InvalidPieceMove piece'))
            else
              (case validateByPiece board from to piece' of
                 None \<Rightarrow> Inl Nontermination
               | Some (isValid, castling', isEnPassantCapture') \<Rightarrow>
                   if \<not> isValid then Inr (Inl (InvalidPieceMove piece'))
                   else
                     let promotion' =
                           (if piece' = BLACK_PAWN \<and> rank to = R1 then Some BLACK_QUEEN
                            else if piece' = WHITE_PAWN \<and> rank to = R8 then Some WHITE_QUEEN
                            else None);
                         move = \<lparr>from_pos = from, to_pos = to, algebraic = [],
                                 piece = piece', turn = pieceColor,
                                 isCapture = (targetPiece \<noteq> None \<or> isEnPassantCapture'),
                                 castling = castling',
                                 isEnPassantCapture = isEnPassantCapture',
                                 promotion =
                                   (case promotion' of
                                      None \<Rightarrow> None
                                    | Some q \<Rightarrow>
                                        (case promotionPiece of
                                           None \<Rightarrow> Some q | Some c \<Rightarrow> Some c)),
                                 comment = None\<rparr>
                     in Inr (Inr (move\<lparr>algebraic := moveToAlgebraic move\<rparr>))))"

section \<open>Legal move filter (moves.ts)\<close>

definition allSquares :: "Position list" where
  "allSquares = concat (map (\<lambda>f. map (\<lambda>r. Position_make f r) BOARD_RANKS) BOARD_FILES)"

text \<open>The scan of the opposing pieces: does one of them reach the king's square?\<close>

fun isKingInCheckLoop ::
  "BoardInfo \<Rightarrow> PlayerColor \<Rightarrow> Position \<Rightarrow> (Position \<times> PieceId) list \<Rightarrow> failure + bool" where
  "isKingInCheckLoop tempBoard turnColor' kingPos [] = Inr False"
| "isKingInCheckLoop tempBoard turnColor' kingPos ((opFrom, opPiece) # rest) =
     (if getColor opPiece = turnColor' then isKingInCheckLoop tempBoard turnColor' kingPos rest
      else
        (case calculateMove (tempBoard\<lparr>turnColor := getColor opPiece\<rparr>) opFrom kingPos None True of
           Inl e \<Rightarrow> Inl e
         | Inr (Inr opMove) \<Rightarrow> Inr True
         | Inr (Inl err) \<Rightarrow> isKingInCheckLoop tempBoard turnColor' kingPos rest))"

text \<open>The body of the loop over the destination squares: \<open>Inr True\<close> when \<open>to\<close> is
  pushed on \<open>possibleMoves\<close>.\<close>

definition isAllowedDestination ::
  "BoardInfo \<Rightarrow> Position \<Rightarrow> PieceId \<Rightarrow> Position \<Rightarrow> failure + bool" where
  "isAllowedDestination board from piece' to =
     (case calculateMove board from to None True of
        Inl e \<Rightarrow> Inl e
      | Inr (Inl err) \<Rightarrow> Inr False
      | Inr (Inr move) \<Rightarrow>
          (let p0 = BoardMap_delete (pieces board) from;
               p1 = (if isEnPassantCapture move
                     then BoardMap_delete p0 \<lparr>file = file to, rank = rank from\<rparr> else p0);
               p2 = BoardMap_set p1 to (case promotion move of Some q \<Rightarrow> q | None \<Rightarrow> piece');
               tempBoard = board\<lparr>pieces := p2, allowedMoves := []\<rparr>;
               kingPiece = (if turnColor board = WHITE then WHITE_KING else BLACK_KING)
           in case findPositionFor p2 kingPiece of
                None \<Rightarrow> Inr False
              | Some kingPos \<Rightarrow>
                  (case isKingInCheckLoop tempBoard (turnColor board) kingPos p2 of
                     Inl e \<Rightarrow> Inl e
                   | Inr isKingInCheck \<Rightarrow> Inr (\<not> isKingInCheck))))"

fun possibleMovesLoop ::
  "BoardInfo \<Rightarrow> Position \<Rightarrow> PieceId \<Rightarrow> Position list \<Rightarrow> failure + Position list" where
  "possibleMovesLoop board from piece' [] = Inr []"
| "possibleMovesLoop board from piece' (to # rest) =
     (case isAllowedDestination board from piece' to of
        Inl e \<Rightarrow> Inl e
      | Inr ok \<Rightarrow>
          (case possibleMovesLoop board from piece' rest of
             Inl e \<Rightarrow> Inl e
           | Inr ps \<Rightarrow> Inr (if ok then to # ps else ps)))"

fun fillAllowedMovesLoop ::
  "BoardInfo \<Rightarrow> (Position \<times> PieceId) list \<Rightarrow> (Position list) BoardMap
     \<Rightarrow> failure + (Position list) BoardMap" where
  "fillAllowedMovesLoop board [] acc = Inr acc"
| "fillAllowedMovesLoop board ((from, piece') # rest) acc =
     (if getColor piece' \<noteq> turnColor board then fillAllowedMovesLoop board rest acc
      else
        (case possibleMovesLoop board from piece' allSquares of
           Inl e \<Rightarrow> Inl e
         | Inr possibleMoves \<Rightarrow>
             fillAllowedMovesLoop board rest
               (if length possibleMoves > 0 then BoardMap_set acc from possibleMoves else acc)))"

text \<open>\<open>fillAllowedMoves\<close> mutates \<open>board.allowedMoves\<close>; the model returns the board
  with the mapping filled. The calls of \<open>calculateMove\<close> inside ignore the mapping.\<close>

definition fillAllowedMoves :: "BoardInfo \<Rightarrow> failure + BoardInfo" where
  "fillAllowedMoves board =
     (if BoardMap_size (allowedMoves board) > 0 then Inl AllowedMovesAlreadyCalculated
      else
        (case fillAllowedMovesLoop board (pieces board) (allowedMoves board) of
           Inl e \<Rightarrow> Inl e
         | Inr am \<Rightarrow> Inr (board\<lparr>allowedMoves := am\<rparr>)))"

section \<open>Board mutator (moves.ts)\<close>

definition applyCastlingMove :: "BoardInfo \<Rightarrow> Move \<Rightarrow> BoardInfo" where
  "applyCastlingMove newBoard move =
     (let isWhiteMove = (turn move = WHITE);
          rank' = (if isWhiteMove then R1 else R8);
          king = (if isWhiteMove then WHITE_KING else BLACK_KING);
          rook = (if isWhiteMove then WHITE_ROOK else BLACK_ROOK);
          clear = (\<lambda>c. if isWhiteMove then c\<lparr>whiteKingSide := False, whiteQueenSide := False\<rparr>
                        else c\<lparr>blackKingSide := False, blackQueenSide := False\<rparr>)
      in if castling move = Some KingSide then
           newBoard\<lparr>pieces :=
               BoardMap_set
                 (BoardMap_set
                    (BoardMap_delete (BoardMap_delete (pieces newBoard) \<lparr>file = Fe, rank = rank'\<rparr>)
                       \<lparr>file = Fh, rank = rank'\<rparr>)
                    \<lparr>file = Fg, rank = rank'\<rparr> king)
                 \<lparr>file = Ff, rank = rank'\<rparr> rook,
             canCastle := clear (canCastle newBoard)\<rparr>
         else if castling move = Some QueenSide then
           newBoard\<lparr>pieces :=
               BoardMap_set
                 (BoardMap_set
                    (BoardMap_delete (BoardMap_delete (pieces newBoard) \<lparr>file = Fe, rank = rank'\<rparr>)
                       \<lparr>file = Fa, rank = rank'\<rparr>)
                    \<lparr>file = Fc, rank = rank'\<rparr> king)
                 \<lparr>file = Fd, rank = rank'\<rparr> rook,
             canCastle := clear (canCastle newBoard)\<rparr>
         else newBoard)"

definition updateCastlingRights :: "CastlingRights \<Rightarrow> Move \<Rightarrow> CastlingRights" where
  "updateCastlingRights castling' move =
     (if piece move = BLACK_KING then castling'\<lparr>blackKingSide := False, blackQueenSide := False\<rparr>
      else if piece move = WHITE_KING then
        castling'\<lparr>whiteKingSide := False, whiteQueenSide := False\<rparr>
      else if piece move = BLACK_ROOK then
        (let c1 = (if from_pos move = \<lparr>file = Fa, rank = R8\<rparr>
                   then castling'\<lparr>blackQueenSide := False\<rparr> else castling')
         in if from_pos move = \<lparr>file = Fh, rank = R8\<rparr> then c1\<lparr>blackKingSide := False\<rparr> else c1)
      else if piece move = WHITE_ROOK then
        (let c1 = (if from_pos move = \<lparr>file = Fa, rank = R1\<rparr>
                   then castling'\<lparr>whiteQueenSide := False\<rparr> else castling')
         in if from_pos move = \<lparr>file = Fh, rank = R1\<rparr> then c1\<lparr>whiteKingSide := False\<rparr> else c1)
      else castling')"

definition applyMove :: "BoardInfo \<Rightarrow> Move \<Rightarrow> failure + BoardInfo" where
  "applyMove board move =
     (let isWhiteMove = (turnColor board = WHITE);
          newBoard = \<lparr>pieces = pieces board,
                      turnColor = (if isWhiteMove then BLACK else WHITE),
                      canCastle = canCastle board,
                      enPassantTarget = None,
                      halfMoveClock = halfMoveClock board + 1,
                      fullMoveNumber =
                        (if isWhiteMove then fullMoveNumber board else fullMoveNumber board + 1),
                      allowedMoves = [],
                      moves = moves board @ [move]\<rparr>
      in if BoardMap_get (pieces board) (from_pos move) \<noteq> Some (piece move) then
           Inl (PieceDoesNotMatch (from_pos move) (piece move))
         else if castling move \<noteq> None then fillAllowedMoves (applyCastlingMove newBoard move)
         else
           (let p0 = BoardMap_delete (pieces newBoard) (from_pos move);
                p1 = (if isEnPassantCapture move
                      then BoardMap_delete p0
                             \<lparr>file = file (to_pos move), rank = rank (from_pos move)\<rparr>
                      else p0);
                p2 = (case promotion move of
                        Some promotedPiece \<Rightarrow> BoardMap_set p1 (to_pos move) promotedPiece
                      | None \<Rightarrow> BoardMap_set p1 (to_pos move) (piece move));
                isPawnMove = isPawn (piece move);
                twoSquares = (isPawnMove
                              \<and> \<bar>rankIndex (from_pos move) - rankIndex (to_pos move)\<bar> = 2)
            in fillAllowedMoves
                 (newBoard\<lparr>pieces := p2,
                    canCastle := updateCastlingRights (canCastle newBoard) move,
                    halfMoveClock :=
                      (if isPawnMove \<or> isCapture move then 0 else halfMoveClock newBoard),
                    enPassantTarget :=
                      (if twoSquares
                       then Some (Position_make (file (from_pos move))
                                    (if isWhiteMove then R3 else R6))
                       else None)\<rparr>)))"

section \<open>FEN codec (fen.ts)\<close>

text \<open>\<open>String.prototype.split\<close> with a one-character separator: always at least one
  part, empty parts kept.\<close>

fun split :: "string \<Rightarrow> char \<Rightarrow> string list" where
  "split [] sep = [[]]"
| "split (c # cs) sep =
     (if c = sep then [] # split cs sep
      else (case split cs sep of [] \<Rightarrow> [[c]] | w # ws \<Rightarrow> (c # w) # ws))"

fun join :: "string list \<Rightarrow> char \<Rightarrow> string" where
  "join [] sep = []"
| "join [w] sep = w"
| "join (w # ws) sep = w @ sep # join ws sep"

text \<open>Modelled from the spec: \<open>isNumberChar\<close> is imported by fen.ts from the module
  \<open>$lib/number\<close>, which is not among the sources; the spec calls these characters the
  digit run-length gaps, and pgn.ts holds a function of the same name with this body
  (\<open>char >= '0' && char <= '9'\<close>).\<close>

definition isNumberChar :: "char \<Rightarrow> bool" where
  "isNumberChar c = (48 \<le> (of_char c :: nat) \<and> (of_char c :: nat) \<le> 57)"

text \<open>\<open>Number(char)\<close> on a digit character.\<close>

definition digitValue :: "char \<Rightarrow> int" where
  "digitValue c = int (of_char c) - 48"

fun digitsValue :: "string \<Rightarrow> int \<Rightarrow> int" where
  "digitsValue [] acc = acc"
| "digitsValue (c # cs) acc = digitsValue cs (10 * acc + digitValue c)"

text \<open>\<open>parseInt(s, 10)\<close>: leading white space is skipped, then an optional sign and the
  longest run of decimal digits are read; no digit gives \<open>NaN\<close>, here \<open>None\<close>. The
  result is exact (the rounding of JavaScript numbers above \<open>2^53\<close> is not modelled).\<close>

definition isStrWhiteSpace :: "char \<Rightarrow> bool" where
  "isStrWhiteSpace c =
     ((9 \<le> (of_char c :: nat) \<and> (of_char c :: nat) \<le> 13) \<or> (of_char c :: nat) = 32)"

definition parseInt :: "string \<Rightarrow> int option" where
  "parseInt s =
     (let s1 = dropWhile isStrWhiteSpace s;
          neg = (case s1 of c # r \<Rightarrow> c = CHR ''-'' | [] \<Rightarrow> False);
          s2 = (case s1 of c # r \<Rightarrow> (if c = CHR ''-'' \<or> c = CHR ''+'' then r else s1)
                | [] \<Rightarrow> s1);
          ds = takeWhile isNumberChar s2
      in if ds = [] then None
         else Some (if neg then - digitsValue ds 0 else digitsValue ds 0))"

text \<open>A number in a template string: decimal digits, with a sign when negative.\<close>

definition digitChar :: "nat \<Rightarrow> char" where
  "digitChar d = char_of (48 + d)"

fun showNat :: "nat \<Rightarrow> string" where
  "showNat n = (if n < 10 then [digitChar n] else showNat (n div 10) @ [digitChar (n mod 10)])"

declare showNat.simps [simp del]

definition showInt :: "int \<Rightarrow> string" where
  "showInt i = (if i < 0 then CHR ''-'' # showNat (nat (- i)) else showNat (nat i))"

definition INITIAL_FEN :: string where
  "INITIAL_FEN = ''rnbqkbnr/pppppppp/8/8/8/8/PPPPPPPP/RNBQKBNR w KQkq - 0 1''"

text \<open>\<open>boardToFen\<close>: the loop over the files of one rank, then the six fields. The side
  to move is written as the value of \<open>turnColor\<close>, which is \<open>'white'\<close> or \<open>'black'\<close>.\<close>

fun playerColorStr :: "PlayerColor \<Rightarrow> string" where
  "playerColorStr WHITE = ''white''"
| "playerColorStr BLACK = ''black''"

fun boardToFenRow :: "PieceId BoardMap \<Rightarrow> BoardRank \<Rightarrow> BoardFile list \<Rightarrow> string \<Rightarrow> nat \<Rightarrow> string" where
  "boardToFenRow ps row [] rowStr emptyCount =
     (if emptyCount > 0 then rowStr @ showNat emptyCount else rowStr)"
| "boardToFenRow ps row (col # cols) rowStr emptyCount =
     (case BoardMap_get ps \<lparr>file = col, rank = row\<rparr> of
        Some piece' \<Rightarrow>
          boardToFenRow ps row cols
            ((if emptyCount > 0 then rowStr @ showNat emptyCount else rowStr) @ [pieceChar piece'])
            0
      | None \<Rightarrow> boardToFenRow ps row cols rowStr (emptyCount + 1))"

definition boardToFen :: "BoardInfo \<Rightarrow> string" where
  "boardToFen fen =
     (let rows = map (\<lambda>row. boardToFenRow (pieces fen) row BOARD_FILES [] 0) (rev BOARD_RANKS);
          placement = join rows (CHR ''/'');
          turn' = playerColorStr (turnColor fen);
          castling0 =
            (if whiteKingSide (canCastle fen) then ''K'' else [])
            @ (if whiteQueenSide (canCastle fen) then ''Q'' else [])
            @ (if blackKingSide (canCastle fen) then ''k'' else [])
            @ (if blackQueenSide (canCastle fen) then ''q'' else []);
          castling' = (if castling0 = [] then ''-'' else castling0);
          enPassant = (case enPassantTarget fen of Some p \<Rightarrow> Position_toString p | None \<Rightarrow> ''-'');
          halfMove = showInt (halfMoveClock fen);
          fullMove = showInt (fullMoveNumber fen)
      in placement @ '' '' @ turn' @ '' '' @ castling' @ '' '' @ enPassant @ '' '' @ halfMove
         @ '' '' @ fullMove)"

text \<open>\<open>parseFen\<close>: the loop over the characters of one rank, the loop over the ranks
  (\<open>rowIndex\<close> from 7 down to 0 over the reversed rows), then the other fields.\<close>

fun parseFenRow ::
  "string \<Rightarrow> int \<Rightarrow> int \<Rightarrow> PieceId BoardMap \<Rightarrow> failure + PieceId BoardMap" where
  "parseFenRow [] colIndex rowIndex ps = Inr ps"
| "parseFenRow (c # cs) colIndex rowIndex ps =
     (if isNumberChar c then parseFenRow cs (colIndex + digitValue c) rowIndex ps
      else
        (case parsePieceId c of
           None \<Rightarrow> Inl (FenInvalidPieceId c)
         | Some piece' \<Rightarrow>
             (case BOARD_FILES_at colIndex of
                None \<Rightarrow> Inl (FenInvalidColumnIndex colIndex)
              | Some col \<Rightarrow>
                  (case BOARD_RANKS_at rowIndex of
                     None \<Rightarrow> Inl (FenInvalidRowIndex rowIndex)
                   | Some row \<Rightarrow>
                       parseFenRow cs (colIndex + 1) rowIndex
                         (BoardMap_set ps \<lparr>file = col, rank = row\<rparr> piece')))))"

fun parseFenRows ::
  "string list \<Rightarrow> nat \<Rightarrow> PieceId BoardMap \<Rightarrow> failure + PieceId BoardMap" where
  "parseFenRows fenRows 0 ps = Inr ps"
| "parseFenRows fenRows (Suc rowIndex) ps =
     (case parseFenRow (fenRows ! rowIndex) 0 (int rowIndex) ps of
        Inl e \<Rightarrow> Inl e
      | Inr ps' \<Rightarrow> parseFenRows fenRows rowIndex ps')"

text \<open>A field of the destructuring assignment, with its default when the part is
  missing.\<close>

definition fenPart :: "string list \<Rightarrow> nat \<Rightarrow> string \<Rightarrow> string" where
  "fenPart fenParts i dflt = (if i < length fenParts then fenParts ! i else dflt)"

definition parseFen :: "string \<Rightarrow> failure + BoardInfo" where
  "parseFen fen =
     (let fenParts = split fen (CHR '' '');
          piecePlacement = fenPart fenParts 0 [];
          turnStr = fenPart fenParts 1 ''w'';
          castlingRightsStr = fenPart fenParts 2 ''-'';
          enPassantTargetStr = fenPart fenParts 3 ''-'';
          halfMoveClockStr = fenPart fenParts 4 ''0'';
          fullMoveNumberStr = fenPart fenParts 5 ''1'';
          fenRows = split piecePlacement (CHR ''/'')
      in if length fenRows \<noteq> 8 then Inl FenNot8Rows
         else
           (case parseFenRows (rev fenRows) (length fenRows) [] of
              Inl e \<Rightarrow> Inl e
            | Inr ps \<Rightarrow>
                (let turnColor' = (if turnStr = ''w'' then WHITE else BLACK);
                     canCastle' = \<lparr>whiteKingSide = List.member castlingRightsStr (CHR ''K''),
                                   whiteQueenSide = List.member castlingRightsStr (CHR ''Q''),
                                   blackKingSide = List.member castlingRightsStr (CHR ''k''),
                                   blackQueenSide = List.member castlingRightsStr (CHR ''q'')\<rparr>
                 in if enPassantTargetStr \<noteq> ''-'' \<and> isPositionStr enPassantTargetStr = None
                    then Inl FenInvalidEnPassantTarget
                    else
                      (case parseInt halfMoveClockStr of
                         None \<Rightarrow> Inl FenInvalidHalfMoveClock
                       | Some halfMoveClock' \<Rightarrow>
                           if halfMoveClock' < 0 then Inl FenInvalidHalfMoveClock
                           else
                             (case parseInt fullMoveNumberStr of
                                None \<Rightarrow> Inl FenInvalidFullMoveNumber
                              | Some fullMoveNumber' \<Rightarrow>
                                  if fullMoveNumber' < 1 then Inl FenInvalidFullMoveNumber
                                  else
                                    fillAllowedMoves
                                      \<lparr>pieces = ps, turnColor = turnColor',
                                        canCastle = canCastle',
                                        enPassantTarget =
                                          (if enPassantTargetStr \<noteq> ''-''
                                           then isPositionStr enPassantTargetStr else None),
                                        halfMoveClock = halfMoveClock',
                                        fullMoveNumber = fullMoveNumber',
                                        allowedMoves = [], moves = []\<rparr>)))))"

text \<open>\<open>validateFen\<close> (fen.ts). \<open>Number(char)\<close> is a number for a digit and for a
  white-space character (then 0), and \<open>NaN\<close> for every other single character;
  \<open>toLowerCase\<close> is modelled on the ASCII letters.\<close>

definition charToLowerCase :: "char \<Rightarrow> char" where
  "charToLowerCase c =
     (if 65 \<le> (of_char c :: nat) \<and> (of_char c :: nat) \<le> 90 then char_of (of_char c + 32 :: nat)
      else c)"

fun validateFenRow :: "string \<Rightarrow> int \<Rightarrow> bool" where
  "validateFenRow [] sum0 = (sum0 = 8)"
| "validateFenRow (c # cs) sum0 =
     (if isNumberChar c then validateFenRow cs (sum0 + digitValue c)
      else if isStrWhiteSpace c then validateFenRow cs sum0
      else if \<not> isPiece (charToLowerCase c) then False
      else validateFenRow cs (sum0 + 1))"

definition validateFen :: "string \<Rightarrow> bool" where
  "validateFen fen =
     (if fen = [] then False
      else
        (let fenParts = split fen (CHR '' '')
         in if length fenParts \<noteq> 6 then False
            else
              (let piecePlacement = fenParts ! 0
               in if piecePlacement = [] then False
                  else
                    (let rows = split piecePlacement (CHR ''/'')
                     in if length rows \<noteq> 8 then False
                        else list_all (\<lambda>row. validateFenRow row 0) rows))))"

section \<open>Algebraic notation (algebraic.ts)\<close>

datatype AlgebraicMoveError =
    MoveError MoveError
  | InvalidAlgebraicNotation string
  | AmbiguousAlgebraicNotation string PieceId

datatype AlgebraicPieceChar = KNIGHT | BISHOP | ROOK | QUEEN | KING

fun algebraicPieceChar :: "AlgebraicPieceChar \<Rightarrow> char" where
  "algebraicPieceChar KNIGHT = CHR ''N''"
| "algebraicPieceChar BISHOP = CHR ''B''"
| "algebraicPieceChar ROOK = CHR ''R''"
| "algebraicPieceChar QUEEN = CHR ''Q''"
| "algebraicPieceChar KING = CHR ''K''"

fun algebraicPieceCharToPieceId :: "AlgebraicPieceChar \<Rightarrow> bool \<Rightarrow> PieceId" where
  "algebraicPieceCharToPieceId KNIGHT isWhite' = (if isWhite' then WHITE_KNIGHT else BLACK_KNIGHT)"
| "algebraicPieceCharToPieceId BISHOP isWhite' = (if isWhite' then WHITE_BISHOP else BLACK_BISHOP)"
| "algebraicPieceCharToPieceId ROOK isWhite' = (if isWhite' then WHITE_ROOK else BLACK_ROOK)"
| "algebraicPieceCharToPieceId QUEEN isWhite' = (if isWhite' then WHITE_QUEEN else BLACK_QUEEN)"
| "algebraicPieceCharToPieceId KING isWhite' = (if isWhite' then WHITE_KING else BLACK_KING)"

text \<open>\<open>algebraic[i]\<close>: \<open>undefined\<close> (here \<open>None\<close>) beyond the end of the string.\<close>

definition charAt :: "string \<Rightarrow> nat \<Rightarrow> char option" where
  "charAt s i = (if i < length s then Some (s ! i) else None)"

text \<open>The loop over a table of offsets, which \<open>getPossibleKnightFromPositions\<close> and
  \<open>getPossibleKingFromPositions\<close> both run (with their own table and piece).\<close>

fun fromPositionsByOffsets ::
  "Position \<Rightarrow> PieceId BoardMap \<Rightarrow> BoardFile option \<Rightarrow> BoardRank option \<Rightarrow> PieceId
     \<Rightarrow> (int \<times> int) list \<Rightarrow> Position list" where
  "fromPositionsByOffsets origin ps desiredFile desiredRank lookup [] = []"
| "fromPositionsByOffsets origin ps desiredFile desiredRank lookup ((df, dr) # rest) =
     (let fileIdx = fileIndex origin + df;
          rankIdx = rankIndex origin + dr;
          others = fromPositionsByOffsets origin ps desiredFile desiredRank lookup rest
      in if fileIdx < 0 \<or> fileIdx \<ge> 8 then others
         else if rankIdx < 0 \<or> rankIdx \<ge> 8 then others
         else
           (case (BOARD_FILES_at fileIdx, BOARD_RANKS_at rankIdx) of
              (Some f, Some r) \<Rightarrow>
                if desiredFile \<noteq> None \<and> Some f \<noteq> desiredFile then others
                else if desiredRank \<noteq> None \<and> Some r \<noteq> desiredRank then others
                else if BoardMap_get ps (Position_make f r) = Some lookup
                then Position_make f r # others
                else others
            | _ \<Rightarrow> others))"

definition knightOffsets :: "(int \<times> int) list" where
  "knightOffsets = [(2, 1), (1, 2), (- 1, 2), (- 2, 1), (- 2, - 1), (- 1, - 2), (1, - 2), (2, - 1)]"

definition kingOffsets :: "(int \<times> int) list" where
  "kingOffsets = [(1, 0), (1, 1), (0, 1), (- 1, 1), (- 1, 0), (- 1, - 1), (0, - 1), (1, - 1)]"

definition getPossibleKnightFromPositions ::
  "Position \<Rightarrow> BoardInfo \<Rightarrow> BoardFile option \<Rightarrow> BoardRank option \<Rightarrow> Position list" where
  "getPossibleKnightFromPositions origin board desiredFile desiredRank =
     fromPositionsByOffsets origin (pieces board) desiredFile desiredRank
       (if turnColor board = WHITE then WHITE_KNIGHT else BLACK_KNIGHT) knightOffsets"

definition getPossibleKingFromPositions ::
  "Position \<Rightarrow> BoardInfo \<Rightarrow> BoardFile option \<Rightarrow> BoardRank option \<Rightarrow> Position list" where
  "getPossibleKingFromPositions origin board desiredFile desiredRank =
     fromPositionsByOffsets origin (pieces board) desiredFile desiredRank
       (if turnColor board = WHITE then WHITE_KING else BLACK_KING) kingOffsets"

text \<open>The \<open>while\<close> loop that walks one ray from the destination square; it is the same
  in \<open>getPossibleBishopFromPositions\<close> and \<open>getPossibleRookFromPositions\<close>. It ends
  when the indices leave the board or a piece is met on a square that passes the filters.\<close>

partial_function (option) rayLoop ::
  "int \<Rightarrow> int \<Rightarrow> int \<Rightarrow> int \<Rightarrow> PieceId BoardMap \<Rightarrow> BoardFile option \<Rightarrow> BoardRank option
     \<Rightarrow> PieceId \<Rightarrow> Position list \<Rightarrow> Position list option" where
  "rayLoop fileIdx rankIdx df dr ps desiredFile desiredRank lookup positions =
     (if fileIdx \<ge> 0 \<and> fileIdx < 8 \<and> rankIdx \<ge> 0 \<and> rankIdx < 8 then
        (case (BOARD_FILES_at fileIdx, BOARD_RANKS_at rankIdx) of
           (Some f, Some r) \<Rightarrow>
             if desiredFile \<noteq> None \<and> Some f \<noteq> desiredFile then
               rayLoop (fileIdx + df) (rankIdx + dr) df dr ps desiredFile desiredRank lookup positions
             else if desiredRank \<noteq> None \<and> Some r \<noteq> desiredRank then
               rayLoop (fileIdx + df) (rankIdx + dr) df dr ps desiredFile desiredRank lookup positions
             else
               (case BoardMap_get ps (Position_make f r) of
                  None \<Rightarrow>
                    rayLoop (fileIdx + df) (rankIdx + dr) df dr ps desiredFile desiredRank lookup
                      positions
                | Some pieceAtPos \<Rightarrow>
                    Some (if pieceAtPos = lookup then positions @ [Position_make f r]
                          else positions))
         | _ \<Rightarrow> Some positions)
      else Some positions)"

declare rayLoop.simps [code]

fun raysLoop ::
  "Position \<Rightarrow> PieceId BoardMap \<Rightarrow> BoardFile option \<Rightarrow> BoardRank option \<Rightarrow> PieceId
     \<Rightarrow> (int \<times> int) list \<Rightarrow> Position list \<Rightarrow> Position list option" where
  "raysLoop origin ps desiredFile desiredRank lookup [] positions = Some positions"
| "raysLoop origin ps desiredFile desiredRank lookup ((df, dr) # rest) positions =
     (case rayLoop (fileIndex origin + df) (rankIndex origin + dr) df dr ps desiredFile
             desiredRank lookup positions of
        None \<Rightarrow> None
      | Some positions' \<Rightarrow> raysLoop origin ps desiredFile desiredRank lookup rest positions')"

definition bishopDirections :: "(int \<times> int) list" where
  "bishopDirections = [(1, 1), (1, - 1), (- 1, 1), (- 1, - 1)]"

definition rookDirections :: "(int \<times> int) list" where
  "rookDirections = [(1, 0), (- 1, 0), (0, 1), (0, - 1)]"

definition getPossibleBishopFromPositions ::
  "Position \<Rightarrow> BoardInfo \<Rightarrow> BoardFile option \<Rightarrow> BoardRank option \<Rightarrow> PieceId option
     \<Rightarrow> Position list option" where
  "getPossibleBishopFromPositions origin board desiredFile desiredRank lookupPieceId =
     raysLoop origin (pieces board) desiredFile desiredRank
       (case lookupPieceId of
          Some l \<Rightarrow> l
        | None \<Rightarrow> (if turnColor board = WHITE then WHITE_BISHOP else BLACK_BISHOP))
       bishopDirections []"

definition getPossibleRookFromPositions ::
  "Position \<Rightarrow> BoardInfo \<Rightarrow> BoardFile option \<Rightarrow> BoardRank option \<Rightarrow> PieceId option
     \<Rightarrow> Position list option" where
  "getPossibleRookFromPositions origin board desiredFile desiredRank lookupPieceId =
     raysLoop origin (pieces board) desiredFile desiredRank
       (case lookupPieceId of
          Some l \<Rightarrow> l
        | None \<Rightarrow> (if turnColor board = WHITE then WHITE_ROOK else BLACK_ROOK))
       rookDirections []"

definition getPossibleQueenFromPositions ::
  "Position \<Rightarrow> BoardInfo \<Rightarrow> BoardFile option \<Rightarrow> BoardRank option \<Rightarrow> Position list option" where
  "getPossibleQueenFromPositions origin board desiredFile desiredRank =
     (let queen = (if turnColor board = WHITE then WHITE_QUEEN else BLACK_QUEEN)
      in case getPossibleRookFromPositions origin board desiredFile desiredRank (Some queen) of
           None \<Rightarrow> None
         | Some rs \<Rightarrow>
             (case getPossibleBishopFromPositions origin board desiredFile desiredRank (Some queen) of
                None \<Rightarrow> None
              | Some bs \<Rightarrow> Some (rs @ bs)))"

fun getPossibleMovePositionsByAlgebraic ::
  "Position \<Rightarrow> BoardInfo \<Rightarrow> AlgebraicPieceChar \<Rightarrow> BoardFile option \<Rightarrow> BoardRank option
     \<Rightarrow> Position list option" where
  "getPossibleMovePositionsByAlgebraic origin board KNIGHT desiredFile desiredRank =
     Some (getPossibleKnightFromPositions origin board desiredFile desiredRank)"
| "getPossibleMovePositionsByAlgebraic origin board BISHOP desiredFile desiredRank =
     getPossibleBishopFromPositions origin board desiredFile desiredRank None"
| "getPossibleMovePositionsByAlgebraic origin board ROOK desiredFile desiredRank =
     getPossibleRookFromPositions origin board desiredFile desiredRank None"
| "getPossibleMovePositionsByAlgebraic origin board QUEEN desiredFile desiredRank =
     getPossibleQueenFromPositions origin board desiredFile desiredRank"
| "getPossibleMovePositionsByAlgebraic origin board KING desiredFile desiredRank =
     Some (getPossibleKingFromPositions origin board desiredFile desiredRank)"

text \<open>The result of one of the \<open>tryParse...\<close> functions is \<open>null\<close> (here \<open>None\<close>) when
  the text is not of its kind, and otherwise what \<open>calculateMoveFromAlgebraic\<close> returns:
  a thrown failure, a returned error, or a move.\<close>

type_synonym AlgebraicResult = "failure + (AlgebraicMoveError + Move)"

definition liftMoveResult :: "failure + (MoveError + Move) \<Rightarrow> AlgebraicResult" where
  "liftMoveResult r =
     (case r of
        Inl e \<Rightarrow> Inl e
      | Inr (Inl err) \<Rightarrow> Inr (Inl (MoveError err))
      | Inr (Inr move) \<Rightarrow> Inr (Inr move))"

definition isCheckOrMateChar :: "char option \<Rightarrow> bool" where
  "isCheckOrMateChar c = (c = Some (CHR ''+'') \<or> c = Some (CHR ''#''))"

text \<open>
  \<open>tryParseAlgebraicMoveByChar\<close> in three parts, in the order of its body: the test of
  the first character (\<open>null\<close> when it is not the piece letter), the reading of the text
  (\<open>parseAlgebraicMoveByChar\<close>), and, once the text is read, the search for the origin
  square and the call of \<open>calculateMove\<close> (\<open>resolveAlgebraicPieceMove\<close>).
\<close>

definition resolveAlgebraicPieceMove ::
  "string \<Rightarrow> BoardInfo \<Rightarrow> AlgebraicPieceChar \<Rightarrow> BoardFile option \<Rightarrow> BoardRank option \<Rightarrow> bool
     \<Rightarrow> Position \<Rightarrow> AlgebraicResult" where
  "resolveAlgebraicPieceMove algebraic' board pieceChar' fromFile fromRank isCapture' to =
     (let piece' = algebraicPieceCharToPieceId pieceChar' (turnColor board = WHITE)
      in case getPossibleMovePositionsByAlgebraic to board pieceChar' fromFile fromRank of
           None \<Rightarrow> Inl Nontermination
         | Some fromPositions \<Rightarrow>
             if length fromPositions > 1 then
               Inr (Inl (AmbiguousAlgebraicNotation algebraic' piece'))
             else
               (case fromPositions of
                  [] \<Rightarrow> Inr (Inl (MoveError (InvalidPieceMove piece')))
                | from # _ \<Rightarrow>
                    (case calculateMove board from to None False of
                       Inl e \<Rightarrow> Inl e
                     | Inr (Inl err) \<Rightarrow> Inr (Inl (MoveError err))
                     | Inr (Inr move) \<Rightarrow>
                         if isCapture' \<and> \<not> isCapture move then
                           Inr (Inl (InvalidAlgebraicNotation algebraic'))
                         else if piece move \<noteq> piece' then
                           Inr (Inl (MoveError (InvalidPieceMove piece')))
                         else Inr (Inr move))))"

definition parseAlgebraicMoveByChar ::
  "string \<Rightarrow> BoardInfo \<Rightarrow> AlgebraicPieceChar \<Rightarrow> AlgebraicResult" where
  "parseAlgebraicMoveByChar algebraic' board pieceChar' =
     (let offset0 = (1::nat);
          hasFile = (isBoardFile (charAt algebraic' offset0)
                     \<and> (isBoardFile (charAt algebraic' (offset0 + 1))
                         \<or> isBoardFile (charAt algebraic' (offset0 + 2))));
          fromFile = (if hasFile then Option.bind (charAt algebraic' offset0) asBoardFile
                      else None);
          offset1 = (if hasFile then offset0 + 1 else offset0);
          hasRank = (isBoardRank (charAt algebraic' offset1)
                     \<and> (isBoardFile (charAt algebraic' (offset1 + 1))
                         \<or> isBoardFile (charAt algebraic' (offset1 + 2))));
          fromRank = (if hasRank then Option.bind (charAt algebraic' offset1) asBoardRank
                      else None);
          offset2 = (if hasRank then offset1 + 1 else offset1)
      in if pieceChar' = KING \<and> fromFile \<noteq> None \<and> fromRank \<noteq> None then
           Inr (Inl (InvalidAlgebraicNotation algebraic'))
         else
           (let isCapture' = (charAt algebraic' offset2 = Some (CHR ''x''));
                offset3 = (if isCapture' then offset2 + 1 else offset2);
                toFile = Option.bind (charAt algebraic' offset3) asBoardFile;
                toRank = Option.bind (charAt algebraic' (offset3 + 1)) asBoardRank;
                offset4 = offset3 + 2
            in case (toFile, toRank) of
                 (Some tf, Some tr) \<Rightarrow>
                   (let hasCheckOrMate = isCheckOrMateChar (charAt algebraic' offset4);
                        expectedLength = (if hasCheckOrMate then offset4 + 1 else offset4)
                    in if length algebraic' \<noteq> expectedLength then
                         Inr (Inl (InvalidAlgebraicNotation algebraic'))
                       else
                         resolveAlgebraicPieceMove algebraic' board pieceChar' fromFile fromRank
                           isCapture' (Position_make tf tr))
               | _ \<Rightarrow> Inr (Inl (InvalidAlgebraicNotation algebraic'))))"

definition tryParseAlgebraicMoveByChar ::
  "string \<Rightarrow> BoardInfo \<Rightarrow> AlgebraicPieceChar \<Rightarrow> AlgebraicResult option" where
  "tryParseAlgebraicMoveByChar algebraic' board pieceChar' =
     (if charAt algebraic' 0 \<noteq> Some (algebraicPieceChar pieceChar') then None
      else Some (parseAlgebraicMoveByChar algebraic' board pieceChar'))"

fun promotionPieceOfChar :: "char \<Rightarrow> bool \<Rightarrow> PieceId option" where
  "promotionPieceOfChar c isWhite' =
     (if c = CHR ''Q'' then Some (if isWhite' then WHITE_QUEEN else BLACK_QUEEN)
      else if c = CHR ''R'' then Some (if isWhite' then WHITE_ROOK else BLACK_ROOK)
      else if c = CHR ''B'' then Some (if isWhite' then WHITE_BISHOP else BLACK_BISHOP)
      else if c = CHR ''N'' then Some (if isWhite' then WHITE_KNIGHT else BLACK_KNIGHT)
      else None)"

definition isAlgebraicPromotionPieceChar :: "char option \<Rightarrow> bool" where
  "isAlgebraicPromotionPieceChar c =
     (c = Some (CHR ''Q'') \<or> c = Some (CHR ''R'') \<or> c = Some (CHR ''B'') \<or> c = Some (CHR ''N''))"

text \<open>
  \<open>tryParseAlgebraicPawnMove\<close> in two parts: the reading of the text, which returns
  \<open>null\<close> when it does not start as a pawn move does, and, once the text is read, the
  search for the origin square and the call of \<open>calculateMove\<close>
  (\<open>resolveAlgebraicPawnMove\<close>).
\<close>

definition resolveAlgebraicPawnMove ::
  "BoardInfo \<Rightarrow> BoardFile option \<Rightarrow> BoardFile \<Rightarrow> BoardRank \<Rightarrow> PieceId option
     \<Rightarrow> AlgebraicResult" where
  "resolveAlgebraicPawnMove board fromCaptureFile tf tr promotionPiece =
     (let isWhite' = (turnColor board = WHITE);
          pawn = (if isWhite' then WHITE_PAWN else BLACK_PAWN)
      in case (if isWhite' then prevBoardRank tr else nextBoardRank tr) of
           None \<Rightarrow> Inr (Inl (MoveError (InvalidPieceMove pawn)))
         | Some prevRank \<Rightarrow>
             (let to = Position_make tf tr;
                  fromFile = (case fromCaptureFile of Some f \<Rightarrow> f | None \<Rightarrow> tf);
                  from0 = Position_make fromFile prevRank;
                  pawnTwoStepRank = (if isWhite' then R4 else R5)
              in if BoardMap_get (pieces board) from0 \<noteq> Some pawn \<and> rank to \<noteq> pawnTwoStepRank
                 then Inr (Inl (MoveError (InvalidPieceMove pawn)))
                 else
                   (let from = (if BoardMap_get (pieces board) from0 \<noteq> Some pawn
                                then Position_make fromFile (if isWhite' then R2 else R7)
                                else from0)
                    in case calculateMove board from to None True of
                         Inl e \<Rightarrow> Inl e
                       | Inr (Inl err) \<Rightarrow> Inr (Inl (MoveError err))
                       | Inr (Inr move) \<Rightarrow>
                           if piece move \<noteq> pawn then
                             Inr (Inl (MoveError (InvalidPieceMove pawn)))
                           else Inr (Inr (move\<lparr>promotion := promotionPiece\<rparr>)))))"

definition tryParseAlgebraicPawnMove :: "string \<Rightarrow> BoardInfo \<Rightarrow> AlgebraicResult option" where
  "tryParseAlgebraicPawnMove algebraic' board =
     (let hasCaptureFile = (charAt algebraic' 1 = Some (CHR ''x''))
      in if hasCaptureFile \<and> \<not> isBoardFile (charAt algebraic' 0) then None
         else
           (let fromCaptureFile = (if hasCaptureFile
                                   then Option.bind (charAt algebraic' 0) asBoardFile else None);
                offset0 = (if hasCaptureFile then 2 else (0::nat));
                toFile = Option.bind (charAt algebraic' offset0) asBoardFile;
                toRank = Option.bind (charAt algebraic' (offset0 + 1)) asBoardRank;
                offset1 = offset0 + 2
            in case (toFile, toRank) of
                 (Some tf, Some tr) \<Rightarrow>
                   (let isWhite' = (turnColor board = WHITE);
                        hasPromotion = (charAt algebraic' offset1 = Some (CHR ''=''))
                    in if hasPromotion
                          \<and> \<not> isAlgebraicPromotionPieceChar (charAt algebraic' (offset1 + 1))
                       then Some (Inr (Inl (InvalidAlgebraicNotation algebraic')))
                       else
                         (let promotionPiece =
                                (if hasPromotion
                                 then Option.bind (charAt algebraic' (offset1 + 1))
                                        (\<lambda>c. promotionPieceOfChar c isWhite')
                                 else None);
                              offset2 = (if hasPromotion then offset1 + 2 else offset1);
                              hasCheckOrMate = isCheckOrMateChar (charAt algebraic' offset2);
                              expectedLength = (if hasCheckOrMate then offset2 + 1 else offset2)
                          in if length algebraic' \<noteq> expectedLength then
                               Some (Inr (Inl (InvalidAlgebraicNotation algebraic')))
                             else
                               Some (resolveAlgebraicPawnMove board fromCaptureFile tf tr
                                       promotionPiece)))
               | _ \<Rightarrow> None))"

definition KING_SIDE_CASTLING_STR :: string where
  "KING_SIDE_CASTLING_STR = ''O-O''"

definition QUEEN_SIDE_CASTLING_STR :: string where
  "QUEEN_SIDE_CASTLING_STR = ''O-O-O''"

definition tryParseAlgebraicCastlingMove :: "string \<Rightarrow> BoardInfo \<Rightarrow> AlgebraicResult option" where
  "tryParseAlgebraicCastlingMove algebraic' board =
     (let isWhite' = (turnColor board = WHITE);
          kingFrom = \<lparr>file = Fe, rank = (if isWhite' then R1 else R8)\<rparr>;
          kingSideTo = \<lparr>file = Fg, rank = (if isWhite' then R1 else R8)\<rparr>;
          queenSideTo = \<lparr>file = Fc, rank = (if isWhite' then R1 else R8)\<rparr>
      in if algebraic' = KING_SIDE_CASTLING_STR then
           Some (liftMoveResult (calculateMove board kingFrom kingSideTo None True))
         else if length algebraic' = length KING_SIDE_CASTLING_STR + 1
                 \<and> take (length KING_SIDE_CASTLING_STR) algebraic' = KING_SIDE_CASTLING_STR then
           (if \<not> isCheckOrMateChar (charAt algebraic' (length KING_SIDE_CASTLING_STR)) then
              Some (Inr (Inl (InvalidAlgebraicNotation algebraic')))
            else Some (liftMoveResult (calculateMove board kingFrom kingSideTo None True)))
         else if algebraic' = QUEEN_SIDE_CASTLING_STR then
           Some (liftMoveResult (calculateMove board kingFrom queenSideTo None True))
         else if length algebraic' = length QUEEN_SIDE_CASTLING_STR + 1
                 \<and> take (length QUEEN_SIDE_CASTLING_STR) algebraic' = QUEEN_SIDE_CASTLING_STR then
           (if \<not> isCheckOrMateChar (charAt algebraic' (length QUEEN_SIDE_CASTLING_STR)) then
              Some (Inr (Inl (InvalidAlgebraicNotation algebraic')))
            else Some (liftMoveResult (calculateMove board kingFrom queenSideTo None True)))
         else None)"

text \<open>The chain of \<open>??\<close>: the first parser whose result is not \<open>null\<close> decides.\<close>

fun firstNonNull :: "(unit \<Rightarrow> 'a option) list \<Rightarrow> 'a option" where
  "firstNonNull [] = None"
| "firstNonNull (f # fs) = (case f () of Some r \<Rightarrow> Some r | None \<Rightarrow> firstNonNull fs)"

definition calculateMoveFromAlgebraic :: "BoardInfo \<Rightarrow> string \<Rightarrow> AlgebraicResult" where
  "calculateMoveFromAlgebraic board algebraic' =
     (if length algebraic' < 2 then Inr (Inl (InvalidAlgebraicNotation algebraic'))
      else
        (case firstNonNull
                [\<lambda>_. tryParseAlgebraicCastlingMove algebraic' board,
                 \<lambda>_. tryParseAlgebraicMoveByChar algebraic' board KNIGHT,
                 \<lambda>_. tryParseAlgebraicMoveByChar algebraic' board BISHOP,
                 \<lambda>_. tryParseAlgebraicMoveByChar algebraic' board ROOK,
                 \<lambda>_. tryParseAlgebraicMoveByChar algebraic' board QUEEN,
                 \<lambda>_. tryParseAlgebraicMoveByChar algebraic' board KING,
                 \<lambda>_. tryParseAlgebraicPawnMove algebraic' board] of
           Some r \<Rightarrow> r
         | None \<Rightarrow> Inr (Inl (InvalidAlgebraicNotation algebraic'))))"

section \<open>PGN parser (pgn.ts)\<close>

record PGNParser =
  pgn :: string
  offset :: nat
  line :: nat
  lineOffset :: nat
  tags :: "(string \<times> string) list"

definition isWhiteSpace :: "char \<Rightarrow> bool" where
  "isWhiteSpace c = (c = CHR '' '' \<or> c = CHR 0x0A \<or> c = CHR 0x0D)"

text \<open>\<open>slice(start, end)\<close> on indices that are not negative, and \<open>trim\<close>.\<close>

definition slice :: "string \<Rightarrow> nat \<Rightarrow> nat \<Rightarrow> string" where
  "slice s start end' = take (end' - start) (drop start s)"

definition trim :: "string \<Rightarrow> string" where
  "trim s = rev (dropWhile isStrWhiteSpace (rev (dropWhile isStrWhiteSpace s)))"

definition peekChar :: "PGNParser \<Rightarrow> char option" where
  "peekChar st = (if offset st \<ge> length (pgn st) then None else Some (pgn st ! offset st))"

definition hasMoreChars :: "PGNParser \<Rightarrow> bool" where
  "hasMoreChars st = (offset st < length (pgn st))"

definition consumeChar :: "PGNParser \<Rightarrow> char option \<times> PGNParser" where
  "consumeChar st =
     (case peekChar st of
        None \<Rightarrow> (None, st)
      | Some c \<Rightarrow>
          (Some c,
           st\<lparr>line := (if c = CHR 0x0A then line st + 1 else line st),
              lineOffset := (if c = CHR 0x0A then 0 else lineOffset st) + 1,
              offset := offset st + 1\<rparr>))"

function skipWhitespace :: "PGNParser \<Rightarrow> PGNParser" where
  "skipWhitespace st =
     (case peekChar st of
        None \<Rightarrow> st
      | Some c \<Rightarrow> if isWhiteSpace c then skipWhitespace (snd (consumeChar st)) else st)"
  by pat_completeness auto
termination
  by (relation "measure (\<lambda>st. length (pgn st) - offset st)")
     (auto simp: consumeChar_def peekChar_def split: if_splits)

declare skipWhitespace.simps [simp del]

function consumeUntilWhiteSpaceLoop :: "PGNParser \<Rightarrow> string \<Rightarrow> string \<times> PGNParser" where
  "consumeUntilWhiteSpaceLoop st str =
     (case peekChar st of
        None \<Rightarrow> (str, st)
      | Some c \<Rightarrow>
          if isWhiteSpace c then (str, st)
          else consumeUntilWhiteSpaceLoop (snd (consumeChar st)) (str @ [c]))"
  by pat_completeness auto
termination
  by (relation "measure (\<lambda>(st, str). length (pgn st) - offset st)")
     (auto simp: consumeChar_def peekChar_def split: if_splits)

declare consumeUntilWhiteSpaceLoop.simps [simp del]

definition consumeUntilWhiteSpace :: "PGNParser \<Rightarrow> string option \<times> PGNParser" where
  "consumeUntilWhiteSpace st =
     (case consumeUntilWhiteSpaceLoop st [] of
        (str, st') \<Rightarrow> (if length str = 0 then None else Some str, st'))"

function skipToChar :: "PGNParser \<Rightarrow> char \<Rightarrow> bool \<times> PGNParser" where
  "skipToChar st target =
     (case peekChar st of
        None \<Rightarrow> (False, snd (consumeChar st))
      | Some c \<Rightarrow>
          if c = target then (True, snd (consumeChar st))
          else skipToChar (snd (consumeChar st)) target)"
  by pat_completeness auto
termination
  by (relation "measure (\<lambda>(st, target). length (pgn st) - offset st)")
     (auto simp: consumeChar_def peekChar_def split: if_splits)

declare skipToChar.simps [simp del]

function parseMoveNumberLoop :: "PGNParser \<Rightarrow> string \<Rightarrow> string option \<times> PGNParser" where
  "parseMoveNumberLoop st numberStr =
     (case peekChar st of
        None \<Rightarrow> (Some numberStr, st)
      | Some c \<Rightarrow>
          if c = CHR ''.'' then (Some numberStr, snd (consumeChar st))
          else if \<not> isNumberChar c then (None, st)
          else parseMoveNumberLoop (snd (consumeChar st)) (numberStr @ [c]))"
  by pat_completeness auto
termination
  by (relation "measure (\<lambda>(st, numberStr). length (pgn st) - offset st)")
     (auto simp: consumeChar_def peekChar_def split: if_splits)

declare parseMoveNumberLoop.simps [simp del]

definition parseMoveNumber :: "PGNParser \<Rightarrow> int option \<times> PGNParser" where
  "parseMoveNumber st =
     (case parseMoveNumberLoop (skipWhitespace st) [] of
        (None, st') \<Rightarrow> (None, st')
      | (Some numberStr, st') \<Rightarrow>
          if length numberStr = 0 then (None, st') else (parseInt numberStr, st'))"

definition maybeParseMoveComment :: "PGNParser \<Rightarrow> string option \<times> PGNParser" where
  "maybeParseMoveComment st =
     (let st1 = skipWhitespace st
      in if peekChar st1 \<noteq> Some (CHR ''{'') then (None, st1)
         else
           (let commentStart = offset st1 + 1
            in case skipToChar st1 (CHR ''}'') of
                 (False, st2) \<Rightarrow> (None, st2)
               | (True, st2) \<Rightarrow>
                   (Some (trim (slice (pgn st2) commentStart (offset st2 - 1))), st2)))"

text \<open>\<open>parsePieceMove\<close> returns \<open>[move]\<close>, \<open>[, moveError]\<close> or \<open>[, null]\<close>; the last
  is \<open>Inr (Inl None)\<close>.\<close>

definition parsePieceMove ::
  "PGNParser \<Rightarrow> BoardInfo \<Rightarrow> (failure + (AlgebraicMoveError option + Move)) \<times> PGNParser" where
  "parsePieceMove st board =
     (case consumeUntilWhiteSpace (skipWhitespace st) of
        (None, st1) \<Rightarrow> (Inr (Inl None), st1)
      | (Some moveStr, st1) \<Rightarrow>
          (case calculateMoveFromAlgebraic board moveStr of
             Inl e \<Rightarrow> (Inl e, st1)
           | Inr (Inl moveError) \<Rightarrow> (Inr (Inl (Some moveError)), st1)
           | Inr (Inr move) \<Rightarrow>
               (case maybeParseMoveComment st1 of
                  (comment', st2) \<Rightarrow> (Inr (Inr (move\<lparr>comment := comment'\<rparr>)), st2))))"

text \<open>One pass of the \<open>while\<close> loop of \<open>parseMetadata\<close>, for a tag that starts at
  \<open>[\<close>, and the loop. The loops of \<open>parseMetadata\<close> and of \<open>parse\<close> are partial
  functions: \<open>None\<close> stands for a loop that does not end.\<close>

definition parseTag :: "PGNParser \<Rightarrow> PGNParser" where
  "parseTag st =
     (let st1 = snd (consumeChar st);
          tagStart = offset st1;
          st2 = snd (skipToChar st1 (CHR 0x22));
          st3 = snd (consumeChar st2);
          tagEnd = offset st3;
          tagName = trim (slice (pgn st3) (tagStart + 1) tagEnd);
          valueStart = offset st3;
          st4 = snd (skipToChar st3 (CHR 0x22));
          valueEnd = offset st4 - 1;
          tagValue = trim (slice (pgn st4) valueStart valueEnd);
          st5 = st4\<lparr>tags := (tagName, tagValue) # tags st4\<rparr>;
          st6 = snd (skipToChar st5 (CHR '']''))
      in skipWhitespace st6)"

partial_function (option) parseMetadataLoop :: "PGNParser \<Rightarrow> PGNParser option" where
  "parseMetadataLoop st =
     (if peekChar st = Some (CHR ''['') then parseMetadataLoop (parseTag st) else Some st)"

declare parseMetadataLoop.simps [code]

definition parseMetadata :: "PGNParser \<Rightarrow> PGNParser option" where
  "parseMetadata st = parseMetadataLoop (skipWhitespace (st\<lparr>tags := []\<rparr>))"

datatype CommentMode = LineComment | MultilineComment

record ParseLoopState =
  parser :: PGNParser
  board :: BoardInfo
  commentMode :: "CommentMode option"
  variationLevel :: nat

datatype LoopStep = Continue ParseLoopState | Break ParseLoopState | Throw failure

text \<open>The part of the loop body that reads a move number, a White move and a Black
  move.\<close>

definition parseMovePair :: "ParseLoopState \<Rightarrow> LoopStep" where
  "parseMovePair s =
     (case parseMoveNumber (parser s) of
        (None, st1) \<Rightarrow> Break (s\<lparr>parser := st1\<rparr>)
      | (Some number, st1) \<Rightarrow>
          (case parsePieceMove st1 (board s) of
             (Inl e, st2) \<Rightarrow> Throw e
           | (Inr (Inl (Some moveError)), st2) \<Rightarrow> Throw PgnFailedWhiteMove
           | (Inr (Inl None), st2) \<Rightarrow> Throw PgnFailedMove
           | (Inr (Inr move), st2) \<Rightarrow>
               (case applyMove (board s) move of
                  Inl e \<Rightarrow> Throw e
                | Inr board1 \<Rightarrow>
                    (case parsePieceMove st2 board1 of
                       (Inl e, st3) \<Rightarrow> Throw e
                     | (Inr (Inl (Some moveError)), st3) \<Rightarrow> Throw PgnFailedBlackMove
                     | (Inr (Inl None), st3) \<Rightarrow>
                         (let st4 = skipWhitespace st3
                          in if hasMoreChars st4 then Throw PgnExpectedBlackMove
                             else Break (s\<lparr>parser := st4, board := board1\<rparr>))
                     | (Inr (Inr move2), st3) \<Rightarrow>
                         (case applyMove board1 move2 of
                            Inl e \<Rightarrow> Throw e
                          | Inr board2 \<Rightarrow> Continue (s\<lparr>parser := st3, board := board2\<rparr>))))))"

text \<open>The body of the \<open>while\<close> loop of \<open>parse\<close>, entered when \<open>hasMoreChars()\<close>
  holds, with \<open>char = pgn[offset]\<close>.\<close>

definition parseStep :: "ParseLoopState \<Rightarrow> char \<Rightarrow> LoopStep" where
  "parseStep s char =
     (let consumed = snd (consumeChar (parser s))
      in if commentMode s \<noteq> None then
           Continue (s\<lparr>parser := consumed,
                       commentMode :=
                         (if (char = CHR 0x0A \<and> commentMode s = Some LineComment)
                             \<or> (char = CHR ''}'' \<and> commentMode s = Some MultilineComment)
                          then None else commentMode s)\<rparr>)
         else if char = CHR ''('' then
           Continue (s\<lparr>parser := consumed, variationLevel := variationLevel s + 1\<rparr>)
         else if variationLevel s > 0 \<and> char = CHR '')'' then
           Continue (s\<lparr>parser := consumed, variationLevel := variationLevel s - 1\<rparr>)
         else if char = CHR ''{'' then
           Continue (s\<lparr>parser := consumed, commentMode := Some MultilineComment\<rparr>)
         else if char = CHR '';'' then
           Continue (s\<lparr>parser := consumed, commentMode := Some LineComment\<rparr>)
         else if char = CHR '')'' then Throw PgnUnmatchedClosingParenthesis
         else if char = CHR ''}'' then Throw PgnUnmatchedClosingBracket
         else if char = CHR ''.'' \<or> char = CHR '' '' \<or> char = CHR 0x0A \<or> char = CHR 0x0D then
           Continue (s\<lparr>parser := consumed\<rparr>)
         else parseMovePair s)"

definition parseFinish :: "ParseLoopState \<Rightarrow> failure + Move list" where
  "parseFinish s =
     (if variationLevel s > 0 then Inl PgnUnmatchedOpeningParenthesis
      else if commentMode s = Some MultilineComment then Inl PgnUnmatchedOpeningBracket
      else Inr (moves (board s)))"

partial_function (option) parseLoop :: "ParseLoopState \<Rightarrow> (failure + Move list) option" where
  "parseLoop s =
     (case peekChar (parser s) of
        None \<Rightarrow> Some (parseFinish s)
      | Some char \<Rightarrow>
          (case parseStep s char of
             Continue s' \<Rightarrow> parseLoop s'
           | Break s' \<Rightarrow> Some (parseFinish s')
           | Throw e \<Rightarrow> Some (Inl e)))"

declare parseLoop.simps [code]

definition parse :: "string \<Rightarrow> (failure + Move list) option" where
  "parse pgn' =
     (case parseMetadata \<lparr>pgn = pgn', offset = 0, line = 1, lineOffset = 0, tags = []\<rparr> of
        None \<Rightarrow> None
      | Some st \<Rightarrow>
          (let fen = (case map_of (tags st) ''FEN'' of Some v \<Rightarrow> v | None \<Rightarrow> INITIAL_FEN)
           in case parseFen fen of
                Inl e \<Rightarrow> Some (Inl e)
              | Inr board0 \<Rightarrow>
                  parseLoop \<lparr>parser = st, board = board0, commentMode = None,
                             variationLevel = 0\<rparr>))"

definition parsePGNMoves :: "string \<Rightarrow> (failure + Move list) option" where
  "parsePGNMoves pgn' = parse pgn'"

section \<open>Notions used to state the properties\<close>

definition isKnight :: "PieceId \<Rightarrow> bool" where
  "isKnight val = (val = BLACK_KNIGHT \<or> val = WHITE_KNIGHT)"

text \<open>The number of destination squares that the legal-destination mapping lists for the
  origin squares holding a piece that satisfies \<open>P\<close>.\<close>

definition destinationCount :: "BoardInfo \<Rightarrow> (PieceId \<Rightarrow> bool) \<Rightarrow> nat" where
  "destinationCount b P =
     length (concat (map snd
       (filter (\<lambda>e. case BoardMap_get (pieces b) (fst e) of Some p \<Rightarrow> P p | None \<Rightarrow> False)
          (allowedMoves b))))"

text \<open>The destinations that the legal-destination mapping lists for an origin square.\<close>

definition allowedFrom :: "BoardInfo \<Rightarrow> Position \<Rightarrow> Position list" where
  "allowedFrom b from = (case BoardMap_get (allowedMoves b) from of None \<Rightarrow> [] | Some ms \<Rightarrow> ms)"

text \<open>\<open>reachable p q\<close>: \<open>q\<close> is \<open>p\<close> or follows from it by a sequence of \<open>applyMove\<close>
  calls that return.\<close>

inductive reachable :: "BoardInfo \<Rightarrow> BoardInfo \<Rightarrow> bool" for p :: BoardInfo where
  reachable_refl: "reachable p p"
| reachable_step: "reachable p q \<Longrightarrow> applyMove q m = Inr q' \<Longrightarrow> reachable p q'"

text \<open>Squares by name.\<close>

abbreviation sq :: "BoardFile \<Rightarrow> BoardRank \<Rightarrow> Position" where
  "sq f r \<equiv> \<lparr>file = f, rank = r\<rparr>"

text \<open>
  Notions for the proofs about rays and lines: the square with given indices (used on the
  board only), the indices on the board, the directions of a ray, and the number of steps
  that a ray can take at most.
\<close>

definition squareAt :: "int \<Rightarrow> int \<Rightarrow> Position" where
  "squareAt i j =
     \<lparr>file = (case BOARD_FILES_at i of Some f \<Rightarrow> f | None \<Rightarrow> Fa),
      rank = (case BOARD_RANKS_at j of Some r \<Rightarrow> r | None \<Rightarrow> R1)\<rparr>"

definition onBoard :: "int \<Rightarrow> int \<Rightarrow> bool" where
  "onBoard i j = (0 \<le> i \<and> i < 8 \<and> 0 \<le> j \<and> j < 8)"

definition rayMeasure :: "int \<Rightarrow> int \<Rightarrow> int \<Rightarrow> int \<Rightarrow> nat" where
  "rayMeasure a b df dr =
     nat (if df = 1 then 8 - a else if df = - 1 then a + 1
          else if dr = 1 then 8 - b else b + 1)"

definition rayDirection :: "int \<times> int \<Rightarrow> bool" where
  "rayDirection d = (fst d \<in> {- 1, 0, 1} \<and> snd d \<in> {- 1, 0, 1} \<and> (fst d \<noteq> 0 \<or> snd d \<noteq> 0))"

text \<open>The letter of a piece that is not a pawn.\<close>

fun pieceLetter :: "PieceId \<Rightarrow> AlgebraicPieceChar option" where
  "pieceLetter WHITE_KNIGHT = Some KNIGHT" | "pieceLetter BLACK_KNIGHT = Some KNIGHT"
| "pieceLetter WHITE_BISHOP = Some BISHOP" | "pieceLetter BLACK_BISHOP = Some BISHOP"
| "pieceLetter WHITE_ROOK = Some ROOK" | "pieceLetter BLACK_ROOK = Some ROOK"
| "pieceLetter WHITE_QUEEN = Some QUEEN" | "pieceLetter BLACK_QUEEN = Some QUEEN"
| "pieceLetter WHITE_KING = Some KING" | "pieceLetter BLACK_KING = Some KING"
| "pieceLetter WHITE_PAWN = None" | "pieceLetter BLACK_PAWN = None"

text \<open>The promotion that \<open>calculateMove\<close> writes into a move: the queen of the pawn's
  colour when a pawn reaches the last rank, replaced by the promotion choice if there is
  one.\<close>

definition autoPromotion :: "PieceId \<Rightarrow> Position \<Rightarrow> PieceId option" where
  "autoPromotion pc to =
     (if pc = BLACK_PAWN \<and> rank to = R1 then Some BLACK_QUEEN
      else if pc = WHITE_PAWN \<and> rank to = R8 then Some WHITE_QUEEN
      else None)"

definition promotionOf :: "PieceId \<Rightarrow> Position \<Rightarrow> PieceId option \<Rightarrow> PieceId option" where
  "promotionOf pc to pp =
     (case autoPromotion pc to of
        None \<Rightarrow> None
      | Some q \<Rightarrow> (case pp of None \<Rightarrow> Some q | Some c \<Rightarrow> Some c))"

text \<open>A promotion choice of the colour that is to move.\<close>

definition isPromotionPieceFor :: "PlayerColor \<Rightarrow> PieceId \<Rightarrow> bool" where
  "isPromotionPieceFor c q =
     (if c = WHITE then q \<in> {WHITE_QUEEN, WHITE_ROOK, WHITE_BISHOP, WHITE_KNIGHT}
      else q \<in> {BLACK_QUEEN, BLACK_ROOK, BLACK_BISHOP, BLACK_KNIGHT})"

definition promotionSuffix :: "PieceId option \<Rightarrow> string" where
  "promotionSuffix promo =
     (case promo of Some q \<Rightarrow> CHR ''='' # [pieceChar (pieceToUpperCase q)] | None \<Rightarrow> [])"

text \<open>Equality of two moves in origin, destination, piece, capture flag, castling side
  and promotion.\<close>

definition sameMove :: "Move \<Rightarrow> Move \<Rightarrow> bool" where
  "sameMove a b =
     (from_pos a = from_pos b \<and> to_pos a = to_pos b \<and> piece a = piece b
      \<and> isCapture a = isCapture b \<and> castling a = castling b \<and> promotion a = promotion b)"

text \<open>The origin squares that the decoder finds for the piece and destination of a move,
  when the text carries no origin file or rank (none for a pawn).\<close>

definition candidateOrigins :: "BoardInfo \<Rightarrow> Move \<Rightarrow> Position list option" where
  "candidateOrigins p m =
     (case pieceLetter (piece m) of
        None \<Rightarrow> Some []
      | Some X \<Rightarrow> getPossibleMovePositionsByAlgebraic (to_pos m) p X None None)"

text \<open>Example positions and texts, used to instantiate the theorems.\<close>

definition rookEndgameFen :: string where
  "rookEndgameFen = ''4k3/8/8/8/8/8/4P3/4K2R w K - 0 1''"

definition shortRankFen :: string where
  "shortRankFen = ''8/8/8/8/8/8/8/7 w - - 0 1''"

definition twoKnightsFen :: string where
  "twoKnightsFen = ''4k3/8/8/8/8/5N2/8/1N2K3 w - - 0 1''"

definition knightMove :: Move where
  "knightMove = \<lparr>from_pos = sq Fb R1, to_pos = sq Fd R2, algebraic = ''Nd2'',
     piece = WHITE_KNIGHT, turn = WHITE, isCapture = False, castling = None,
     isEnPassantCapture = False, promotion = None, comment = None\<rparr>"

definition variationPgn :: string where
  "variationPgn = ''1. e4 e5 ( 1. d4 d5 )''"

definition variationDeletedPgn :: string where
  "variationDeletedPgn = ''1. e4 e5 ''"


definition pinnedPawnBoard :: BoardInfo where
  "pinnedPawnBoard =
     \<lparr>pieces = [(sq Fe R8, BLACK_KING), (sq Fa R5, BLACK_BISHOP),
                 (sq Fd R2, WHITE_PAWN), (sq Fe R1, WHITE_KING)],
      turnColor = WHITE,
      canCastle = \<lparr>whiteKingSide = False, whiteQueenSide = False,
                     blackKingSide = False, blackQueenSide = False\<rparr>,
      enPassantTarget = None, halfMoveClock = 0, fullMoveNumber = 1,
      allowedMoves = [(sq Fe R1, [sq Fd R1, sq Fe R2, sq Ff R1, sq Ff R2])],
      moves = []\<rparr>"


definition attackedKingFen :: string where
  "attackedKingFen = ''4r2k/8/8/8/8/8/8/4K2R w K - 0 1''"

definition attackedKingBoard :: BoardInfo where
  "attackedKingBoard =
     \<lparr>pieces = [(sq Fe R8, BLACK_ROOK), (sq Fh R8, BLACK_KING),
                 (sq Fe R1, WHITE_KING), (sq Fh R1, WHITE_ROOK)],
      turnColor = WHITE,
      canCastle = \<lparr>whiteKingSide = True, whiteQueenSide = False,
                     blackKingSide = False, blackQueenSide = False\<rparr>,
      enPassantTarget = None, halfMoveClock = 0, fullMoveNumber = 1,
      allowedMoves = [(sq Fe R1, [sq Fd R1, sq Fd R2, sq Ff R1, sq Ff R2, sq Fg R1])],
      moves = []\<rparr>"

definition castleOutOfCheck :: Move where
  "castleOutOfCheck =
     \<lparr>from_pos = sq Fe R1, to_pos = sq Fg R1, algebraic = ''O-O'', piece = WHITE_KING,
      turn = WHITE, isCapture = False, castling = Some KingSide, isEnPassantCapture = False,
      promotion = None, comment = None\<rparr>"

definition ownKnightFen :: string where
  "ownKnightFen = ''4k3/8/8/8/8/8/8/4K1NR w K - 0 1''"

definition ownKnightBoard :: BoardInfo where
  "ownKnightBoard =
     \<lparr>pieces = [(sq Fe R8, BLACK_KING), (sq Fe R1, WHITE_KING),
                 (sq Fg R1, WHITE_KNIGHT), (sq Fh R1, WHITE_ROOK)],
      turnColor = WHITE,
      canCastle = \<lparr>whiteKingSide = True, whiteQueenSide = False,
                     blackKingSide = False, blackQueenSide = False\<rparr>,
      enPassantTarget = None, halfMoveClock = 0, fullMoveNumber = 1,
      allowedMoves =
        [(sq Fe R1, [sq Fd R1, sq Fd R2, sq Fe R2, sq Ff R1, sq Ff R2]),
         (sq Fg R1, [sq Fe R2, sq Ff R3, sq Fh R3]),
         (sq Fh R1, [sq Fh R2, sq Fh R3, sq Fh R4, sq Fh R5, sq Fh R6, sq Fh R7, sq Fh R8])],
      moves = []\<rparr>"

definition kingStep :: Move where
  "kingStep =
     \<lparr>from_pos = sq Fe R1, to_pos = sq Ff R1, algebraic = ''Kf1'', piece = WHITE_KING,
      turn = WHITE, isCapture = False, castling = None, isEnPassantCapture = False,
      promotion = None, comment = None\<rparr>"

definition bishopOnF1Board :: BoardInfo where
  "bishopOnF1Board =
     \<lparr>pieces = [(sq Fe R8, BLACK_KING), (sq Fe R1, WHITE_KING),
                 (sq Ff R1, WHITE_BISHOP), (sq Fh R1, WHITE_ROOK)],
      turnColor = WHITE,
      canCastle = \<lparr>whiteKingSide = True, whiteQueenSide = False,
                     blackKingSide = False, blackQueenSide = False\<rparr>,
      enPassantTarget = None, halfMoveClock = 0, fullMoveNumber = 1,
      allowedMoves = [],
      moves = []\<rparr>"


definition twoKnightsBoard :: BoardInfo where
  "twoKnightsBoard =
     \<lparr>pieces = [(sq Fe R8, BLACK_KING), (sq Ff R3, WHITE_KNIGHT),
                 (sq Fb R1, WHITE_KNIGHT), (sq Fe R1, WHITE_KING)],
      turnColor = WHITE,
      canCastle = \<lparr>whiteKingSide = False, whiteQueenSide = False,
                     blackKingSide = False, blackQueenSide = False\<rparr>,
      enPassantTarget = None, halfMoveClock = 0, fullMoveNumber = 1,
      allowedMoves =
        [(sq Ff R3, [sq Fd R2, sq Fd R4, sq Fe R5, sq Fg R1, sq Fg R5, sq Fh R2, sq Fh R4]),
         (sq Fb R1, [sq Fa R3, sq Fc R3, sq Fd R2]),
         (sq Fe R1, [sq Fd R1, sq Fd R2, sq Fe R2, sq Ff R1, sq Ff R2])],
      moves = []\<rparr>"

definition blackKnightFen :: string where
  "blackKnightFen = ''4k1n1/8/8/8/8/8/8/4K3 b - - 0 1''"

definition blackKnightBoard :: BoardInfo where
  "blackKnightBoard =
     \<lparr>pieces = [(sq Fe R8, BLACK_KING), (sq Fg R8, BLACK_KNIGHT), (sq Fe R1, WHITE_KING)],
      turnColor = BLACK,
      canCastle = \<lparr>whiteKingSide = False, whiteQueenSide = False,
                     blackKingSide = False, blackQueenSide = False\<rparr>,
      enPassantTarget = None, halfMoveClock = 0, fullMoveNumber = 1,
      allowedMoves =
        [(sq Fe R8, [sq Fd R7, sq Fd R8, sq Fe R7, sq Ff R7, sq Ff R8]),
         (sq Fg R8, [sq Fe R7, sq Ff R6, sq Fh R6])],
      moves = []\<rparr>"

definition blackKnightMove :: Move where
  "blackKnightMove =
     \<lparr>from_pos = sq Fg R8, to_pos = sq Ff R6, algebraic = ''nf6'', piece = BLACK_KNIGHT,
      turn = BLACK, isCapture = False, castling = None, isEnPassantCapture = False,
      promotion = None, comment = None\<rparr>"

text \<open>
  Notions for the legality filter. \<open>boardAfter b mv\<close> is the board that
  \<open>fillAllowedMoves\<close> examines for a move (its \<open>tempBoard\<close>): the piece is taken from
  its origin, a pawn captured en passant is removed, and the piece (or the promotion) is
  put on the destination; the rook of a castle is not moved. An opposing piece
  \<open>reaches\<close> a square when \<open>calculateMove\<close>, with the filter ignored and the turn given
  to that piece's colour, returns a move onto the square. \<open>attackers\<close> lists the pieces
  that are not of colour \<open>col\<close> and reach the square, and \<open>kingSafe\<close> says that the first
  king of colour \<open>col\<close> found on the board has no attacker (it is false when there is no
  such king, as in the filter).
\<close>

definition kingOf :: "PlayerColor \<Rightarrow> PieceId" where
  "kingOf col = (if col = WHITE then WHITE_KING else BLACK_KING)"

definition boardAfter :: "BoardInfo \<Rightarrow> Move \<Rightarrow> BoardInfo" where
  "boardAfter b mv =
     (let p0 = BoardMap_delete (pieces b) (from_pos mv);
          p1 = (if isEnPassantCapture mv
                then BoardMap_delete p0 \<lparr>file = file (to_pos mv), rank = rank (from_pos mv)\<rparr>
                else p0);
          p2 = BoardMap_set p1 (to_pos mv)
                 (case promotion mv of Some q \<Rightarrow> q | None \<Rightarrow> piece mv)
      in b\<lparr>pieces := p2, allowedMoves := []\<rparr>)"

definition reaches :: "BoardInfo \<Rightarrow> Position \<times> PieceId \<Rightarrow> Position \<Rightarrow> bool" where
  "reaches b e target =
     (case calculateMove (b\<lparr>turnColor := getColor (snd e)\<rparr>) (fst e) target None True of
        Inr (Inr m) \<Rightarrow> True
      | _ \<Rightarrow> False)"

definition attackers :: "BoardInfo \<Rightarrow> PlayerColor \<Rightarrow> Position \<Rightarrow> (Position \<times> PieceId) list" where
  "attackers b col target =
     filter (\<lambda>e. getColor (snd e) \<noteq> col \<and> reaches b e target) (pieces b)"

definition kingSafe :: "BoardInfo \<Rightarrow> PlayerColor \<Rightarrow> bool" where
  "kingSafe b col =
     (case findPositionFor (pieces b) (kingOf col) of
        None \<Rightarrow> False
      | Some kingPos \<Rightarrow> attackers b col kingPos = [])"

text \<open>A board whose legal-destination mapping is the one that \<open>fillAllowedMoves\<close>
  computes for it, and whose piece map has one entry per square (as a JavaScript \<open>Map\<close>
  has).\<close>

definition legalListComputed :: "BoardInfo \<Rightarrow> bool" where
  "legalListComputed b \<longleftrightarrow>
     distinct (map fst (pieces b)) \<and> fillAllowedMoves (b\<lparr>allowedMoves := []\<rparr>) = Inr b"

text \<open>The move that \<open>calculateMove\<close> builds for the White king-side castle.\<close>

definition whiteShortCastle :: Move where
  "whiteShortCastle =
     \<lparr>from_pos = sq Fe R1, to_pos = sq Fg R1, algebraic = ''O-O'', piece = WHITE_KING,
      turn = WHITE, isCapture = False, castling = Some KingSide, isEnPassantCapture = False,
      promotion = None, comment = None\<rparr>"


text \<open>The entry that the loop of \<open>fillAllowedMoves\<close> leaves for an origin square, given
  the piece on the square and the entry before the loop.\<close>

definition filledEntry ::
  "BoardInfo \<Rightarrow> Position \<Rightarrow> PieceId option \<Rightarrow> Position list option \<Rightarrow> Position list option" where
  "filledEntry b from pco old =
       (case pco of
          None \<Rightarrow> old
        | Some pc \<Rightarrow>
            (if getColor pc \<noteq> turnColor b then old
             else (case possibleMovesLoop b from pc allSquares of
                     Inl e \<Rightarrow> None
                   | Inr pm \<Rightarrow> if pm = [] then old else Some pm)))"

text \<open>Further example positions.\<close>

definition rookOnG8Fen :: string where
  "rookOnG8Fen = ''6rk/8/8/8/8/8/8/4K2R w K - 0 1''"

definition rookOnG8Board :: BoardInfo where
  "rookOnG8Board =
     \<lparr>pieces = [(sq Fg R8, BLACK_ROOK), (sq Fh R8, BLACK_KING),
                 (sq Fe R1, WHITE_KING), (sq Fh R1, WHITE_ROOK)],
      turnColor = WHITE,
      canCastle = \<lparr>whiteKingSide = True, whiteQueenSide = False,
                     blackKingSide = False, blackQueenSide = False\<rparr>,
      enPassantTarget = None, halfMoveClock = 0, fullMoveNumber = 1,
      allowedMoves =
        [(sq Fe R1, [sq Fd R1, sq Fd R2, sq Fe R2, sq Ff R1, sq Ff R2]),
         (sq Fh R1, [sq Ff R1, sq Fg R1, sq Fh R2, sq Fh R3, sq Fh R4, sq Fh R5,
                     sq Fh R6, sq Fh R7, sq Fh R8])],
      moves = []\<rparr>"

definition pinnedKnightFen :: string where
  "pinnedKnightFen = ''4k3/8/8/b7/8/8/3N4/4K3 w - - 0 1''"

definition pinnedKnightBoard :: BoardInfo where
  "pinnedKnightBoard =
     \<lparr>pieces = [(sq Fe R8, BLACK_KING), (sq Fa R5, BLACK_BISHOP),
                 (sq Fd R2, WHITE_KNIGHT), (sq Fe R1, WHITE_KING)],
      turnColor = WHITE,
      canCastle = \<lparr>whiteKingSide = False, whiteQueenSide = False,
                     blackKingSide = False, blackQueenSide = False\<rparr>,
      enPassantTarget = None, halfMoveClock = 0, fullMoveNumber = 1,
      allowedMoves = [(sq Fe R1, [sq Fd R1, sq Fe R2, sq Ff R1, sq Ff R2])],
      moves = []\<rparr>"

definition pinnedKnightMove :: Move where
  "pinnedKnightMove =
     \<lparr>from_pos = sq Fd R2, to_pos = sq Ff R3, algebraic = ''Nf3'', piece = WHITE_KNIGHT,
      turn = WHITE, isCapture = False, castling = None, isEnPassantCapture = False,
      promotion = None, comment = None\<rparr>"


section \<open>Properties\<close>

subsection \<open>C9: the legal moves of the starting position\<close>

lemma initial_position_counts:
  "(case parseFen INITIAL_FEN of
      Inl e \<Rightarrow> False
    | Inr b \<Rightarrow> turnColor b = WHITE \<and> destinationCount b (\<lambda>p. True) = 20
               \<and> destinationCount b isPawn = 16 \<and> destinationCount b isKnight = 4)"
  by code_simp

text \<open>
  C9. In the position produced by \<open>parseFen INITIAL_FEN\<close>, White is to move and the
  legal-destination mapping computed by \<open>fillAllowedMoves\<close> holds exactly 20 destination
  squares: 16 for pawns and 4 for knights.
\<close>

theorem C9_initial_position_has_20_legal_moves:
  "\<exists>b. parseFen INITIAL_FEN = Inr b \<and> turnColor b = WHITE
       \<and> destinationCount b (\<lambda>p. True) = 20
       \<and> destinationCount b isPawn = 16 \<and> destinationCount b isKnight = 4"
  using initial_position_counts by (cases "parseFen INITIAL_FEN") auto

subsection \<open>Facts about \<open>calculateMove\<close>, \<open>fillAllowedMoves\<close> and \<open>applyMove\<close>\<close>

lemma fillAllowedMoves_fields:
  assumes "fillAllowedMoves b = Inr b'"
  shows "pieces b' = pieces b" "turnColor b' = turnColor b" "canCastle b' = canCastle b"
    "enPassantTarget b' = enPassantTarget b" "halfMoveClock b' = halfMoveClock b"
    "fullMoveNumber b' = fullMoveNumber b" "moves b' = moves b"
  using assms by (auto simp: fillAllowedMoves_def split: if_splits sum.splits)

lemma calculateMove_InrD:
  assumes "calculateMove p from to pp ign = Inr (Inr m)"
  shows "\<exists>pc c e. BoardMap_get (pieces p) from = Some pc \<and> getColor pc = turnColor p
           \<and> validateByPiece p from to pc = Some (True, c, e)
           \<and> from_pos m = from \<and> to_pos m = to \<and> piece m = pc \<and> turn m = turnColor p
           \<and> castling m = c \<and> isEnPassantCapture m = e
           \<and> isCapture m = (BoardMap_get (pieces p) to \<noteq> None \<or> e)
           \<and> comment m = None
           \<and> (ign \<or> List.member (allowedFrom p from) to)
           \<and> (\<forall>t. BoardMap_get (pieces p) to = Some t \<longrightarrow> getColor t \<noteq> turnColor p)"
proof (cases "BoardMap_get (pieces p) from")
  case None
  with assms show ?thesis by (simp add: calculateMove_def)
next
  case (Some pc)
  note pc = Some
  have col: "getColor pc = turnColor p"
  proof (rule ccontr)
    assume "getColor pc \<noteq> turnColor p"
    with assms pc show False by (simp add: calculateMove_def Let_def)
  qed
  have own: "\<not> (case BoardMap_get (pieces p) to of None \<Rightarrow> False
                 | Some t \<Rightarrow> turnColor p = getColor t)"
  proof
    assume "case BoardMap_get (pieces p) to of None \<Rightarrow> False
            | Some t \<Rightarrow> turnColor p = getColor t"
    with assms pc col show False by (simp add: calculateMove_def Let_def)
  qed
  have allowed: "\<not> (\<not> ign \<and> \<not> (case BoardMap_get (allowedMoves p) from of
                                   None \<Rightarrow> False | Some ms \<Rightarrow> List.member ms to))"
  proof
    assume "\<not> ign \<and> \<not> (case BoardMap_get (allowedMoves p) from of
                          None \<Rightarrow> False | Some ms \<Rightarrow> List.member ms to)"
    with assms pc col own show False by (simp add: calculateMove_def Let_def)
  qed
  from assms pc col own allowed obtain isValid c e where
    v: "validateByPiece p from to pc = Some (isValid, c, e)"
    by (cases "validateByPiece p from to pc") (auto simp: calculateMove_def Let_def)
  have valid: "isValid"
  proof (rule ccontr)
    assume "\<not> isValid"
    with assms pc col own allowed v show False by (simp add: calculateMove_def Let_def)
  qed
  from assms pc col own allowed v valid
  have "from_pos m = from \<and> to_pos m = to \<and> piece m = pc \<and> turn m = turnColor p
           \<and> castling m = c \<and> isEnPassantCapture m = e
           \<and> isCapture m = (BoardMap_get (pieces p) to \<noteq> None \<or> e) \<and> comment m = None"
    by (auto simp: calculateMove_def Let_def)
  moreover from allowed have "ign \<or> List.member (allowedFrom p from) to"
    by (auto simp: allowedFrom_def split: option.splits)
  moreover from own have "\<forall>t. BoardMap_get (pieces p) to = Some t \<longrightarrow> getColor t \<noteq> turnColor p"
    by (auto split: option.splits)
  ultimately show ?thesis using pc col v valid by simp
qed

lemma getColor_WHITE_iff: "getColor pc = WHITE \<longleftrightarrow> isWhite pc"
  by (cases pc) (simp_all add: getColor_def)

lemma validateByPiece_castling:
  assumes "validateByPiece p from to pc = Some (v, Some side, e)"
  shows "pc = WHITE_KING \<or> pc = BLACK_KING"
  using assms by (cases pc) (auto simp: validateByPiece_def split: if_splits option.splits prod.splits)

lemma validateByPiece_pawn:
  assumes "isPawn pc" "validateByPiece p from to pc = Some (True, c, e)"
  shows "c = None \<and> isValidPawnMove from to pc (pieces p) (enPassantTarget p) = Some True"
  using assms by (auto simp: validateByPiece_def isPawn_def split: option.splits)





lemma applyCastlingMove_rights:
  "(whiteKingSide (canCastle (applyCastlingMove b m)) \<longrightarrow> whiteKingSide (canCastle b))
   \<and> (whiteQueenSide (canCastle (applyCastlingMove b m)) \<longrightarrow> whiteQueenSide (canCastle b))
   \<and> (blackKingSide (canCastle (applyCastlingMove b m)) \<longrightarrow> blackKingSide (canCastle b))
   \<and> (blackQueenSide (canCastle (applyCastlingMove b m)) \<longrightarrow> blackQueenSide (canCastle b))"
  by (simp add: applyCastlingMove_def Let_def)

lemma updateCastlingRights_mono:
  "(whiteKingSide (updateCastlingRights c m) \<longrightarrow> whiteKingSide c)
   \<and> (whiteQueenSide (updateCastlingRights c m) \<longrightarrow> whiteQueenSide c)
   \<and> (blackKingSide (updateCastlingRights c m) \<longrightarrow> blackKingSide c)
   \<and> (blackQueenSide (updateCastlingRights c m) \<longrightarrow> blackQueenSide c)"
  by (simp add: updateCastlingRights_def Let_def)

lemma applyMove_canCastle:
  assumes "applyMove p m = Inr p'"
  shows "canCastle p' =
           (if castling m \<noteq> None
            then canCastle (applyCastlingMove (p\<lparr>canCastle := canCastle p\<rparr>) m)
            else updateCastlingRights (canCastle p) m)"
  using assms
  by (auto simp: applyMove_def Let_def applyCastlingMove_def
           dest!: fillAllowedMoves_fields(3) split: if_splits)

lemma applyMove_rights_mono:
  assumes "applyMove p m = Inr p'"
  shows "(whiteKingSide (canCastle p') \<longrightarrow> whiteKingSide (canCastle p))
   \<and> (whiteQueenSide (canCastle p') \<longrightarrow> whiteQueenSide (canCastle p))
   \<and> (blackKingSide (canCastle p') \<longrightarrow> blackKingSide (canCastle p))
   \<and> (blackQueenSide (canCastle p') \<longrightarrow> blackQueenSide (canCastle p))"
  using applyMove_canCastle [OF assms] applyCastlingMove_rights [of "p\<lparr>canCastle := canCastle p\<rparr>" m]
    updateCastlingRights_mono [of "canCastle p" m]
  by (auto split: if_splits)

lemma reachable_rights_mono:
  assumes "reachable p q"
  shows "(whiteKingSide (canCastle q) \<longrightarrow> whiteKingSide (canCastle p))
   \<and> (whiteQueenSide (canCastle q) \<longrightarrow> whiteQueenSide (canCastle p))
   \<and> (blackKingSide (canCastle q) \<longrightarrow> blackKingSide (canCastle p))
   \<and> (blackQueenSide (canCastle q) \<longrightarrow> blackQueenSide (canCastle p))"
  using assms
proof (induction rule: reachable.induct)
  case reachable_refl
  show ?case by simp
next
  case (reachable_step q m q')
  with applyMove_rights_mono [OF reachable_step.hyps(2)] show ?case by blast
qed


lemma applyMove_king_or_rook_clears:
  assumes "calculateMove p from to pp ign = Inr (Inr m)" and "applyMove p m = Inr p'"
  shows "(piece m = WHITE_KING \<longrightarrow>
            \<not> whiteKingSide (canCastle p') \<and> \<not> whiteQueenSide (canCastle p'))
       \<and> (piece m = BLACK_KING \<longrightarrow>
            \<not> blackKingSide (canCastle p') \<and> \<not> blackQueenSide (canCastle p'))
       \<and> (piece m = WHITE_ROOK \<and> from = sq Fh R1 \<longrightarrow> \<not> whiteKingSide (canCastle p'))
       \<and> (piece m = WHITE_ROOK \<and> from = sq Fa R1 \<longrightarrow> \<not> whiteQueenSide (canCastle p'))
       \<and> (piece m = BLACK_ROOK \<and> from = sq Fh R8 \<longrightarrow> \<not> blackKingSide (canCastle p'))
       \<and> (piece m = BLACK_ROOK \<and> from = sq Fa R8 \<longrightarrow> \<not> blackQueenSide (canCastle p'))
       \<and> (castling m \<noteq> None \<longrightarrow>
            (turnColor p = WHITE \<longrightarrow>
               \<not> whiteKingSide (canCastle p') \<and> \<not> whiteQueenSide (canCastle p'))
            \<and> (turnColor p = BLACK \<longrightarrow>
               \<not> blackKingSide (canCastle p') \<and> \<not> blackQueenSide (canCastle p')))"
proof -
  from calculateMove_InrD [OF assms(1)] obtain pc c e where
    pc: "getColor pc = turnColor p"
    and v: "validateByPiece p from to pc = Some (True, c, e)"
    and m: "from_pos m = from" "piece m = pc" "castling m = c" "turn m = turnColor p"
    by blast
  have king: "c \<noteq> None \<Longrightarrow> pc = WHITE_KING \<or> pc = BLACK_KING"
    using validateByPiece_castling v by (cases c) auto
  have col: "pc = WHITE_KING \<Longrightarrow> turnColor p = WHITE" "pc = BLACK_KING \<Longrightarrow> turnColor p = BLACK"
    using pc by (auto simp: getColor_def)
  note cc = applyMove_canCastle [OF assms(2)]
  show ?thesis
  proof (cases "c = None")
    case True
    with cc m have "canCastle p' = updateCastlingRights (canCastle p) m" by simp
    with m True show ?thesis by (auto simp: updateCastlingRights_def Let_def)
  next
    case False
    with cc m have "canCastle p' = canCastle (applyCastlingMove (p\<lparr>canCastle := canCastle p\<rparr>) m)"
      by simp
    moreover from False obtain side where "c = Some side" by auto
    moreover have "side = KingSide \<or> side = QueenSide" by (cases side) auto
    ultimately show ?thesis using m king [OF False] col
      by (auto simp: applyCastlingMove_def Let_def)
  qed
qed

text \<open>
  C7. Castling rights never come back. For a move \<open>m\<close> that \<open>calculateMove\<close> returned for
  \<open>p\<close>, with \<open>p' = applyMove p m\<close> and \<open>q\<close> any position reached from \<open>p'\<close> by further
  \<open>applyMove\<close> calls (\<open>q = p'\<close> included): each of the four rights that is false in
  \<open>p\<close> is false in \<open>q\<close>; after a king move both rights of that colour are false in
  \<open>q\<close>; after a rook move from a1, h1, a8 or h8 the right of that wing is false in
  \<open>q\<close>; after a castle both rights of the side that moved are false in \<open>q\<close>.
\<close>

theorem C7_castling_rights_never_return:
  assumes "calculateMove p from to pp ign = Inr (Inr m)" and "applyMove p m = Inr p'"
    and "reachable p' q"
  shows "(\<not> whiteKingSide (canCastle p) \<longrightarrow> \<not> whiteKingSide (canCastle q))
       \<and> (\<not> whiteQueenSide (canCastle p) \<longrightarrow> \<not> whiteQueenSide (canCastle q))
       \<and> (\<not> blackKingSide (canCastle p) \<longrightarrow> \<not> blackKingSide (canCastle q))
       \<and> (\<not> blackQueenSide (canCastle p) \<longrightarrow> \<not> blackQueenSide (canCastle q))
       \<and> (piece m = WHITE_KING \<longrightarrow>
            \<not> whiteKingSide (canCastle q) \<and> \<not> whiteQueenSide (canCastle q))
       \<and> (piece m = BLACK_KING \<longrightarrow>
            \<not> blackKingSide (canCastle q) \<and> \<not> blackQueenSide (canCastle q))
       \<and> (piece m = WHITE_ROOK \<and> from = sq Fh R1 \<longrightarrow> \<not> whiteKingSide (canCastle q))
       \<and> (piece m = WHITE_ROOK \<and> from = sq Fa R1 \<longrightarrow> \<not> whiteQueenSide (canCastle q))
       \<and> (piece m = BLACK_ROOK \<and> from = sq Fh R8 \<longrightarrow> \<not> blackKingSide (canCastle q))
       \<and> (piece m = BLACK_ROOK \<and> from = sq Fa R8 \<longrightarrow> \<not> blackQueenSide (canCastle q))
       \<and> (castling m \<noteq> None \<longrightarrow>
            (turnColor p = WHITE \<longrightarrow>
               \<not> whiteKingSide (canCastle q) \<and> \<not> whiteQueenSide (canCastle q))
            \<and> (turnColor p = BLACK \<longrightarrow>
               \<not> blackKingSide (canCastle q) \<and> \<not> blackQueenSide (canCastle q)))"
proof -
  note step = applyMove_rights_mono [OF assms(2)]
  note later = reachable_rights_mono [OF assms(3)]
  have wk: "whiteKingSide (canCastle q) \<Longrightarrow> whiteKingSide (canCastle p')"
    and wq: "whiteQueenSide (canCastle q) \<Longrightarrow> whiteQueenSide (canCastle p')"
    and bk: "blackKingSide (canCastle q) \<Longrightarrow> blackKingSide (canCastle p')"
    and bq: "blackQueenSide (canCastle q) \<Longrightarrow> blackQueenSide (canCastle p')"
    using later by simp_all
  have wk': "whiteKingSide (canCastle p') \<Longrightarrow> whiteKingSide (canCastle p)"
    and wq': "whiteQueenSide (canCastle p') \<Longrightarrow> whiteQueenSide (canCastle p)"
    and bk': "blackKingSide (canCastle p') \<Longrightarrow> blackKingSide (canCastle p)"
    and bq': "blackQueenSide (canCastle p') \<Longrightarrow> blackQueenSide (canCastle p)"
    using step by simp_all
  note clears = applyMove_king_or_rook_clears [OF assms(1,2)]
  have c1: "piece m = WHITE_KING \<Longrightarrow>
              \<not> whiteKingSide (canCastle p') \<and> \<not> whiteQueenSide (canCastle p')"
    and c2: "piece m = BLACK_KING \<Longrightarrow>
              \<not> blackKingSide (canCastle p') \<and> \<not> blackQueenSide (canCastle p')"
    and c3: "piece m = WHITE_ROOK \<Longrightarrow> from = sq Fh R1 \<Longrightarrow> \<not> whiteKingSide (canCastle p')"
    and c4: "piece m = WHITE_ROOK \<Longrightarrow> from = sq Fa R1 \<Longrightarrow> \<not> whiteQueenSide (canCastle p')"
    and c5: "piece m = BLACK_ROOK \<Longrightarrow> from = sq Fh R8 \<Longrightarrow> \<not> blackKingSide (canCastle p')"
    and c6: "piece m = BLACK_ROOK \<Longrightarrow> from = sq Fa R8 \<Longrightarrow> \<not> blackQueenSide (canCastle p')"
    and c7: "castling m \<noteq> None \<Longrightarrow> turnColor p = WHITE \<Longrightarrow>
              \<not> whiteKingSide (canCastle p') \<and> \<not> whiteQueenSide (canCastle p')"
    and c8: "castling m \<noteq> None \<Longrightarrow> turnColor p = BLACK \<Longrightarrow>
              \<not> blackKingSide (canCastle p') \<and> \<not> blackQueenSide (canCastle p')"
    using clears by simp_all
  show ?thesis
    using wk wq bk bq wk' wq' bk' bq' c1 c2 c3 c4 c5 c6 c7 c8
    by (intro conjI impI) blast+
qed

lemma rook_endgame_play:
  "(case parseFen rookEndgameFen of
      Inl e \<Rightarrow> False
    | Inr p \<Rightarrow>
        whiteKingSide (canCastle p) \<and>
        (case calculateMove p (sq Fh R1) (sq Fh R2) None False of
           Inr (Inr m) \<Rightarrow>
             piece m = WHITE_ROOK \<and>
             (case applyMove p m of
                Inl e \<Rightarrow> False
              | Inr p' \<Rightarrow>
                  (case calculateMove p' (sq Fe R8) (sq Fd R8) None False of
                     Inr (Inr m') \<Rightarrow>
                       (case applyMove p' m' of Inl e \<Rightarrow> False | Inr q \<Rightarrow> True)
                   | _ \<Rightarrow> False))
         | _ \<Rightarrow> False))"
  by code_simp

text \<open>Witness for C7: the rook leaves h1, Black answers, and the king-side right,
  set before, is gone.\<close>

theorem C7_witness:
  "\<exists>p m p' m' q. parseFen rookEndgameFen = Inr p \<and> whiteKingSide (canCastle p)
      \<and> calculateMove p (sq Fh R1) (sq Fh R2) None False = Inr (Inr m)
      \<and> applyMove p m = Inr p' \<and> applyMove p' m' = Inr q \<and> reachable p' q
      \<and> piece m = WHITE_ROOK \<and> \<not> whiteKingSide (canCastle q)"
proof -
  from rook_endgame_play obtain p m p' m' q where
    h: "parseFen rookEndgameFen = Inr p" "whiteKingSide (canCastle p)"
      "calculateMove p (sq Fh R1) (sq Fh R2) None False = Inr (Inr m)" "piece m = WHITE_ROOK"
      "applyMove p m = Inr p'" "applyMove p' m' = Inr q"
    by (auto split: sum.splits)
  have r: "reachable p' q"
    using reachable_step [OF reachable_refl h(6)] .
  from C7_castling_rights_never_return [OF h(3) h(5) r] h(4)
  have "\<not> whiteKingSide (canCastle q)" by simp
  with h r show ?thesis by blast
qed



subsection \<open>C4: what \<open>parseFen\<close> rejects\<close>

text \<open>
  C4. The claim: \<open>parseFen\<close> fails for every placement field with an unrecognized piece
  letter and for every placement field with a rank whose letters and digits do not sum to
  8. The code does not check the sum: the placement \<open>8/8/8/8/8/8/8/7\<close>, whose last rank
  sums to 7, is parsed into a position (with an empty board), although \<open>validateFen\<close>
  rejects the same text.
\<close>

theorem C4_short_rank_is_accepted:
  "(\<exists>b. parseFen shortRankFen = Inr b \<and> pieces b = []) \<and> \<not> validateFen shortRankFen"
proof -
  have "case parseFen shortRankFen of Inl e \<Rightarrow> False | Inr b \<Rightarrow> pieces b = []"
    by code_simp
  moreover have "\<not> validateFen shortRankFen"
    by code_simp
  ultimately show ?thesis by (auto split: sum.splits)
qed

subsection \<open>C6: FEN round trip\<close>

lemma initial_position_round_trip:
  "(case parseFen INITIAL_FEN of
      Inl e \<Rightarrow> False
    | Inr p \<Rightarrow>
        turnColor p = WHITE
        \<and> boardToFen p = ''rnbqkbnr/pppppppp/8/8/8/8/PPPPPPPP/RNBQKBNR white KQkq - 0 1''
        \<and> (case parseFen (boardToFen p) of Inl e \<Rightarrow> False | Inr q \<Rightarrow> turnColor q = BLACK))"
  by code_simp

text \<open>
  C6. The claim: \<open>parseFen (boardToFen p)\<close> equals \<open>p\<close> for every reachable position.
  For the starting position, White to move, \<open>boardToFen\<close> writes the side to move as
  \<open>white\<close>, which \<open>parseFen\<close> reads as Black (every text other than \<open>w\<close> is):
  the round trip changes the side to move.
\<close>

theorem C6_round_trip_loses_side_to_move:
  "\<exists>p q. parseFen INITIAL_FEN = Inr p \<and> turnColor p = WHITE
      \<and> boardToFen p = ''rnbqkbnr/pppppppp/8/8/8/8/PPPPPPPP/RNBQKBNR white KQkq - 0 1''
      \<and> parseFen (boardToFen p) = Inr q \<and> turnColor q = BLACK"
  using initial_position_round_trip by (auto split: sum.splits)

subsection \<open>C10: no origin disambiguation in \<open>moveToAlgebraic\<close>\<close>

lemma two_knights_play:
  "(case parseFen twoKnightsFen of
      Inl e \<Rightarrow> False
    | Inr p \<Rightarrow>
        (case (calculateMove p (sq Fb R1) (sq Fd R2) None False,
               calculateMove p (sq Ff R3) (sq Fd R2) None False) of
           (Inr (Inr m1), Inr (Inr m2)) \<Rightarrow>
             m1 \<noteq> m2 \<and> piece m1 = WHITE_KNIGHT \<and> piece m2 = WHITE_KNIGHT
             \<and> to_pos m1 = to_pos m2 \<and> moveToAlgebraic m1 = ''Nd2''
             \<and> moveToAlgebraic m2 = ''Nd2''
         | _ \<Rightarrow> False))"
  by code_simp

lemma moveToAlgebraic_origin:
  "\<not> (isPawn (piece m) \<and> isCapture m) \<Longrightarrow> moveToAlgebraic (m\<lparr>from_pos := f\<rparr>) = moveToAlgebraic m"
  by (simp add: moveToAlgebraic_def Let_def split: option.splits)

text \<open>
  C10. \<open>moveToAlgebraic\<close> writes no character of the origin square, except the origin
  file of a pawn capture: for every other move the text stays the same when the origin
  square is replaced. Consequently there is a position (White knights on b1 and f3)
  with two distinct legal moves of same-type pieces to the same square, d2, that render
  to the same text.
\<close>

theorem C10_no_origin_disambiguation:
  "(\<forall>m f. \<not> (isPawn (piece m) \<and> isCapture m) \<longrightarrow>
           moveToAlgebraic (m\<lparr>from_pos := f\<rparr>) = moveToAlgebraic m)
   \<and> (\<exists>p m1 m2. parseFen twoKnightsFen = Inr p
         \<and> calculateMove p (sq Fb R1) (sq Fd R2) None False = Inr (Inr m1)
         \<and> calculateMove p (sq Ff R3) (sq Fd R2) None False = Inr (Inr m2)
         \<and> m1 \<noteq> m2 \<and> piece m1 = piece m2 \<and> to_pos m1 = to_pos m2
         \<and> moveToAlgebraic m1 = moveToAlgebraic m2)"
proof
  show "\<forall>m f. \<not> (isPawn (piece m) \<and> isCapture m) \<longrightarrow>
           moveToAlgebraic (m\<lparr>from_pos := f\<rparr>) = moveToAlgebraic m"
    using moveToAlgebraic_origin by blast
  from two_knights_play
  show "\<exists>p m1 m2. parseFen twoKnightsFen = Inr p
         \<and> calculateMove p (sq Fb R1) (sq Fd R2) None False = Inr (Inr m1)
         \<and> calculateMove p (sq Ff R3) (sq Fd R2) None False = Inr (Inr m2)
         \<and> m1 \<noteq> m2 \<and> piece m1 = piece m2 \<and> to_pos m1 = to_pos m2
         \<and> moveToAlgebraic m1 = moveToAlgebraic m2"
    by (auto split: sum.splits)
qed

text \<open>Witness for C10: the knight move b1-d2, with the origin replaced by f3.\<close>

theorem C10_witness:
  "\<not> (isPawn (piece knightMove) \<and> isCapture knightMove)
   \<and> moveToAlgebraic (knightMove\<lparr>from_pos := sq Ff R3\<rparr>) = moveToAlgebraic knightMove"
proof -
  have h: "\<not> (isPawn (piece knightMove) \<and> isCapture knightMove)"
    by (simp add: knightMove_def isPawn_def)
  from C10_no_origin_disambiguation have
    "\<not> (isPawn (piece knightMove) \<and> isCapture knightMove) \<longrightarrow>
       moveToAlgebraic (knightMove\<lparr>from_pos := sq Ff R3\<rparr>) = moveToAlgebraic knightMove"
    by blast
  with h show ?thesis by blast
qed

subsection \<open>C3: variations in PGN text\<close>

lemma variation_moves_are_applied:
  "map_option (map_sum id (map (\<lambda>m. (from_pos m, to_pos m)))) (parsePGNMoves variationPgn)
     = Some (Inr [(sq Fe R2, sq Fe R4), (sq Fe R7, sq Fe R5),
                  (sq Fd R2, sq Fd R4), (sq Fd R7, sq Fd R5)])"
  by code_simp

lemma variation_deleted_moves:
  "map_option (map_sum id (map (\<lambda>m. (from_pos m, to_pos m)))) (parsePGNMoves variationDeletedPgn)
     = Some (Inr [(sq Fe R2, sq Fe R4), (sq Fe R7, sq Fe R5)])"
  by code_simp

text \<open>
  C3. The claim: move tokens inside parentheses are skipped and not applied to the board,
  so the result equals that of the input without the variation. For the input
  \<open>1. e4 e5 ( 1. d4 d5 )\<close> the parser returns four moves, the two of the variation
  included (they were applied to the board); for \<open>1. e4 e5\<close> it returns two.
\<close>

theorem C3_variation_moves_are_applied:
  "\<exists>ms ms'. parsePGNMoves variationPgn = Some (Inr ms)
      \<and> parsePGNMoves variationDeletedPgn = Some (Inr ms')
      \<and> map (\<lambda>m. (from_pos m, to_pos m)) ms
          = [(sq Fe R2, sq Fe R4), (sq Fe R7, sq Fe R5), (sq Fd R2, sq Fd R4), (sq Fd R7, sq Fd R5)]
      \<and> map (\<lambda>m. (from_pos m, to_pos m)) ms' = [(sq Fe R2, sq Fe R4), (sq Fe R7, sq Fe R5)]
      \<and> ms \<noteq> ms'"
proof -
  from variation_moves_are_applied obtain ms where
    a: "parsePGNMoves variationPgn = Some (Inr ms)"
       "map (\<lambda>m. (from_pos m, to_pos m)) ms
          = [(sq Fe R2, sq Fe R4), (sq Fe R7, sq Fe R5), (sq Fd R2, sq Fd R4), (sq Fd R7, sq Fd R5)]"
    by (cases "parsePGNMoves variationPgn") (auto simp: map_sum_def split: sum.splits)
  from variation_deleted_moves obtain ms' where
    b: "parsePGNMoves variationDeletedPgn = Some (Inr ms')"
       "map (\<lambda>m. (from_pos m, to_pos m)) ms' = [(sq Fe R2, sq Fe R4), (sq Fe R7, sq Fe R5)]"
    by (cases "parsePGNMoves variationDeletedPgn") (auto simp: map_sum_def split: sum.splits)
  from a(2) b(2) have c: "ms \<noteq> ms'" by auto
  show ?thesis
    by (rule exI [of _ ms], rule exI [of _ ms']) (simp only: a b c simp_thms)
qed

subsection \<open>Texts that start with a piece letter\<close>

lemma castling_parser_None:
  assumes "charAt t 0 = Some c" "c \<noteq> CHR ''O''"
  shows "tryParseAlgebraicCastlingMove t b = None"
proof -
  from assms obtain cs where t: "t = c # cs"
    by (cases t) (auto simp: charAt_def)
  with assms(2) show ?thesis
    by (simp add: tryParseAlgebraicCastlingMove_def KING_SIDE_CASTLING_STR_def
          QUEEN_SIDE_CASTLING_STR_def Let_def)
qed

lemma byChar_None:
  "charAt t 0 \<noteq> Some (algebraicPieceChar X) \<Longrightarrow> tryParseAlgebraicMoveByChar t b X = None"
  by (simp add: tryParseAlgebraicMoveByChar_def)

lemma byChar_Some:
  "charAt t 0 = Some (algebraicPieceChar X) \<Longrightarrow>
     tryParseAlgebraicMoveByChar t b X = Some (parseAlgebraicMoveByChar t b X)"
  by (simp add: tryParseAlgebraicMoveByChar_def)

subsection \<open>C5: algebraic round trip\<close>

lemma fileIndexOf_range: "0 \<le> fileIndexOf f \<and> fileIndexOf f < 8"
  by (cases f) simp_all

lemma rankIndexOf_range: "0 \<le> rankIndexOf r \<and> rankIndexOf r < 8"
  by (cases r) simp_all

lemma BOARD_FILES_at_index [simp]: "BOARD_FILES_at (fileIndexOf f) = Some f"
  by (cases f) (simp_all add: BOARD_FILES_at_def)

lemma BOARD_RANKS_at_index [simp]: "BOARD_RANKS_at (rankIndexOf r) = Some r"
  by (cases r) (simp_all add: BOARD_RANKS_at_def)

lemma BOARD_FILES_at_Some: "BOARD_FILES_at i = Some f \<Longrightarrow> fileIndexOf f = i"
  by (auto simp: BOARD_FILES_at_def split: if_splits)

lemma BOARD_RANKS_at_Some: "BOARD_RANKS_at i = Some r \<Longrightarrow> rankIndexOf r = i"
  by (auto simp: BOARD_RANKS_at_def split: if_splits)

lemma BOARD_FILES_at_in_range: "0 \<le> i \<Longrightarrow> i < 8 \<Longrightarrow> \<exists>f. BOARD_FILES_at i = Some f"
proof -
  assume "0 \<le> i" "i < 8"
  then have "i = 0 \<or> i = 1 \<or> i = 2 \<or> i = 3 \<or> i = 4 \<or> i = 5 \<or> i = 6 \<or> i = 7" by arith
  then show ?thesis by (auto simp: BOARD_FILES_at_def)
qed

lemma BOARD_RANKS_at_in_range: "0 \<le> i \<Longrightarrow> i < 8 \<Longrightarrow> \<exists>r. BOARD_RANKS_at i = Some r"
proof -
  assume "0 \<le> i" "i < 8"
  then have "i = 0 \<or> i = 1 \<or> i = 2 \<or> i = 3 \<or> i = 4 \<or> i = 5 \<or> i = 6 \<or> i = 7" by arith
  then show ?thesis by (auto simp: BOARD_RANKS_at_def)
qed

lemma fileIndexOf_inj: "fileIndexOf f = fileIndexOf g \<Longrightarrow> f = g"
  by (metis BOARD_FILES_at_index option.inject)

lemma rankIndexOf_inj: "rankIndexOf r = rankIndexOf s \<Longrightarrow> r = s"
  by (metis BOARD_RANKS_at_index option.inject)

lemma Position_eq_iff:
  "(s = t) \<longleftrightarrow> fileIndex s = fileIndex t \<and> rankIndex s = rankIndex t"
  by (cases s, cases t) (auto simp: fileIndex_def rankIndex_def dest: fileIndexOf_inj rankIndexOf_inj)

lemma fileIndex_range: "0 \<le> fileIndex s \<and> fileIndex s < 8"
  by (simp add: fileIndex_def fileIndexOf_range)

lemma rankIndex_range: "0 \<le> rankIndex s \<and> rankIndex s < 8"
  by (simp add: rankIndex_def rankIndexOf_range)

subsection \<open>Characters\<close>

lemma asBoardFile_fileChar [simp]: "asBoardFile (fileChar f) = Some f"
  by (cases f) (simp_all add: asBoardFile_def)

lemma asBoardRank_rankChar [simp]: "asBoardRank (rankChar r) = Some r"
  by (cases r) (simp_all add: asBoardRank_def)

lemma asBoardFile_rankChar [simp]: "asBoardFile (rankChar r) = None"
  by (cases r) (simp_all add: asBoardFile_def)

lemma asBoardRank_fileChar [simp]: "asBoardRank (fileChar f) = None"
  by (cases f) (simp_all add: asBoardRank_def)

lemma fileChar_not_special [simp]:
  "fileChar f \<noteq> CHR ''x''" "fileChar f \<noteq> CHR ''O''" "fileChar f \<noteq> CHR ''=''"
  "fileChar f \<noteq> CHR ''+''" "fileChar f \<noteq> CHR ''#''"
  "fileChar f \<noteq> CHR ''N''" "fileChar f \<noteq> CHR ''B''" "fileChar f \<noteq> CHR ''R''"
  "fileChar f \<noteq> CHR ''Q''" "fileChar f \<noteq> CHR ''K''"
  by (cases f; simp)+

lemma rankChar_not_special [simp]:
  "rankChar r \<noteq> CHR ''x''" "rankChar r \<noteq> CHR ''=''" "rankChar r \<noteq> CHR ''+''"
  "rankChar r \<noteq> CHR ''#''"
  by (cases r; simp)+

lemma asBoardFile_x [simp]: "asBoardFile (CHR ''x'') = None" "asBoardRank (CHR ''x'') = None"
  by (simp_all add: asBoardFile_def asBoardRank_def)

lemma squareAt_index [simp]: "squareAt (fileIndex s) (rankIndex s) = s"
  by (simp add: squareAt_def fileIndex_def rankIndex_def)

lemma squareAt_indexOf [simp]:
  "squareAt (fileIndexOf f) (rankIndexOf r) = \<lparr>file = f, rank = r\<rparr>"
  by (simp add: squareAt_def)

lemma index_squareAt:
  assumes "onBoard i j"
  shows "fileIndex (squareAt i j) = i" "rankIndex (squareAt i j) = j"
proof -
  from assms obtain f r where "BOARD_FILES_at i = Some f" "BOARD_RANKS_at j = Some r"
    using BOARD_FILES_at_in_range BOARD_RANKS_at_in_range by (auto simp: onBoard_def) blast
  then show "fileIndex (squareAt i j) = i" "rankIndex (squareAt i j) = j"
    by (simp_all add: squareAt_def fileIndex_def rankIndex_def BOARD_FILES_at_Some
          BOARD_RANKS_at_Some)
qed

lemma squareAt_file:
  "BOARD_FILES_at i = Some f \<Longrightarrow> \<lparr>file = f, rank = r\<rparr> = squareAt i (rankIndexOf r)"
  by (simp add: squareAt_def)

lemma squareAt_rank:
  "BOARD_RANKS_at j = Some r \<Longrightarrow> \<lparr>file = f, rank = r\<rparr> = squareAt (fileIndexOf f) j"
  by (simp add: squareAt_def)

lemma squareAt_both:
  "BOARD_FILES_at i = Some f \<Longrightarrow> BOARD_RANKS_at j = Some r \<Longrightarrow> \<lparr>file = f, rank = r\<rparr> = squareAt i j"
  by (simp add: squareAt_def)

lemma horizontalLoop_steps:
  assumes "t = i + step * int k" and "step \<noteq> 0"
    and "\<forall>j<k. 0 \<le> i + step * int j \<and> i + step * int j < 8"
  shows "horizontalLoop i t step r acc
           = Some (acc @ map (\<lambda>j. squareAt (i + step * int j) (rankIndexOf r)) [0..<k])"
  using assms
proof (induction k arbitrary: i acc)
  case 0
  then show ?case by (simp add: horizontalLoop.simps)
next
  case (Suc k)
  from Suc.prems have ne: "i \<noteq> t" by simp
  from Suc.prems(3) have "0 \<le> i \<and> i < 8" by (auto dest: spec [of _ 0])
  then obtain f where f: "BOARD_FILES_at i = Some f"
    using BOARD_FILES_at_in_range by blast
  have t: "t = (i + step) + step * int k" using Suc.prems(1) by (simp add: algebra_simps)
  have rng: "\<forall>j<k. 0 \<le> (i + step) + step * int j \<and> (i + step) + step * int j < 8"
  proof (intro allI impI)
    fix j assume "j < k"
    then have "Suc j < Suc k" by simp
    with Suc.prems(3) have "0 \<le> i + step * int (Suc j) \<and> i + step * int (Suc j) < 8" by blast
    then show "0 \<le> (i + step) + step * int j \<and> (i + step) + step * int j < 8"
      by (simp add: algebra_simps)
  qed
  have "horizontalLoop i t step r acc
          = horizontalLoop (i + step) t step r (acc @ [squareAt i (rankIndexOf r)])"
    using ne f by (subst horizontalLoop.simps) (simp add: squareAt_file)
  also have "\<dots> = Some ((acc @ [squareAt i (rankIndexOf r)])
                 @ map (\<lambda>j. squareAt ((i + step) + step * int j) (rankIndexOf r)) [0..<k])"
    by (rule Suc.IH [OF t Suc.prems(2) rng])
  also have "(acc @ [squareAt i (rankIndexOf r)])
                 @ map (\<lambda>j. squareAt ((i + step) + step * int j) (rankIndexOf r)) [0..<k]
             = acc @ map (\<lambda>j. squareAt (i + step * int j) (rankIndexOf r)) [0..<Suc k]"
    by (simp add: map_upt_Suc algebra_simps del: upt_Suc)
  finally show ?case .
qed

lemma verticalLoop_steps:
  assumes "t = i + step * int k" and "step \<noteq> 0"
    and "\<forall>j<k. 0 \<le> i + step * int j \<and> i + step * int j < 8"
  shows "verticalLoop i t step f acc
           = Some (acc @ map (\<lambda>j. squareAt (fileIndexOf f) (i + step * int j)) [0..<k])"
  using assms
proof (induction k arbitrary: i acc)
  case 0
  then show ?case by (simp add: verticalLoop.simps)
next
  case (Suc k)
  from Suc.prems have ne: "i \<noteq> t" by simp
  from Suc.prems(3) have "0 \<le> i \<and> i < 8" by (auto dest: spec [of _ 0])
  then obtain r where r: "BOARD_RANKS_at i = Some r"
    using BOARD_RANKS_at_in_range by blast
  have t: "t = (i + step) + step * int k" using Suc.prems(1) by (simp add: algebra_simps)
  have rng: "\<forall>j<k. 0 \<le> (i + step) + step * int j \<and> (i + step) + step * int j < 8"
  proof (intro allI impI)
    fix j assume "j < k"
    then have "Suc j < Suc k" by simp
    with Suc.prems(3) have "0 \<le> i + step * int (Suc j) \<and> i + step * int (Suc j) < 8" by blast
    then show "0 \<le> (i + step) + step * int j \<and> (i + step) + step * int j < 8"
      by (simp add: algebra_simps)
  qed
  have "verticalLoop i t step f acc
          = verticalLoop (i + step) t step f (acc @ [squareAt (fileIndexOf f) i])"
    using ne r by (subst verticalLoop.simps) (simp add: squareAt_rank)
  also have "\<dots> = Some ((acc @ [squareAt (fileIndexOf f) i])
                 @ map (\<lambda>j. squareAt (fileIndexOf f) ((i + step) + step * int j)) [0..<k])"
    by (rule Suc.IH [OF t Suc.prems(2) rng])
  also have "(acc @ [squareAt (fileIndexOf f) i])
                 @ map (\<lambda>j. squareAt (fileIndexOf f) ((i + step) + step * int j)) [0..<k]
             = acc @ map (\<lambda>j. squareAt (fileIndexOf f) (i + step * int j)) [0..<Suc k]"
    by (simp add: map_upt_Suc algebra_simps del: upt_Suc)
  finally show ?case .
qed

lemma diagonalLoop_steps:
  assumes "tf = f + fs * int k" and "tr = r + rs * int k" and "fs \<noteq> 0" and "rs \<noteq> 0"
    and "\<forall>j<k. onBoard (f + fs * int j) (r + rs * int j)"
  shows "diagonalLoop f r tf tr fs rs acc
           = Some (acc @ map (\<lambda>j. squareAt (f + fs * int j) (r + rs * int j)) [0..<k])"
  using assms
proof (induction k arbitrary: f r acc)
  case 0
  then show ?case by (simp add: diagonalLoop.simps)
next
  case (Suc k)
  from Suc.prems have ne: "f \<noteq> tf" "r \<noteq> tr" by simp_all
  from Suc.prems(5) have "onBoard f r" by (auto dest: spec [of _ 0])
  then obtain a b where ab: "BOARD_FILES_at f = Some a" "BOARD_RANKS_at r = Some b"
    using BOARD_FILES_at_in_range BOARD_RANKS_at_in_range by (auto simp: onBoard_def) blast
  have t: "tf = (f + fs) + fs * int k" "tr = (r + rs) + rs * int k"
    using Suc.prems(1,2) by (simp_all add: algebra_simps)
  have rng: "\<forall>j<k. onBoard ((f + fs) + fs * int j) ((r + rs) + rs * int j)"
  proof (intro allI impI)
    fix j assume "j < k"
    then have "Suc j < Suc k" by simp
    with Suc.prems(5) have "onBoard (f + fs * int (Suc j)) (r + rs * int (Suc j))" by blast
    then show "onBoard ((f + fs) + fs * int j) ((r + rs) + rs * int j)"
      by (simp add: algebra_simps)
  qed
  have "diagonalLoop f r tf tr fs rs acc
          = diagonalLoop (f + fs) (r + rs) tf tr fs rs (acc @ [squareAt f r])"
    using ne ab by (subst diagonalLoop.simps) (simp add: squareAt_both)
  also have "\<dots> = Some ((acc @ [squareAt f r])
                 @ map (\<lambda>j. squareAt ((f + fs) + fs * int j) ((r + rs) + rs * int j)) [0..<k])"
    by (rule Suc.IH [OF t Suc.prems(3,4) rng])
  also have "(acc @ [squareAt f r])
                 @ map (\<lambda>j. squareAt ((f + fs) + fs * int j) ((r + rs) + rs * int j)) [0..<k]
             = acc @ map (\<lambda>j. squareAt (f + fs * int j) (r + rs * int j)) [0..<Suc k]"
    by (simp add: map_upt_Suc algebra_simps del: upt_Suc)
  finally show ?case .
qed

lemma getPositionsBetween_line:
  assumes d: "df \<in> {- 1, 0, 1}" "dr \<in> {- 1, 0, 1}" "df \<noteq> 0 \<or> dr \<noteq> 0"
    and f: "fileIndex from = fileIndex to + int n * df"
    and r: "rankIndex from = rankIndex to + int n * dr"
    and n: "n \<ge> 1"
  shows "getPositionsBetween from to
           = Some (map (\<lambda>j. squareAt (fileIndex from - (int j + 1) * df)
                                       (rankIndex from - (int j + 1) * dr)) [0..<n - 1])"
proof -
  note rf = fileIndex_range [of "from"] fileIndex_range [of to]
  note rr = rankIndex_range [of "from"] rankIndex_range [of to]
  consider (h) "dr = 0" "df \<noteq> 0" | (v) "df = 0" "dr \<noteq> 0" | (g) "df \<noteq> 0" "dr \<noteq> 0"
    using d(3) by blast
  then show ?thesis
  proof cases
    case h
    define step where "step = - df"
    have step: "step = (if fileIndex from < fileIndex to then 1 else - 1)" "step \<noteq> 0"
      using h d(1) f n by (auto simp: step_def)
    have t: "fileIndex to = (fileIndex from + step) + step * int (n - 1)"
      using f n by (simp add: step_def algebra_simps of_nat_diff)
    have rng: "\<forall>j<n - 1. 0 \<le> (fileIndex from + step) + step * int j
                 \<and> (fileIndex from + step) + step * int j < 8"
      using d(1) h f rf by (auto simp: step_def)
    have same: "rankIndex from = rankIndex to" using r h by simp
    have "getPositionsBetween from to
            = horizontalLoop (fileIndex from + step) (fileIndex to) step (rank from) []"
      using same step(1) by (simp add: getPositionsBetween_def Let_def)
    also note horizontalLoop_steps [OF t step(2) rng]
    finally show ?thesis
      using h by (simp add: step_def algebra_simps rankIndex_def)
  next
    case v
    define step where "step = - dr"
    have step: "step = (if rankIndex from < rankIndex to then 1 else - 1)" "step \<noteq> 0"
      using v d(2) r n by (auto simp: step_def)
    have t: "rankIndex to = (rankIndex from + step) + step * int (n - 1)"
      using r n by (simp add: step_def algebra_simps of_nat_diff)
    have rng: "\<forall>j<n - 1. 0 \<le> (rankIndex from + step) + step * int j
                 \<and> (rankIndex from + step) + step * int j < 8"
      using d(2) v r rr by (auto simp: step_def)
    have same: "fileIndex from = fileIndex to" using f v by simp
    have diff: "rankIndex from \<noteq> rankIndex to" using r v n by simp
    have "getPositionsBetween from to
            = verticalLoop (rankIndex from + step) (rankIndex to) step (file from) []"
      using same diff step(1) by (simp add: getPositionsBetween_def Let_def)
    also note verticalLoop_steps [OF t step(2) rng]
    finally show ?thesis
      using v by (simp add: step_def algebra_simps fileIndex_def)
  next
    case g
    define fs where "fs = - df"
    define rs where "rs = - dr"
    have fs: "fs = (if fileIndex from < fileIndex to then 1 else - 1)" "fs \<noteq> 0"
      using g d(1) f n by (auto simp: fs_def)
    have rs: "rs = (if rankIndex from < rankIndex to then 1 else - 1)" "rs \<noteq> 0"
      using g d(2) r n by (auto simp: rs_def)
    have tf: "fileIndex to = (fileIndex from + fs) + fs * int (n - 1)"
      using f n by (simp add: fs_def algebra_simps of_nat_diff)
    have tr: "rankIndex to = (rankIndex from + rs) + rs * int (n - 1)"
      using r n by (simp add: rs_def algebra_simps of_nat_diff)
    have rng: "\<forall>j<n - 1. onBoard ((fileIndex from + fs) + fs * int j)
                                  ((rankIndex from + rs) + rs * int j)"
      using d(1,2) g f r rf rr by (auto simp: fs_def rs_def onBoard_def)
    have diff: "rankIndex from \<noteq> rankIndex to" "fileIndex from \<noteq> fileIndex to"
      using f r g n by simp_all
    have ab: "\<bar>fileIndex from - fileIndex to\<bar> = \<bar>rankIndex from - rankIndex to\<bar>"
      using f r g d(1,2) by auto
    have "getPositionsBetween from to
            = diagonalLoop (fileIndex from + fs) (rankIndex from + rs) (fileIndex to)
                (rankIndex to) fs rs []"
      using diff ab fs(1) rs(1) by (simp add: getPositionsBetween_def Let_def)
    also note diagonalLoop_steps [OF tf tr fs(2) rs(2) rng]
    finally show ?thesis
      by (simp add: fs_def rs_def algebra_simps)
  qed
qed

lemma BoardMap_has_get: "BoardMap_has ps s \<longleftrightarrow> BoardMap_get ps s \<noteq> None"
  by (simp add: BoardMap_has_def BoardMap_get_def)

lemma Position_make_squareAt:
  "BOARD_FILES_at i = Some f \<Longrightarrow> BOARD_RANKS_at j = Some r \<Longrightarrow> Position_make f r = squareAt i j"
  by (simp add: squareAt_def Position_make_def)

text \<open>A ray that meets only empty squares for \<open>m\<close> steps and then the piece looked for
  returns that square.\<close>

lemma rayLoop_finds:
  assumes "\<forall>j<m. onBoard (a + df * int j) (b + dr * int j)
             \<and> BoardMap_get ps (squareAt (a + df * int j) (b + dr * int j)) = None"
    and "onBoard (a + df * int m) (b + dr * int m)"
    and "BoardMap_get ps (squareAt (a + df * int m) (b + dr * int m)) = Some lookup"
  shows "rayLoop a b df dr ps None None lookup acc
           = Some (acc @ [squareAt (a + df * int m) (b + dr * int m)])"
  using assms
proof (induction m arbitrary: a b)
  case 0
  then have on: "onBoard a b" and g: "BoardMap_get ps (squareAt a b) = Some lookup" by simp_all
  from on obtain f r where fr: "BOARD_FILES_at a = Some f" "BOARD_RANKS_at b = Some r"
    using BOARD_FILES_at_in_range BOARD_RANKS_at_in_range by (auto simp: onBoard_def) blast
  show ?case
    using on fr g
    by (subst rayLoop.simps) (simp add: onBoard_def Position_make_squareAt)
next
  case (Suc m)
  from Suc.prems(1) have on: "onBoard a b" and g: "BoardMap_get ps (squareAt a b) = None"
    by (auto dest: spec [of _ 0])
  from on obtain f r where fr: "BOARD_FILES_at a = Some f" "BOARD_RANKS_at b = Some r"
    using BOARD_FILES_at_in_range BOARD_RANKS_at_in_range by (auto simp: onBoard_def) blast
  have step: "rayLoop a b df dr ps None None lookup acc
                = rayLoop (a + df) (b + dr) df dr ps None None lookup acc"
    using on fr g
    by (subst rayLoop.simps) (simp add: onBoard_def Position_make_squareAt)
  have 1: "\<forall>j<m. onBoard ((a + df) + df * int j) ((b + dr) + dr * int j)
             \<and> BoardMap_get ps (squareAt ((a + df) + df * int j) ((b + dr) + dr * int j)) = None"
  proof (intro allI impI)
    fix j assume "j < m"
    then have "Suc j < Suc m" by simp
    with Suc.prems(1) have "onBoard (a + df * int (Suc j)) (b + dr * int (Suc j))
             \<and> BoardMap_get ps (squareAt (a + df * int (Suc j)) (b + dr * int (Suc j))) = None"
      by blast
    then show "onBoard ((a + df) + df * int j) ((b + dr) + dr * int j)
             \<and> BoardMap_get ps (squareAt ((a + df) + df * int j) ((b + dr) + dr * int j)) = None"
      by (simp add: algebra_simps)
  qed
  have 2: "onBoard ((a + df) + df * int m) ((b + dr) + dr * int m)"
    using Suc.prems(2) by (simp add: algebra_simps)
  have 3: "BoardMap_get ps (squareAt ((a + df) + df * int m) ((b + dr) + dr * int m)) = Some lookup"
    using Suc.prems(3) by (simp add: algebra_simps)
  from Suc.IH [OF 1 2 3] step show ?case by (simp add: algebra_simps)
qed

lemma rayLoop_total_aux:
  assumes d: "df \<in> {- 1, 0, 1}" "dr \<in> {- 1, 0, 1}" "df \<noteq> 0 \<or> dr \<noteq> 0"
    and "rayMeasure a b df dr \<le> n"
  shows "\<exists>xs. rayLoop a b df dr ps dF dR lookup acc = Some (acc @ xs)"
  using assms(4)
proof (induction n arbitrary: a b)
  case 0
  then have "\<not> onBoard a b" using d by (auto simp: rayMeasure_def onBoard_def split: if_splits)
  then show ?case by (subst rayLoop.simps) (auto simp: onBoard_def)
next
  case (Suc n)
  show ?case
  proof (cases "onBoard a b")
    case False
    then show ?thesis by (subst rayLoop.simps) (auto simp: onBoard_def)
  next
    case True
    then have "rayMeasure (a + df) (b + dr) df dr \<le> n"
      using Suc.prems d by (auto simp: rayMeasure_def onBoard_def split: if_splits)
    from Suc.IH [OF this] obtain xs where
      xs: "rayLoop (a + df) (b + dr) df dr ps dF dR lookup acc = Some (acc @ xs)" by blast
    from True obtain f r where fr: "BOARD_FILES_at a = Some f" "BOARD_RANKS_at b = Some r"
      using BOARD_FILES_at_in_range BOARD_RANKS_at_in_range by (auto simp: onBoard_def) blast
    show ?thesis
      using True fr xs
      by (subst rayLoop.simps) (auto simp: onBoard_def split: option.splits)
  qed
qed

lemma rayLoop_total:
  assumes "df \<in> {- 1, 0, 1}" "dr \<in> {- 1, 0, 1}" "df \<noteq> 0 \<or> dr \<noteq> 0"
  shows "\<exists>xs. rayLoop a b df dr ps dF dR lookup acc = Some (acc @ xs)"
  using rayLoop_total_aux [OF assms order_refl] .

lemma raysLoop_total:
  assumes "\<forall>d \<in> set dirs. rayDirection d"
  shows "\<exists>xs. raysLoop origin ps dF dR lookup dirs acc = Some (acc @ xs)"
  using assms
proof (induction dirs arbitrary: acc)
  case Nil
  show ?case by simp
next
  case (Cons d dirs)
  obtain df dr where d: "d = (df, dr)" by (cases d)
  with Cons.prems have "df \<in> {- 1, 0, 1}" "dr \<in> {- 1, 0, 1}" "df \<noteq> 0 \<or> dr \<noteq> 0"
    by (auto simp: rayDirection_def)
  from rayLoop_total [OF this] obtain xs where
    xs: "rayLoop (fileIndex origin + df) (rankIndex origin + dr) df dr ps dF dR lookup acc
           = Some (acc @ xs)" by blast
  from Cons.prems have "\<forall>d \<in> set dirs. rayDirection d" by simp
  from Cons.IH [OF this, of "acc @ xs"] obtain ys where
    "raysLoop origin ps dF dR lookup dirs (acc @ xs) = Some ((acc @ xs) @ ys)" by blast
  with xs d show ?case by auto
qed

lemma raysLoop_finds:
  assumes "\<forall>d \<in> set dirs. rayDirection d" and "(df, dr) \<in> set dirs"
    and "\<And>acc. rayLoop (fileIndex origin + df) (rankIndex origin + dr) df dr ps None None
                   lookup acc = Some (acc @ [s])"
  shows "\<exists>res. raysLoop origin ps None None lookup dirs acc = Some res \<and> s \<in> set res"
  using assms(1,2)
proof (induction dirs arbitrary: acc)
  case Nil
  then show ?case by simp
next
  case (Cons d dirs)
  from Cons.prems(1) have rest: "\<forall>d \<in> set dirs. rayDirection d" by simp
  show ?case
  proof (cases "d = (df, dr)")
    case True
    from raysLoop_total [OF rest, of origin ps None None lookup "acc @ [s]"] obtain ys where
      "raysLoop origin ps None None lookup dirs (acc @ [s]) = Some ((acc @ [s]) @ ys)" by blast
    with True assms(3) [of acc] show ?thesis by simp
  next
    case False
    with Cons.prems(2) have mem: "(df, dr) \<in> set dirs" by simp
    obtain df' dr' where d: "d = (df', dr')" by (cases d)
    with Cons.prems(1) have "df' \<in> {- 1, 0, 1}" "dr' \<in> {- 1, 0, 1}" "df' \<noteq> 0 \<or> dr' \<noteq> 0"
      by (auto simp: rayDirection_def)
    from rayLoop_total [OF this] obtain xs where
      xs: "rayLoop (fileIndex origin + df') (rankIndex origin + dr') df' dr' ps None None
             lookup acc = Some (acc @ xs)" by blast
    from Cons.IH [OF rest mem, of "acc @ xs"] xs d show ?thesis by simp
  qed
qed

lemma between_onBoard:
  assumes "df \<in> {- 1, 0, 1}" "dr \<in> {- 1, 0, 1}"
    and "onBoard a b" and "onBoard (a + df * int n) (b + dr * int n)" and "i \<le> n"
  shows "onBoard (a + df * int i) (b + dr * int i)"
  using assms by (auto simp: onBoard_def)

lemma onBoard_index [simp]: "onBoard (fileIndex s) (rankIndex s)"
  using fileIndex_range [of s] rankIndex_range [of s] by (simp add: onBoard_def)

text \<open>A piece that stands on a line from the destination, with the squares between
  empty, is found by the ray cast from the destination along that line.\<close>

lemma ray_from_destination:
  assumes d: "df \<in> {- 1, 0, 1}" "dr \<in> {- 1, 0, 1}" "df \<noteq> 0 \<or> dr \<noteq> 0"
    and f: "fileIndex from = fileIndex to + int n * df"
    and r: "rankIndex from = rankIndex to + int n * dr"
    and n: "n \<ge> 1"
    and clear: "isPathClear from to ps = Some True"
    and piece: "BoardMap_get ps from = Some lookup"
  shows "rayLoop (fileIndex to + df) (rankIndex to + dr) df dr ps None None lookup acc
           = Some (acc @ [from])"
proof -
  define m where "m = n - 1"
  have n_eq: "n = Suc m" using n by (simp add: m_def)
  have target: "fileIndex to + df + df * int m = fileIndex from"
               "rankIndex to + dr + dr * int m = rankIndex from"
    using f r by (simp_all add: n_eq algebra_simps)
  from clear getPositionsBetween_line [OF d f r n]
  have empties: "\<forall>j<m. \<not> BoardMap_has ps (squareAt (fileIndex from - (int j + 1) * df)
                                                    (rankIndex from - (int j + 1) * dr))"
    by (simp add: isPathClear_def list_all_iff m_def)
  have on_end: "onBoard (fileIndex to + df * int n) (rankIndex to + dr * int n)"
    using f r onBoard_index [of "from"] by (simp add: algebra_simps)
  have 1: "\<forall>j<m. onBoard ((fileIndex to + df) + df * int j) ((rankIndex to + dr) + dr * int j)
             \<and> BoardMap_get ps (squareAt ((fileIndex to + df) + df * int j)
                                          ((rankIndex to + dr) + dr * int j)) = None"
  proof (intro allI impI)
    fix j assume j: "j < m"
    then have le: "Suc j \<le> n" by (simp add: n_eq)
    from between_onBoard [OF d(1,2) onBoard_index on_end le]
    have on: "onBoard ((fileIndex to + df) + df * int j) ((rankIndex to + dr) + dr * int j)"
      by (simp add: algebra_simps)
    define j' where "j' = m - 1 - j"
    have j': "j' < m" using j by (simp add: j'_def)
    have idx: "fileIndex from - (int j' + 1) * df = (fileIndex to + df) + df * int j"
              "rankIndex from - (int j' + 1) * dr = (rankIndex to + dr) + dr * int j"
      using j f r by (simp_all add: j'_def n_eq algebra_simps of_nat_diff)
    from empties j' have "\<not> BoardMap_has ps (squareAt (fileIndex from - (int j' + 1) * df)
                                                    (rankIndex from - (int j' + 1) * dr))"
      by blast
    with idx on
    show "onBoard ((fileIndex to + df) + df * int j) ((rankIndex to + dr) + dr * int j)
             \<and> BoardMap_get ps (squareAt ((fileIndex to + df) + df * int j)
                                          ((rankIndex to + dr) + dr * int j)) = None"
      by (simp add: BoardMap_has_get)
  qed
  have 2: "onBoard ((fileIndex to + df) + df * int m) ((rankIndex to + dr) + dr * int m)"
    using target by simp
  have 3: "BoardMap_get ps (squareAt ((fileIndex to + df) + df * int m)
                                      ((rankIndex to + dr) + dr * int m)) = Some lookup"
    using target piece by simp
  from rayLoop_finds [OF 1 2 3, of acc] target show ?thesis by simp
qed

text \<open>The line from the destination to the origin of a rook-like or bishop-like move.\<close>

lemma rook_line:
  assumes "from \<noteq> to" and "file from = file to \<or> rank from = rank to"
  shows "\<exists>n df dr. n \<ge> 1 \<and> (df, dr) \<in> set rookDirections
           \<and> fileIndex from = fileIndex to + int n * df
           \<and> rankIndex from = rankIndex to + int n * dr"
proof -
  from assms(1) have ne: "fileIndex from \<noteq> fileIndex to \<or> rankIndex from \<noteq> rankIndex to"
    by (simp add: Position_eq_iff)
  from assms(2) have same: "fileIndex from = fileIndex to \<or> rankIndex from = rankIndex to"
    by (auto simp: fileIndex_def rankIndex_def)
  consider (e) "rankIndex from = rankIndex to" "fileIndex from > fileIndex to"
    | (w) "rankIndex from = rankIndex to" "fileIndex from < fileIndex to"
    | (n) "fileIndex from = fileIndex to" "rankIndex from > rankIndex to"
    | (s) "fileIndex from = fileIndex to" "rankIndex from < rankIndex to"
    using ne same by linarith
  then show ?thesis
  proof cases
    case e
    then show ?thesis
      by (intro exI [of _ "nat (fileIndex from - fileIndex to)"] exI [of _ 1] exI [of _ 0])
         (simp add: rookDirections_def)
  next
    case w
    then show ?thesis
      by (intro exI [of _ "nat (fileIndex to - fileIndex from)"] exI [of _ "- 1"] exI [of _ 0])
         (simp add: rookDirections_def)
  next
    case n
    then show ?thesis
      by (intro exI [of _ "nat (rankIndex from - rankIndex to)"] exI [of _ 0] exI [of _ 1])
         (simp add: rookDirections_def)
  next
    case s
    then show ?thesis
      by (intro exI [of _ "nat (rankIndex to - rankIndex from)"] exI [of _ 0] exI [of _ "- 1"])
         (simp add: rookDirections_def)
  qed
qed

lemma bishop_line:
  assumes "from \<noteq> to"
    and "\<bar>fileIndex to - fileIndex from\<bar> = \<bar>rankIndex to - rankIndex from\<bar>"
  shows "\<exists>n df dr. n \<ge> 1 \<and> (df, dr) \<in> set bishopDirections
           \<and> fileIndex from = fileIndex to + int n * df
           \<and> rankIndex from = rankIndex to + int n * dr"
proof -
  from assms have ne: "fileIndex from \<noteq> fileIndex to" "rankIndex from \<noteq> rankIndex to"
    by (auto simp: Position_eq_iff)
  define n where "n = nat \<bar>fileIndex from - fileIndex to\<bar>"
  define df where "df = (if fileIndex from > fileIndex to then 1 else - 1 :: int)"
  define dr where "dr = (if rankIndex from > rankIndex to then 1 else - 1 :: int)"
  have "n \<ge> 1" using ne by (simp add: n_def)
  moreover have "(df, dr) \<in> set bishopDirections"
    by (simp add: df_def dr_def bishopDirections_def)
  moreover have "fileIndex from = fileIndex to + int n * df"
    using ne by (simp add: n_def df_def)
  moreover have "rankIndex from = rankIndex to + int n * dr"
    using ne assms(2) by (auto simp: n_def dr_def)
  ultimately show ?thesis by blast
qed

lemma rookDirections_ok: "\<forall>d \<in> set rookDirections. rayDirection d"
  by (simp add: rookDirections_def rayDirection_def)

lemma bishopDirections_ok: "\<forall>d \<in> set bishopDirections. rayDirection d"
  by (simp add: bishopDirections_def rayDirection_def)

lemma rook_rays_find:
  assumes "from \<noteq> to" and "isValidRookMove from to ps = Some True"
    and "BoardMap_get ps from = Some lookup"
  shows "\<exists>res. raysLoop to ps None None lookup rookDirections acc = Some res \<and> from \<in> set res"
proof -
  from assms(2) have line: "file from = file to \<or> rank from = rank to"
    and clear: "isPathClear from to ps = Some True"
    by (auto simp: isValidRookMove_def split: if_splits)
  from rook_line [OF assms(1) line] obtain n df dr where
    n: "n \<ge> 1" and d: "(df, dr) \<in> set rookDirections"
    and f: "fileIndex from = fileIndex to + int n * df"
    and r: "rankIndex from = rankIndex to + int n * dr" by blast
  from d rookDirections_ok have "rayDirection (df, dr)" by blast
  then have dd: "df \<in> {- 1, 0, 1}" "dr \<in> {- 1, 0, 1}" "df \<noteq> 0 \<or> dr \<noteq> 0"
    by (simp_all add: rayDirection_def)
  show ?thesis
    by (rule raysLoop_finds [OF rookDirections_ok d])
       (rule ray_from_destination [OF dd f r n clear assms(3)])
qed

lemma bishop_rays_find:
  assumes "from \<noteq> to" and "isValidBishopMove from to ps = Some True"
    and "BoardMap_get ps from = Some lookup"
  shows "\<exists>res. raysLoop to ps None None lookup bishopDirections acc = Some res \<and> from \<in> set res"
proof -
  from assms(2) have line: "\<bar>fileIndex to - fileIndex from\<bar> = \<bar>rankIndex to - rankIndex from\<bar>"
    and clear: "isPathClear from to ps = Some True"
    by (auto simp: isValidBishopMove_def Let_def split: if_splits)
  from bishop_line [OF assms(1) line] obtain n df dr where
    n: "n \<ge> 1" and d: "(df, dr) \<in> set bishopDirections"
    and f: "fileIndex from = fileIndex to + int n * df"
    and r: "rankIndex from = rankIndex to + int n * dr" by blast
  from d bishopDirections_ok have "rayDirection (df, dr)" by blast
  then have dd: "df \<in> {- 1, 0, 1}" "dr \<in> {- 1, 0, 1}" "df \<noteq> 0 \<or> dr \<noteq> 0"
    by (simp_all add: rayDirection_def)
  show ?thesis
    by (rule raysLoop_finds [OF bishopDirections_ok d])
       (rule ray_from_destination [OF dd f r n clear assms(3)])
qed

lemma offsets_find:
  assumes "(df, dr) \<in> set offs" and "fileIndex s = fileIndex origin + df"
    and "rankIndex s = rankIndex origin + dr" and "BoardMap_get ps s = Some lookup"
  shows "s \<in> set (fromPositionsByOffsets origin ps None None lookup offs)"
  using assms(1)
proof (induction offs)
  case Nil
  then show ?case by simp
next
  case (Cons d offs)
  obtain df' dr' where d: "d = (df', dr')" by (cases d)
  show ?case
  proof (cases "d = (df, dr)")
    case True
    have "BOARD_FILES_at (fileIndex s) = Some (file s)"
      "BOARD_RANKS_at (rankIndex s) = Some (rank s)"
      by (simp_all add: fileIndex_def rankIndex_def)
    then have fr: "BOARD_FILES_at (fileIndex origin + df) = Some (file s)"
      "BOARD_RANKS_at (rankIndex origin + dr) = Some (rank s)"
      by (simp_all only: assms(2,3))
    have rng: "\<not> (fileIndex origin + df < 0 \<or> fileIndex origin + df \<ge> 8)"
      "\<not> (rankIndex origin + dr < 0 \<or> rankIndex origin + dr \<ge> 8)"
      using assms(2,3) fileIndex_range [of s] rankIndex_range [of s] by auto
    have "Position_make (file s) (rank s) = s" by (simp add: Position_make_def)
    with True fr rng assms(4) show ?thesis by (simp add: Let_def)
  next
    case False
    with Cons.prems have "(df, dr) \<in> set offs" by simp
    from Cons.IH [OF this] d show ?thesis by (auto simp: Let_def split: option.splits)
  qed
qed

lemma abs_eq_1: "\<bar>a :: int\<bar> = 1 \<Longrightarrow> a = 1 \<or> a = - 1"
  by linarith

lemma abs_eq_2: "\<bar>a :: int\<bar> = 2 \<Longrightarrow> a = 2 \<or> a = - 2"
  by linarith

lemma abs_le_1: "\<bar>a :: int\<bar> \<le> 1 \<Longrightarrow> a = 1 \<or> a = 0 \<or> a = - 1"
  by linarith

lemma knight_offset:
  assumes "isValidKnightMove from to"
  shows "(fileIndex from - fileIndex to, rankIndex from - rankIndex to) \<in> set knightOffsets"
proof -
  define a where "a = fileIndex from - fileIndex to"
  define b where "b = rankIndex from - rankIndex to"
  have ab: "\<bar>fileIndex to - fileIndex from\<bar> = \<bar>a\<bar>" "\<bar>rankIndex to - rankIndex from\<bar> = \<bar>b\<bar>"
    by (simp_all add: a_def b_def)
  from assms have "(\<bar>a\<bar> = 2 \<and> \<bar>b\<bar> = 1) \<or> (\<bar>a\<bar> = 1 \<and> \<bar>b\<bar> = 2)"
    unfolding isValidKnightMove_def Let_def ab .
  then have "(a, b) \<in> set knightOffsets"
    unfolding knightOffsets_def
    by (auto dest!: abs_eq_1 abs_eq_2)
  then show ?thesis by (simp only: a_def b_def)
qed

lemma king_offset:
  assumes "from \<noteq> to" and "\<bar>fileIndex to - fileIndex from\<bar> \<le> 1"
    and "\<bar>rankIndex to - rankIndex from\<bar> \<le> 1"
  shows "(fileIndex from - fileIndex to, rankIndex from - rankIndex to) \<in> set kingOffsets"
proof -
  define a where "a = fileIndex from - fileIndex to"
  define b where "b = rankIndex from - rankIndex to"
  from assms(1) have ne: "a \<noteq> 0 \<or> b \<noteq> 0"
    by (auto simp: Position_eq_iff a_def b_def)
  from assms(2,3) have "\<bar>a\<bar> \<le> 1" "\<bar>b\<bar> \<le> 1" by (simp_all add: a_def b_def)
  then have "a = 1 \<or> a = 0 \<or> a = - 1" "b = 1 \<or> b = 0 \<or> b = - 1"
    by (auto dest: abs_le_1)
  with ne have "(a, b) \<in> set kingOffsets"
    unfolding kingOffsets_def by auto
  then show ?thesis by (simp only: a_def b_def)
qed

lemma pieceLetter_piece:
  assumes "pieceLetter pc = Some X" and "getColor pc = turnColor p"
  shows "algebraicPieceCharToPieceId X (turnColor p = WHITE) = pc"
  using assms by (cases pc) (auto simp: getColor_def)

lemma candidates_contain_origin:
  assumes pc: "BoardMap_get (pieces p) from = Some pc" and col: "getColor pc = turnColor p"
    and ne: "from \<noteq> to"
    and v: "validateByPiece p from to pc = Some (True, None, e)"
    and X: "pieceLetter pc = Some X"
  shows "\<exists>fps. getPossibleMovePositionsByAlgebraic to p X None None = Some fps \<and> from \<in> set fps"
proof -
  note look = pieceLetter_piece [OF X col]
  have idx: "fileIndex from = fileIndex to + (fileIndex from - fileIndex to)"
    "rankIndex from = rankIndex to + (rankIndex from - rankIndex to)" by simp_all
  show ?thesis
  proof (cases X)
    case KNIGHT
    with X have "pc = WHITE_KNIGHT \<or> pc = BLACK_KNIGHT" by (cases pc) auto
    with v have "isValidKnightMove from to" by (auto simp: validateByPiece_def)
    from offsets_find [OF knight_offset [OF this] idx pc] look KNIGHT show ?thesis
      by (simp add: getPossibleKnightFromPositions_def)
  next
    case KING
    with X have k: "pc = WHITE_KING \<or> pc = BLACK_KING" by (cases pc) auto
    with v have "isValidKingMove from to pc (pieces p) (canCastle p) = Some (True, None)"
      by (auto simp: validateByPiece_def split: option.splits)
    moreover have "\<not> (\<bar>fileIndex to - fileIndex from\<bar> \<le> 1
                    \<and> \<bar>rankIndex to - rankIndex from\<bar> \<le> 1) \<Longrightarrow>
                 isValidKingMove from to pc (pieces p) (canCastle p) \<noteq> Some (True, None)"
      by (simp add: isValidKingMove_def Let_def split: option.splits)
    ultimately
    have "\<bar>fileIndex to - fileIndex from\<bar> \<le> 1 \<and> \<bar>rankIndex to - rankIndex from\<bar> \<le> 1"
      by blast
    then have "(fileIndex from - fileIndex to, rankIndex from - rankIndex to) \<in> set kingOffsets"
      using king_offset [OF ne] by simp
    from offsets_find [OF this idx pc] look KING show ?thesis
      by (simp add: getPossibleKingFromPositions_def)
  next
    case BISHOP
    with X have "pc = WHITE_BISHOP \<or> pc = BLACK_BISHOP" by (cases pc) auto
    with v have "isValidBishopMove from to (pieces p) = Some True"
      by (auto simp: validateByPiece_def split: option.splits)
    from bishop_rays_find [OF ne this pc, of "[]"] look BISHOP show ?thesis
      by (simp add: getPossibleBishopFromPositions_def)
  next
    case ROOK
    with X have "pc = WHITE_ROOK \<or> pc = BLACK_ROOK" by (cases pc) auto
    with v have "isValidRookMove from to (pieces p) = Some True"
      by (auto simp: validateByPiece_def split: option.splits)
    from rook_rays_find [OF ne this pc, of "[]"] look ROOK show ?thesis
      by (simp add: getPossibleRookFromPositions_def)
  next
    case QUEEN
    with X have "pc = WHITE_QUEEN \<or> pc = BLACK_QUEEN" by (cases pc) auto
    with v have q: "isValidQueenMove from to (pieces p) = Some True"
      by (auto simp: validateByPiece_def split: option.splits)
    from raysLoop_total [OF rookDirections_ok, of to "pieces p" None None pc "[]"]
    obtain rs where rs: "raysLoop to (pieces p) None None pc rookDirections [] = Some rs"
      by auto
    from raysLoop_total [OF bishopDirections_ok, of to "pieces p" None None pc "[]"]
    obtain bs where bs: "raysLoop to (pieces p) None None pc bishopDirections [] = Some bs"
      by auto
    from q have "isValidBishopMove from to (pieces p) = Some True
                 \<or> isValidRookMove from to (pieces p) = Some True"
      by (auto simp: isValidQueenMove_def split: option.splits bool.splits)
    then have "from \<in> set rs \<or> from \<in> set bs"
      using bishop_rays_find [OF ne _ pc, of "[]"] rook_rays_find [OF ne _ pc, of "[]"] rs bs
      by auto
    with rs bs look QUEEN show ?thesis
      by (auto simp: getPossibleQueenFromPositions_def getPossibleRookFromPositions_def
            getPossibleBishopFromPositions_def Let_def)
  qed
qed

lemma calculateMove_InrI:
  assumes pc: "BoardMap_get (pieces p) from = Some pc" and col: "getColor pc = turnColor p"
    and own: "\<forall>t. BoardMap_get (pieces p) to = Some t \<longrightarrow> getColor t \<noteq> turnColor p"
    and allowed: "ign \<or> List.member (allowedFrom p from) to"
    and v: "validateByPiece p from to pc = Some (True, c, e)"
  shows "\<exists>m. calculateMove p from to pp ign = Inr (Inr m)
           \<and> from_pos m = from \<and> to_pos m = to \<and> piece m = pc \<and> turn m = turnColor p
           \<and> castling m = c \<and> isEnPassantCapture m = e
           \<and> isCapture m = (BoardMap_get (pieces p) to \<noteq> None \<or> e)
           \<and> promotion m = promotionOf pc to pp \<and> comment m = None"
proof -
  from own have own': "\<not> (case BoardMap_get (pieces p) to of None \<Rightarrow> False
                           | Some t \<Rightarrow> turnColor p = getColor t)"
    by (auto split: option.splits)
  from allowed have allowed': "\<not> (\<not> ign \<and> \<not> (case BoardMap_get (allowedMoves p) from of
                                   None \<Rightarrow> False | Some ms \<Rightarrow> List.member ms to))"
    by (auto simp: allowedFrom_def split: option.splits)
  show ?thesis
    using pc col own' allowed' v
    by (simp add: calculateMove_def Let_def promotionOf_def autoPromotion_def
          split: option.splits)
qed

lemma calculateMove_promotion:
  assumes "calculateMove p from to pp ign = Inr (Inr m)"
  shows "promotion m = promotionOf (piece m) to pp"
proof -
  from calculateMove_InrD [OF assms] obtain pc c e where
    h: "BoardMap_get (pieces p) from = Some pc" "getColor pc = turnColor p"
      "validateByPiece p from to pc = Some (True, c, e)" "piece m = pc"
      "ign \<or> List.member (allowedFrom p from) to"
      "\<forall>t. BoardMap_get (pieces p) to = Some t \<longrightarrow> getColor t \<noteq> turnColor p"
    by blast
  from calculateMove_InrI [OF h(1,2,6,5,3), of pp] assms h(4) show ?thesis by auto
qed

subsection \<open>Reading the text that \<open>moveToAlgebraic\<close> writes\<close>

lemma promotion_char:
  assumes "isPromotionPieceFor c q"
  shows "isAlgebraicPromotionPieceChar (Some (pieceChar (pieceToUpperCase q)))"
    and "promotionPieceOfChar (pieceChar (pieceToUpperCase q)) (c = WHITE) = Some q"
  using assms
  by (cases c; cases q; simp add: isPromotionPieceFor_def isAlgebraicPromotionPieceChar_def)+

lemma read_pawn_text_plain:
  assumes "\<forall>q. promo = Some q \<longrightarrow> isPromotionPieceFor (turnColor b) q"
  shows "tryParseAlgebraicPawnMove ([fileChar tf, rankChar tr] @ promotionSuffix promo) b
           = Some (resolveAlgebraicPawnMove b None tf tr promo)"
proof (cases promo)
  case None
  then show ?thesis
    by (simp add: tryParseAlgebraicPawnMove_def promotionSuffix_def charAt_def Let_def
          isCheckOrMateChar_def)
next
  case (Some q)
  with assms have "isPromotionPieceFor (turnColor b) q" by simp
  from promotion_char [OF this] Some show ?thesis
    by (simp add: tryParseAlgebraicPawnMove_def promotionSuffix_def charAt_def Let_def
          isCheckOrMateChar_def)
qed

lemma read_pawn_text_capture:
  assumes "\<forall>q. promo = Some q \<longrightarrow> isPromotionPieceFor (turnColor b) q"
  shows "tryParseAlgebraicPawnMove
           ([fileChar ff] @ ''x'' @ [fileChar tf, rankChar tr] @ promotionSuffix promo) b
           = Some (resolveAlgebraicPawnMove b (Some ff) tf tr promo)"
proof (cases promo)
  case None
  then show ?thesis
    by (simp add: tryParseAlgebraicPawnMove_def promotionSuffix_def charAt_def Let_def
          isCheckOrMateChar_def isBoardFile_def)
next
  case (Some q)
  with assms have "isPromotionPieceFor (turnColor b) q" by simp
  from promotion_char [OF this] Some show ?thesis
    by (simp add: tryParseAlgebraicPawnMove_def promotionSuffix_def charAt_def Let_def
          isCheckOrMateChar_def isBoardFile_def)
qed

lemma read_piece_text_plain:
  "parseAlgebraicMoveByChar (c # [fileChar tf, rankChar tr]) b X
     = resolveAlgebraicPieceMove (c # [fileChar tf, rankChar tr]) b X None None False
         (Position_make tf tr)"
  by (simp add: parseAlgebraicMoveByChar_def charAt_def Let_def isCheckOrMateChar_def
        isBoardFile_def isBoardRank_def)

lemma read_piece_text_capture:
  "parseAlgebraicMoveByChar (c # ''x'' @ [fileChar tf, rankChar tr]) b X
     = resolveAlgebraicPieceMove (c # ''x'' @ [fileChar tf, rankChar tr]) b X None None True
         (Position_make tf tr)"
  by (simp add: parseAlgebraicMoveByChar_def charAt_def Let_def isCheckOrMateChar_def
        isBoardFile_def isBoardRank_def)

text \<open>The chain of parsers on a text whose first character is a file letter, and on one
  whose first character is a piece letter.\<close>

lemma algebraic_pawn_text:
  assumes "charAt t 0 = Some (fileChar f)" and "length t \<ge> 2"
    and "tryParseAlgebraicPawnMove t b = Some r"
  shows "calculateMoveFromAlgebraic b t = r"
proof -
  have c: "tryParseAlgebraicCastlingMove t b = None"
    by (rule castling_parser_None [OF assms(1)]) simp
  have "\<And>X. tryParseAlgebraicMoveByChar t b X = None"
  proof -
    fix X show "tryParseAlgebraicMoveByChar t b X = None"
      using assms(1) by (cases X) (simp_all add: byChar_None)
  qed
  with c assms(2,3) show ?thesis
    by (simp add: calculateMoveFromAlgebraic_def)
qed

lemma algebraic_piece_text:
  assumes "charAt t 0 = Some (algebraicPieceChar X)" and "length t \<ge> 2"
  shows "calculateMoveFromAlgebraic b t = parseAlgebraicMoveByChar t b X"
proof -
  have c: "tryParseAlgebraicCastlingMove t b = None"
    by (rule castling_parser_None [OF assms(1)]) (cases X; simp)
  have others: "\<And>Y. Y \<noteq> X \<Longrightarrow> tryParseAlgebraicMoveByChar t b Y = None"
  proof -
    fix Y assume "Y \<noteq> X"
    then have "algebraicPieceChar Y \<noteq> algebraicPieceChar X"
      by (cases Y; cases X) simp_all
    with assms(1) show "tryParseAlgebraicMoveByChar t b Y = None"
      by (simp add: byChar_None)
  qed
  from c others byChar_Some [OF assms(1), of b] assms(2) show ?thesis
    by (cases X) (simp_all add: calculateMoveFromAlgebraic_def)
qed

subsection \<open>The origin of a pawn move\<close>

lemma rank_of_index: "rankIndexOf r = i \<Longrightarrow> BOARD_RANKS_at i = Some r"
  by auto

lemma pawn_forward:
  assumes "isValidPawnMove from to pc ps ep = Some True"
    and "\<not> BoardMap_has ps to" and "ep \<noteq> Some to"
  shows "file from = file to"
  using assms by (auto simp: isValidPawnMove_def Let_def split: if_splits)

lemma pawn_step_cases:
  assumes "isValidPawnMove from to pc ps ep = Some True"
  shows "rankIndex to - rankIndex from = (if isWhite pc then 1 else - 1)
         \<or> (file from = file to \<and> rank from = (if isWhite pc then R2 else R7)
             \<and> rankIndex to - rankIndex from = 2 * (if isWhite pc then 1 else - 1)
             \<and> isPathClear from to ps = Some True)"
  using assms by (auto simp: isValidPawnMove_def Let_def split: if_splits)

lemma pawn_origin:
  assumes v: "isValidPawnMove from to pc ps ep = Some True"
  shows "\<exists>prevRank.
           (if isWhite pc then prevBoardRank (rank to) else nextBoardRank (rank to)) = Some prevRank
           \<and> (Position_make (file from) prevRank = from
               \<or> (BoardMap_get ps (Position_make (file from) prevRank) = None
                   \<and> rank to = (if isWhite pc then R4 else R5)
                   \<and> Position_make (file from) (if isWhite pc then R2 else R7) = from))"
proof -
  from pawn_step_cases [OF v] show ?thesis
  proof
    assume one: "rankIndex to - rankIndex from = (if isWhite pc then 1 else - 1)"
    show ?thesis
    proof (cases "isWhite pc")
      case True
      with one have "rankIndexOf (rank to) - 1 = rankIndexOf (rank from)"
        by (simp add: rankIndex_def)
      moreover then have "rankIndexOf (rank to) > 0"
        using rankIndexOf_range [of "rank from"] by simp
      ultimately have "prevBoardRank (rank to) = Some (rank from)"
        by (simp add: prevBoardRank_def)
      with True show ?thesis by (simp add: Position_make_def)
    next
      case False
      with one have "rankIndexOf (rank to) + 1 = rankIndexOf (rank from)"
        by (simp add: rankIndex_def)
      moreover then have "rankIndexOf (rank to) < 8 - 1"
        using rankIndexOf_range [of "rank from"] by simp
      ultimately have "nextBoardRank (rank to) = Some (rank from)"
        by (simp add: nextBoardRank_def)
      with False show ?thesis by (simp add: Position_make_def)
    qed
  next
    assume two: "file from = file to \<and> rank from = (if isWhite pc then R2 else R7)
             \<and> rankIndex to - rankIndex from = 2 * (if isWhite pc then 1 else - 1)
             \<and> isPathClear from to ps = Some True"
    then have clear: "isPathClear from to ps = Some True" by simp
    from two have ff: "fileIndex from = fileIndex to + int 2 * 0"
      by (simp add: fileIndex_def)
    show ?thesis
    proof (cases "isWhite pc")
      case True
      with two have rf: "rank from = R2" by simp
      with two True have rt: "rankIndexOf (rank to) = 3"
        by (auto simp: rankIndex_def)
      from rt have rto: "rank to = R4" by (cases "rank to") simp_all
      have rr: "rankIndex from = rankIndex to + int 2 * (- 1)"
        using rf rt by (simp add: rankIndex_def)
      from clear getPositionsBetween_line [OF _ _ _ ff rr, simplified]
      have "\<not> BoardMap_has ps (squareAt (fileIndex from) (rankIndex from + 1))"
        by (simp add: isPathClear_def)
      then have "BoardMap_get ps \<lparr>file = file from, rank = R3\<rparr> = None"
        using rf by (simp add: BoardMap_has_get fileIndex_def rankIndex_def squareAt_def
              BOARD_RANKS_at_def)
      with True rto rf show ?thesis
        by (simp add: prevBoardRank_def BOARD_RANKS_at_def Position_make_def)
    next
      case False
      with two have rf: "rank from = R7" by simp
      with two False have rt: "rankIndexOf (rank to) = 4"
        by (auto simp: rankIndex_def)
      from rt have rto: "rank to = R5" by (cases "rank to") simp_all
      have rr: "rankIndex from = rankIndex to + int 2 * 1"
        using rf rt by (simp add: rankIndex_def)
      from clear getPositionsBetween_line [OF _ _ _ ff rr, simplified]
      have "\<not> BoardMap_has ps (squareAt (fileIndex from) (rankIndex from - 1))"
        by (simp add: isPathClear_def)
      then have "BoardMap_get ps \<lparr>file = file from, rank = R6\<rparr> = None"
        using rf by (simp add: BoardMap_has_get fileIndex_def rankIndex_def squareAt_def
              BOARD_RANKS_at_def)
      with False rto rf show ?thesis
        by (simp add: nextBoardRank_def BOARD_RANKS_at_def Position_make_def)
    qed
  qed
qed

lemma moveToAlgebraic_castle:
  "castling m = Some side \<Longrightarrow>
     moveToAlgebraic m = (if side = KingSide then ''O-O'' else ''O-O-O'')"
  by (simp add: moveToAlgebraic_def)

lemma moveToAlgebraic_pawn:
  "castling m = None \<Longrightarrow> isPawn (piece m) \<Longrightarrow>
     moveToAlgebraic m =
       (if isCapture m then [fileChar (file (from_pos m))] @ ''x'' else [])
       @ [fileChar (file (to_pos m)), rankChar (rank (to_pos m))] @ promotionSuffix (promotion m)"
  by (simp add: moveToAlgebraic_def Let_def Position_toString_def promotionSuffix_def)

lemma moveToAlgebraic_piece:
  "castling m = None \<Longrightarrow> \<not> isPawn (piece m) \<Longrightarrow> promotion m = None \<Longrightarrow>
     moveToAlgebraic m =
       pieceChar (piece m) # (if isCapture m then ''x'' else [])
       @ [fileChar (file (to_pos m)), rankChar (rank (to_pos m))]"
  by (simp add: moveToAlgebraic_def Let_def Position_toString_def)

lemma king_castling_shape:
  assumes "isValidKingMove from to pc ps cr = Some (True, Some side)"
  shows "file from = Fe \<and> rank from = (if isWhite pc then R1 else R8) \<and> rank to = rank from
         \<and> file to = (if side = KingSide then Fg else Fc)"
proof -
  have reg: "\<not> (\<bar>fileIndex to - fileIndex from\<bar> \<le> 1 \<and> \<bar>rankIndex to - rankIndex from\<bar> \<le> 1)"
  proof
    assume "\<bar>fileIndex to - fileIndex from\<bar> \<le> 1 \<and> \<bar>rankIndex to - rankIndex from\<bar> \<le> 1"
    with assms show False by (simp add: isValidKingMove_def Let_def)
  qed
  have cond: "\<bar>rankIndex to - rankIndex from\<bar> = 0 \<and> rank from = (if isWhite pc then R1 else R8)
               \<and> file from = Fe"
  proof (rule ccontr)
    assume "\<not> ?thesis"
    with assms reg show False
      by (auto simp: isValidKingMove_def Let_def split: if_splits)
  qed
  then have "rankIndexOf (rank to) = rankIndexOf (rank from)" by (simp add: rankIndex_def)
  then have same: "rank to = rank from" by (rule rankIndexOf_inj)
  from assms reg cond have "file to = (if side = KingSide then Fg else Fc)"
    by (cases side)
       (auto simp: isValidKingMove_def Let_def split: option.splits if_splits)
  with cond same show ?thesis by simp
qed

lemma autoPromotion_not_pawn: "\<not> isPawn pc \<Longrightarrow> promotionOf pc to pp = None"
  by (auto simp: promotionOf_def autoPromotion_def isPawn_def)

lemma origin_not_destination:
  assumes "calculateMove p from to pp ign = Inr (Inr m)"
  shows "from \<noteq> to"
proof
  assume "from = to"
  with calculateMove_InrD [OF assms] show False by auto
qed

lemma castle_round_trip:
  assumes legal: "calculateMove p from to pp ign = Inr (Inr m)"
    and side: "castling m = Some side"
  shows "\<exists>m'. calculateMoveFromAlgebraic p (moveToAlgebraic m) = Inr (Inr m') \<and> sameMove m' m"
proof -
  from calculateMove_InrD [OF legal] side obtain pc e where
    pc: "BoardMap_get (pieces p) from = Some pc" and col: "getColor pc = turnColor p"
    and v: "validateByPiece p from to pc = Some (True, Some side, e)"
    and m: "from_pos m = from" "to_pos m = to" "piece m = pc"
      "isCapture m = (BoardMap_get (pieces p) to \<noteq> None \<or> e)"
    and own: "\<forall>t. BoardMap_get (pieces p) to = Some t \<longrightarrow> getColor t \<noteq> turnColor p"
    by auto
  from validateByPiece_castling [OF v] have king: "pc = WHITE_KING \<or> pc = BLACK_KING" .
  then have np: "\<not> isPawn pc" by (auto simp: isPawn_def)
  from king v have "isValidKingMove from to pc (pieces p) (canCastle p) = Some (True, Some side)"
    by (auto simp: validateByPiece_def split: option.splits)
  from king_castling_shape [OF this] have shape:
    "file from = Fe" "rank from = (if isWhite pc then R1 else R8)" "rank to = rank from"
    "file to = (if side = KingSide then Fg else Fc)" by simp_all
  have w: "isWhite pc \<longleftrightarrow> turnColor p = WHITE"
    using col getColor_WHITE_iff by metis
  have from_eq: "from = \<lparr>file = Fe, rank = (if turnColor p = WHITE then R1 else R8)\<rparr>"
    using shape w by (cases "from") simp
  have to_eq: "to = \<lparr>file = (if side = KingSide then Fg else Fc),
                      rank = (if turnColor p = WHITE then R1 else R8)\<rparr>"
    using shape w by (cases to) simp
  from calculateMove_InrI [OF pc col own _ v, of True None] obtain m' where
    m': "calculateMove p from to None True = Inr (Inr m')" "from_pos m' = from" "to_pos m' = to"
      "piece m' = pc" "castling m' = Some side"
      "isCapture m' = (BoardMap_get (pieces p) to \<noteq> None \<or> e)"
      "promotion m' = promotionOf pc to None"
    by auto
  have same: "sameMove m' m"
    using m m' side calculateMove_promotion [OF legal] np
    by (simp add: sameMove_def autoPromotion_not_pawn)
  have "calculateMoveFromAlgebraic p (moveToAlgebraic m)
          = liftMoveResult (calculateMove p from to None True)"
    unfolding moveToAlgebraic_castle [OF side]
    by (cases side)
       (simp_all add: from_eq to_eq calculateMoveFromAlgebraic_def
          tryParseAlgebraicCastlingMove_def KING_SIDE_CASTLING_STR_def
          QUEEN_SIDE_CASTLING_STR_def Let_def)
  with m'(1) same show ?thesis by (auto simp: liftMoveResult_def)
qed

lemma pawn_of_turn:
  assumes "isPawn pc" and "getColor pc = turnColor p"
  shows "pc = (if turnColor p = WHITE then WHITE_PAWN else BLACK_PAWN)"
    and "isWhite pc \<longleftrightarrow> turnColor p = WHITE"
  using assms by (auto simp: isPawn_def getColor_def)

lemma promotion_choice_ok:
  assumes "isPawn pc" and "getColor pc = turnColor p"
    and "\<forall>c. pp = Some c \<longrightarrow> isPromotionPieceFor (turnColor p) c"
  shows "\<forall>q. promotionOf pc to pp = Some q \<longrightarrow> isPromotionPieceFor (turnColor p) q"
  using assms
  by (auto simp: promotionOf_def autoPromotion_def isPromotionPieceFor_def getColor_def
        split: option.splits if_splits)

lemma pawn_round_trip:
  assumes legal: "calculateMove p from to pp ign = Inr (Inr m)"
    and nc: "castling m = None" and pawn: "isPawn (piece m)"
    and choice: "\<forall>c. pp = Some c \<longrightarrow> isPromotionPieceFor (turnColor p) c"
  shows "\<exists>m'. calculateMoveFromAlgebraic p (moveToAlgebraic m) = Inr (Inr m') \<and> sameMove m' m"
proof -
  from calculateMove_InrD [OF legal] nc obtain pc e where
    pc: "BoardMap_get (pieces p) from = Some pc" and col: "getColor pc = turnColor p"
    and v: "validateByPiece p from to pc = Some (True, None, e)"
    and m: "from_pos m = from" "to_pos m = to" "piece m = pc"
      "isCapture m = (BoardMap_get (pieces p) to \<noteq> None \<or> e)"
    and own: "\<forall>t. BoardMap_get (pieces p) to = Some t \<longrightarrow> getColor t \<noteq> turnColor p"
    by auto
  from pawn m have ip: "isPawn pc" by simp
  note pt = pawn_of_turn [OF ip col]
  from validateByPiece_pawn [OF ip v]
  have pv: "isValidPawnMove from to pc (pieces p) (enPassantTarget p) = Some True" by simp
  from ip v pv have e: "e = (enPassantTarget p = Some to)"
    by (auto simp: validateByPiece_def isPawn_def)
  have promo: "promotion m = promotionOf pc to pp"
    using calculateMove_promotion [OF legal] m by simp
  have promo_ok: "\<forall>q. promotion m = Some q \<longrightarrow> isPromotionPieceFor (turnColor p) q"
    using promotion_choice_ok [OF ip col choice] promo by simp
  from calculateMove_InrI [OF pc col own _ v, of True None] obtain m1 where
    m1: "calculateMove p from to None True = Inr (Inr m1)" "from_pos m1 = from"
      "to_pos m1 = to" "piece m1 = pc" "castling m1 = None"
      "isCapture m1 = (BoardMap_get (pieces p) to \<noteq> None \<or> e)"
    by auto
  define m' where "m' = m1\<lparr>promotion := promotion m\<rparr>"
  have same: "sameMove m' m"
    using m m1 nc by (simp add: sameMove_def m'_def)
  have file_eq: "\<not> isCapture m \<Longrightarrow> file from = file to"
    using pawn_forward [OF pv] m(4) e by (simp add: BoardMap_has_get)
  define captureFile where "captureFile = (if isCapture m then Some (file from) else None)"
  have fromFile: "(case captureFile of Some f \<Rightarrow> f | None \<Rightarrow> file to) = file from"
    using file_eq by (simp add: captureFile_def)
  have resolve: "resolveAlgebraicPawnMove p captureFile (file to) (rank to) (promotion m)
                   = Inr (Inr m')"
  proof -
    from pawn_origin [OF pv] obtain prevRank where
      prev: "(if turnColor p = WHITE then prevBoardRank (rank to) else nextBoardRank (rank to))
               = Some prevRank"
      and origin: "Position_make (file from) prevRank = from
               \<or> (BoardMap_get (pieces p) (Position_make (file from) prevRank) = None
                   \<and> rank to = (if turnColor p = WHITE then R4 else R5)
                   \<and> Position_make (file from) (if turnColor p = WHITE then R2 else R7) = from)"
      by (auto simp: pt(2))
    have to_eq: "Position_make (file to) (rank to) = to" by (simp add: Position_make_def)
    from origin show ?thesis
    proof
      assume "Position_make (file from) prevRank = from"
      with prev pc pt(1) m1 fromFile to_eq show ?thesis
        by (simp add: resolveAlgebraicPawnMove_def Let_def m'_def)
    next
      assume "BoardMap_get (pieces p) (Position_make (file from) prevRank) = None
                   \<and> rank to = (if turnColor p = WHITE then R4 else R5)
                   \<and> Position_make (file from) (if turnColor p = WHITE then R2 else R7) = from"
      with prev pc pt(1) m1 fromFile to_eq show ?thesis
        by (cases "turnColor p = WHITE")
           (auto simp: resolveAlgebraicPawnMove_def Let_def m'_def prevBoardRank_def
              nextBoardRank_def BOARD_RANKS_at_def)
    qed
  qed
  show ?thesis
  proof (cases "isCapture m")
    case True
    have shape: "moveToAlgebraic m
                  = [fileChar (file from)] @ ''x'' @ [fileChar (file to), rankChar (rank to)]
                    @ promotionSuffix (promotion m)"
      using moveToAlgebraic_pawn [OF nc pawn] True m by simp
    have "tryParseAlgebraicPawnMove (moveToAlgebraic m) p
            = Some (resolveAlgebraicPawnMove p (Some (file from)) (file to) (rank to)
                      (promotion m))"
      unfolding shape by (rule read_pawn_text_capture [OF promo_ok])
    with resolve True have parsed: "tryParseAlgebraicPawnMove (moveToAlgebraic m) p
            = Some (Inr (Inr m'))" by (simp add: captureFile_def)
    have "calculateMoveFromAlgebraic p (moveToAlgebraic m) = Inr (Inr m')"
      by (rule algebraic_pawn_text [OF _ _ parsed, of "file from"])
         (simp_all add: shape charAt_def)
    with same show ?thesis by blast
  next
    case False
    have shape: "moveToAlgebraic m
                  = [fileChar (file to), rankChar (rank to)] @ promotionSuffix (promotion m)"
      using moveToAlgebraic_pawn [OF nc pawn] False m by simp
    have "tryParseAlgebraicPawnMove (moveToAlgebraic m) p
            = Some (resolveAlgebraicPawnMove p None (file to) (rank to) (promotion m))"
      unfolding shape by (rule read_pawn_text_plain [OF promo_ok])
    with resolve False have parsed: "tryParseAlgebraicPawnMove (moveToAlgebraic m) p
            = Some (Inr (Inr m'))" by (simp add: captureFile_def)
    have "calculateMoveFromAlgebraic p (moveToAlgebraic m) = Inr (Inr m')"
      by (rule algebraic_pawn_text [OF _ _ parsed, of "file to"])
         (simp_all add: shape charAt_def)
    with same show ?thesis by blast
  qed
qed

lemma white_piece_char:
  assumes "pieceLetter pc = Some X" and "isWhite pc"
  shows "pieceChar pc = algebraicPieceChar X"
  using assms by (cases pc) auto

lemma piece_round_trip:
  assumes legal: "calculateMove p from to pp False = Inr (Inr m)"
    and nc: "castling m = None" and np: "\<not> isPawn (piece m)" and white: "isWhite (piece m)"
    and unamb: "\<forall>fps. candidateOrigins p m = Some fps \<longrightarrow> length fps \<le> 1"
  shows "\<exists>m'. calculateMoveFromAlgebraic p (moveToAlgebraic m) = Inr (Inr m') \<and> sameMove m' m"
proof -
  from calculateMove_InrD [OF legal] nc obtain pc e where
    pc: "BoardMap_get (pieces p) from = Some pc" and col: "getColor pc = turnColor p"
    and v: "validateByPiece p from to pc = Some (True, None, e)"
    and m: "from_pos m = from" "to_pos m = to" "piece m = pc"
      "isCapture m = (BoardMap_get (pieces p) to \<noteq> None \<or> e)"
    and own: "\<forall>t. BoardMap_get (pieces p) to = Some t \<longrightarrow> getColor t \<noteq> turnColor p"
    and allowed: "List.member (allowedFrom p from) to"
    by auto
  from np m obtain X where X: "pieceLetter pc = Some X"
    by (cases pc) (auto simp: isPawn_def)
  note ne = origin_not_destination [OF legal]
  from candidates_contain_origin [OF pc col ne v X] obtain fps where
    fps: "getPossibleMovePositionsByAlgebraic to p X None None = Some fps" "from \<in> set fps"
    by blast
  with unamb X m have "length fps \<le> 1" by (simp add: candidateOrigins_def)
  with fps(2) have fps_eq: "fps = [from]"
    by (cases fps) auto
  have promo: "promotion m = None"
    using calculateMove_promotion [OF legal] np by (simp add: autoPromotion_not_pawn)
  from calculateMove_InrI [OF pc col own _ v, of False None] allowed obtain m' where
    m': "calculateMove p from to None False = Inr (Inr m')" "from_pos m' = from"
      "to_pos m' = to" "piece m' = pc" "castling m' = None"
      "isCapture m' = (BoardMap_get (pieces p) to \<noteq> None \<or> e)"
      "promotion m' = promotionOf pc to None"
    by auto
  have same: "sameMove m' m"
    using m m' nc promo np by (simp add: sameMove_def autoPromotion_not_pawn)
  have look: "algebraicPieceCharToPieceId X (turnColor p = WHITE) = pc"
    by (rule pieceLetter_piece [OF X col])
  have to_eq: "Position_make (file to) (rank to) = to" by (simp add: Position_make_def)
  have resolve: "\<And>t. resolveAlgebraicPieceMove t p X None None (isCapture m) to = Inr (Inr m')"
    using fps(1) fps_eq m' m(4) look
    by (auto simp: resolveAlgebraicPieceMove_def Let_def)
  have ch: "pieceChar pc = algebraicPieceChar X"
    using white_piece_char [OF X] white m by simp
  have shape: "moveToAlgebraic m
                = algebraicPieceChar X # (if isCapture m then ''x'' else [])
                  @ [fileChar (file to), rankChar (rank to)]"
    using moveToAlgebraic_piece [OF nc np promo] m ch by simp
  have "calculateMoveFromAlgebraic p (moveToAlgebraic m)
          = parseAlgebraicMoveByChar (moveToAlgebraic m) p X"
    by (rule algebraic_piece_text) (simp_all add: shape charAt_def)
  also have "\<dots> = resolveAlgebraicPieceMove (moveToAlgebraic m) p X None None (isCapture m) to"
    unfolding shape
    using read_piece_text_plain [of "algebraicPieceChar X" "file to" "rank to" p X]
      read_piece_text_capture [of "algebraicPieceChar X" "file to" "rank to" p X] to_eq
    by (cases "isCapture m") simp_all
  also note resolve
  finally show ?thesis using same by blast
qed

text \<open>
  C5, counterexample. With White knights on b1 and f3, the legal move b1-d2 renders as
  \<open>Nd2\<close>, and decoding \<open>Nd2\<close> in the same position fails with
  \<open>AmbiguousAlgebraicNotation\<close>.
\<close>

theorem C5_two_knights_are_ambiguous:
  "parseFen twoKnightsFen = Inr twoKnightsBoard
   \<and> calculateMove twoKnightsBoard (sq Fb R1) (sq Fd R2) None False = Inr (Inr knightMove)
   \<and> moveToAlgebraic knightMove = ''Nd2''
   \<and> calculateMoveFromAlgebraic twoKnightsBoard (moveToAlgebraic knightMove)
       = Inr (Inl (AmbiguousAlgebraicNotation ''Nd2'' WHITE_KNIGHT))"
  by code_simp

text \<open>A second way in which the round trip fails: \<open>moveToAlgebraic\<close> writes the piece
  letter of a Black piece in lower case, which no decoder accepts.\<close>

lemma black_piece_letter_is_lower_case:
  "parseFen blackKnightFen = Inr blackKnightBoard
   \<and> calculateMove blackKnightBoard (sq Fg R8) (sq Ff R6) None False = Inr (Inr blackKnightMove)
   \<and> moveToAlgebraic blackKnightMove = ''nf6''
   \<and> calculateMoveFromAlgebraic blackKnightBoard (moveToAlgebraic blackKnightMove)
       = Inr (Inl (InvalidAlgebraicNotation ''nf6''))"
  by code_simp

text \<open>
  C5, amended. For every position \<open>p\<close> and every legal move \<open>m\<close> computed from it
  (\<open>calculateMove\<close> with the filter active, the promotion choice absent or a piece of
  the colour to move) that is a pawn move, a castling move, or the move of a White piece
  for which the decoder finds at most one origin square (\<open>candidateOrigins\<close>):
  \<open>calculateMoveFromAlgebraic p (moveToAlgebraic m)\<close> returns a move equal to \<open>m\<close> in
  origin, destination, piece, capture flag, castling side and promotion.
\<close>

theorem C5_round_trip_unambiguous:
  assumes "calculateMove p from to pp False = Inr (Inr m)"
    and "\<forall>c. pp = Some c \<longrightarrow> isPromotionPieceFor (turnColor p) c"
    and "isPawn (piece m) \<or> castling m \<noteq> None \<or> isWhite (piece m)"
    and "castling m = None \<longrightarrow> (\<forall>fps. candidateOrigins p m = Some fps \<longrightarrow> length fps \<le> 1)"
  shows "\<exists>m'. calculateMoveFromAlgebraic p (moveToAlgebraic m) = Inr (Inr m') \<and> sameMove m' m"
proof (cases "castling m")
  case (Some side)
  from castle_round_trip [OF assms(1) Some] show ?thesis .
next
  case None
  show ?thesis
  proof (cases "isPawn (piece m)")
    case True
    from pawn_round_trip [OF assms(1) None True assms(2)] show ?thesis .
  next
    case False
    with assms(3) None have w: "isWhite (piece m)" by simp
    from assms(4) None have u: "\<forall>fps. candidateOrigins p m = Some fps \<longrightarrow> length fps \<le> 1"
      by simp
    from piece_round_trip [OF assms(1) None False w u] show ?thesis .
  qed
qed

text \<open>Witness for C5: the king move e1-f1.\<close>

theorem C5_witness:
  "calculateMove pinnedPawnBoard (sq Fe R1) (sq Ff R1) None False = Inr (Inr kingStep)
   \<and> isWhite (piece kingStep) \<and> candidateOrigins pinnedPawnBoard kingStep = Some [sq Fe R1]
   \<and> (\<exists>m'. calculateMoveFromAlgebraic pinnedPawnBoard (moveToAlgebraic kingStep) = Inr (Inr m')
          \<and> sameMove m' kingStep)"
proof -
  have h1: "calculateMove pinnedPawnBoard (sq Fe R1) (sq Ff R1) None False = Inr (Inr kingStep)"
    by code_simp
  have h2: "\<forall>c. (None :: PieceId option) = Some c
               \<longrightarrow> isPromotionPieceFor (turnColor pinnedPawnBoard) c" by simp
  have w: "isWhite (piece kingStep)" by (simp add: kingStep_def)
  then have h3: "isPawn (piece kingStep) \<or> castling kingStep \<noteq> None \<or> isWhite (piece kingStep)"
    by simp
  have c: "candidateOrigins pinnedPawnBoard kingStep = Some [sq Fe R1]"
    by code_simp
  then have h4: "castling kingStep = None \<longrightarrow>
      (\<forall>fps. candidateOrigins pinnedPawnBoard kingStep = Some fps \<longrightarrow> length fps \<le> 1)"
    by simp
  from C5_round_trip_unambiguous [OF h1 h2 h3 h4] h1 w c show ?thesis by simp
qed

subsection \<open>The decision of the legality filter\<close>

text \<open>
  What \<open>fillAllowedMoves\<close> writes: for a piece of the side to move, a destination is in
  the list exactly when \<open>calculateMove\<close> (filter ignored) returns a move to it and the
  king of the side to move is safe on the board after that move
  (\<open>filter_decision\<close>).
\<close>

lemma BoardMap_get_set:
  "BoardMap_get (BoardMap_set m k v) k' = (if k' = k then Some v else BoardMap_get m k')"
  by (induction m k v rule: BoardMap_set.induct) (auto simp: BoardMap_get_def)

lemma allSquares_all: "to \<in> set allSquares"
proof -
  obtain f r where to: "to = \<lparr>file = f, rank = r\<rparr>" by (cases to) simp
  have "f \<in> set BOARD_FILES" by (cases f) (simp_all add: BOARD_FILES_def)
  moreover have "r \<in> set BOARD_RANKS" by (cases r) (simp_all add: BOARD_RANKS_def)
  ultimately show ?thesis unfolding to allSquares_def Position_make_def by auto
qed

lemma possibleMovesLoop_Cons:
  assumes "possibleMovesLoop b from pc (s # rest) = Inr ps"
  obtains ok ps' where "isAllowedDestination b from pc s = Inr ok"
    and "possibleMovesLoop b from pc rest = Inr ps'"
    and "ps = (if ok then s # ps' else ps')"
proof (cases "isAllowedDestination b from pc s")
  case (Inl e)
  with assms show ?thesis by simp
next
  case (Inr ok)
  note ok = Inr
  show ?thesis
  proof (cases "possibleMovesLoop b from pc rest")
    case (Inl e)
    with assms ok show ?thesis by simp
  next
    case (Inr ps')
    with assms ok have "ps = (if ok then s # ps' else ps')" by simp
    with ok Inr that show ?thesis by blast
  qed
qed

lemma possibleMovesLoop_member:
  "possibleMovesLoop b from pc sqs = Inr ps \<Longrightarrow>
     to \<in> set ps \<longleftrightarrow> to \<in> set sqs \<and> isAllowedDestination b from pc to = Inr True"
proof (induction sqs arbitrary: ps)
  case Nil
  then show ?case by simp
next
  case (Cons s rest)
  from Cons.prems obtain ok ps' where
    ok: "isAllowedDestination b from pc s = Inr ok"
    and rest: "possibleMovesLoop b from pc rest = Inr ps'"
    and ps: "ps = (if ok then s # ps' else ps')"
    by (rule possibleMovesLoop_Cons)
  note ih = Cons.IH [OF rest]
  show ?case
  proof (cases "to = s")
    case True
    with ih ok ps show ?thesis by (cases ok) simp_all
  next
    case False
    with ih ps show ?thesis by (cases ok) simp_all
  qed
qed

lemma possibleMovesLoop_total:
  "possibleMovesLoop b from pc sqs = Inr ps \<Longrightarrow> to \<in> set sqs \<Longrightarrow>
     \<exists>ok. isAllowedDestination b from pc to = Inr ok"
proof (induction sqs arbitrary: ps)
  case Nil
  then show ?case by simp
next
  case (Cons s rest)
  from Cons.prems(1) obtain ok ps' where
    ok: "isAllowedDestination b from pc s = Inr ok"
    and rest: "possibleMovesLoop b from pc rest = Inr ps'"
    by (rule possibleMovesLoop_Cons)
  show ?case
  proof (cases "to = s")
    case True
    with ok show ?thesis by blast
  next
    case False
    with Cons.prems(2) have "to \<in> set rest" by simp
    from Cons.IH [OF rest this] show ?thesis .
  qed
qed

lemma fillAllowedMovesLoop_get:
  "fillAllowedMovesLoop b ps acc = Inr am \<Longrightarrow> distinct (map fst ps) \<Longrightarrow>
     BoardMap_get am from = filledEntry b from (map_of ps from) (BoardMap_get acc from)"
proof (induction ps arbitrary: acc)
  case Nil
  then show ?case by (simp add: filledEntry_def)
next
  case (Cons e rest)
  obtain f pc where e: "e = (f, pc)" by (cases e)
  from Cons.prems(2) e have d: "distinct (map fst rest)" and nf: "map_of rest f = None"
    by (auto simp: map_of_eq_None_iff)
  show ?case
  proof (cases "getColor pc = turnColor b")
    case False
    with Cons.prems(1) e have "fillAllowedMovesLoop b rest acc = Inr am" by simp
    from Cons.IH [OF this d] have
      "BoardMap_get am from = filledEntry b from (map_of rest from) (BoardMap_get acc from)" .
    with False e nf show ?thesis by (cases "from = f") (simp_all add: filledEntry_def)
  next
    case True
    with Cons.prems(1) e obtain pm where pm: "possibleMovesLoop b f pc allSquares = Inr pm"
      and r: "fillAllowedMovesLoop b rest
                (if length pm > 0 then BoardMap_set acc f pm else acc) = Inr am"
      by (auto split: sum.splits)
    from Cons.IH [OF r d] have ih:
      "BoardMap_get am from = filledEntry b from (map_of rest from)
         (BoardMap_get (if length pm > 0 then BoardMap_set acc f pm else acc) from)" .
    show ?thesis
    proof (cases "from = f")
      case True
      with ih nf \<open>getColor pc = turnColor b\<close> e pm show ?thesis
        by (simp add: filledEntry_def BoardMap_get_set)
    next
      case False
      with ih e show ?thesis by (simp add: BoardMap_get_set)
    qed
  qed
qed

lemma fillAllowedMovesLoop_ok:
  "fillAllowedMovesLoop b ps acc = Inr am \<Longrightarrow> (from, pc) \<in> set ps \<Longrightarrow>
     getColor pc = turnColor b \<Longrightarrow> \<exists>pm. possibleMovesLoop b from pc allSquares = Inr pm"
proof (induction ps arbitrary: acc)
  case Nil
  then show ?case by simp
next
  case (Cons e rest)
  obtain f pc' where e: "e = (f, pc')" by (cases e)
  show ?case
  proof (cases "getColor pc' = turnColor b")
    case False
    with Cons.prems e have "fillAllowedMovesLoop b rest acc = Inr am" "(from, pc) \<in> set rest"
      by auto
    from Cons.IH [OF this Cons.prems(3)] show ?thesis .
  next
    case True
    with Cons.prems(1) e obtain pm where pm: "possibleMovesLoop b f pc' allSquares = Inr pm"
      and r: "fillAllowedMovesLoop b rest
                (if length pm > 0 then BoardMap_set acc f pm else acc) = Inr am"
      by (auto split: sum.splits)
    show ?thesis
    proof (cases "(from, pc) = (f, pc')")
      case True
      with pm show ?thesis by auto
    next
      case False
      with Cons.prems(2) e have "(from, pc) \<in> set rest" by auto
      from Cons.IH [OF r this Cons.prems(3)] show ?thesis .
    qed
  qed
qed

lemma fillAllowedMoves_member:
  assumes "fillAllowedMoves b0 = Inr b" and "distinct (map fst (pieces b0))"
    and pc: "BoardMap_get (pieces b0) from = Some pc" and col: "getColor pc = turnColor b0"
  shows "\<exists>ok. isAllowedDestination b0 from pc to = Inr ok
              \<and> (List.member (allowedFrom b from) to \<longleftrightarrow> ok)"
proof -
  from assms(1) have empty: "allowedMoves b0 = []"
    by (cases "allowedMoves b0") (simp_all add: fillAllowedMoves_def BoardMap_size_def)
  with assms(1) obtain am where
    loop: "fillAllowedMovesLoop b0 (pieces b0) [] = Inr am"
    and b: "b = b0\<lparr>allowedMoves := am\<rparr>"
    by (auto simp: fillAllowedMoves_def BoardMap_size_def split: sum.splits)
  have get: "BoardMap_get (allowedMoves b) from
               = filledEntry b0 from (BoardMap_get (pieces b0) from) None"
    using fillAllowedMovesLoop_get [OF loop assms(2), of "from"] b
    by (simp add: BoardMap_get_def)
  from pc have "(from, pc) \<in> set (pieces b0)"
    by (simp add: BoardMap_get_def map_of_SomeD)
  from fillAllowedMovesLoop_ok [OF loop this col] obtain pm where
    pm: "possibleMovesLoop b0 from pc allSquares = Inr pm" by blast
  from possibleMovesLoop_total [OF pm allSquares_all] obtain ok where
    ok: "isAllowedDestination b0 from pc to = Inr ok" by blast
  from possibleMovesLoop_member [OF pm, of to] ok have "to \<in> set pm \<longleftrightarrow> ok"
    by (simp add: allSquares_all)
  moreover from get pc col pm have "allowedFrom b from = pm"
    by (cases pm) (simp_all add: allowedFrom_def filledEntry_def)
  ultimately have "List.member (allowedFrom b from) to \<longleftrightarrow> ok"
    by (simp add: List.member_iff)
  with ok show ?thesis by blast
qed

lemma validateByPiece_ignores_allowedMoves:
  "validateByPiece (b\<lparr>allowedMoves := am\<rparr>) from to pc = validateByPiece b from to pc"
  by (simp add: validateByPiece_def cong: if_cong option.case_cong)

lemma calculateMove_ignores_allowedMoves:
  "calculateMove (b\<lparr>allowedMoves := am\<rparr>) from to pp True = calculateMove b from to pp True"
  by (simp add: calculateMove_def validateByPiece_ignores_allowedMoves
        cong: if_cong option.case_cong)

lemma isAllowedDestination_ignores_allowedMoves:
  "isAllowedDestination (b\<lparr>allowedMoves := am\<rparr>) from pc to = isAllowedDestination b from pc to"
  by (simp add: isAllowedDestination_def calculateMove_ignores_allowedMoves
        cong: if_cong option.case_cong sum.case_cong)

lemma isKingInCheckLoop_attackers:
  "isKingInCheckLoop tb col kp ps = Inr r \<Longrightarrow>
     r = (filter (\<lambda>e. getColor (snd e) \<noteq> col \<and> reaches tb e kp) ps \<noteq> [])"
proof (induction ps)
  case Nil
  then show ?case by simp
next
  case (Cons e rest)
  obtain f pc where e: "e = (f, pc)" by (cases e)
  show ?case
  proof (cases "getColor pc = col")
    case True
    with Cons.prems e have "isKingInCheckLoop tb col kp rest = Inr r" by simp
    from Cons.IH [OF this] True e show ?thesis by simp
  next
    case False
    show ?thesis
    proof (cases "reaches tb (f, pc) kp")
      case True
      with Cons.prems e False have "r"
        by (auto simp: reaches_def split: sum.splits)
      with True False e show ?thesis by simp
    next
      case nr: False
      with Cons.prems e False have "isKingInCheckLoop tb col kp rest = Inr r"
        by (auto simp: reaches_def split: sum.splits)
      from Cons.IH [OF this] nr False e show ?thesis by simp
    qed
  qed
qed

lemma isAllowedDestination_unfold:
  assumes "calculateMove b (from_pos mv) (to_pos mv) None True = Inr (Inr mv)"
  shows "isAllowedDestination b (from_pos mv) (piece mv) (to_pos mv) =
        (case findPositionFor (pieces (boardAfter b mv)) (kingOf (turnColor b)) of
           None \<Rightarrow> Inr False
         | Some kingPos \<Rightarrow>
             (case isKingInCheckLoop (boardAfter b mv) (turnColor b) kingPos
                     (pieces (boardAfter b mv)) of
                Inl e \<Rightarrow> Inl e
              | Inr isKingInCheck \<Rightarrow> Inr (\<not> isKingInCheck)))"
  using assms by (simp add: isAllowedDestination_def boardAfter_def Let_def kingOf_def
        cong: if_cong option.case_cong sum.case_cong)

lemma isAllowedDestination_kingSafe:
  assumes "isAllowedDestination b from pc to = Inr ok"
    and "calculateMove b from to None True = Inr (Inr mv)"
    and "BoardMap_get (pieces b) from = Some pc"
  shows "ok = kingSafe (boardAfter b mv) (turnColor b)"
proof -
  from calculateMove_InrD [OF assms(2)] assms(3) have
    mv: "from = from_pos mv" "to = to_pos mv" "pc = piece mv" by auto
  from assms(2) have "calculateMove b (from_pos mv) (to_pos mv) None True = Inr (Inr mv)"
    by (simp add: mv [symmetric])
  note unfold = isAllowedDestination_unfold [OF this]
  from assms(1) have ok: "isAllowedDestination b (from_pos mv) (piece mv) (to_pos mv) = Inr ok"
    by (simp add: mv [symmetric])
  show ?thesis
  proof (cases "findPositionFor (pieces (boardAfter b mv)) (kingOf (turnColor b))")
    case None
    with unfold ok show ?thesis by (simp add: kingSafe_def)
  next
    case (Some kp)
    with unfold ok obtain r where
      r: "isKingInCheckLoop (boardAfter b mv) (turnColor b) kp (pieces (boardAfter b mv)) = Inr r"
      and okr: "ok = (\<not> r)"
      by (auto split: sum.splits)
    from isKingInCheckLoop_attackers [OF r] okr Some show ?thesis
      by (simp add: kingSafe_def attackers_def)
  qed
qed


text \<open>The decision of the filter.\<close>

lemma filter_decision:
  assumes "legalListComputed b" and "calculateMove b from to None True = Inr (Inr mv)"
  shows "List.member (allowedFrom b from) to \<longleftrightarrow> kingSafe (boardAfter b mv) (turnColor b)"
proof -
  let ?b0 = "b\<lparr>allowedMoves := []\<rparr>"
  from assms(1) have fill: "fillAllowedMoves ?b0 = Inr b" and d: "distinct (map fst (pieces ?b0))"
    by (simp_all add: legalListComputed_def)
  from calculateMove_InrD [OF assms(2)] obtain pc where
    pc: "BoardMap_get (pieces b) from = Some pc" and col: "getColor pc = turnColor b" by blast
  from pc col have pc0: "BoardMap_get (pieces ?b0) from = Some pc"
    and col0: "getColor pc = turnColor ?b0" by simp_all
  from fillAllowedMoves_member [OF fill d pc0 col0, of to] obtain ok where
    ok: "isAllowedDestination b from pc to = Inr ok"
    and m: "List.member (allowedFrom b from) to \<longleftrightarrow> ok"
    by (auto simp: isAllowedDestination_ignores_allowedMoves)
  from isAllowedDestination_kingSafe [OF ok assms(2) pc] m show ?thesis by simp
qed


lemma calculateMove_filter:
  assumes "calculateMove b from to pp True = Inr (Inr m)"
  shows "calculateMove b from to pp False =
           (if List.member (allowedFrom b from) to then Inr (Inr m)
            else Inr (Inl (InvalidPieceMove (piece m))))"
proof (cases "BoardMap_get (pieces b) from")
  case None
  with assms show ?thesis by (simp add: calculateMove_def)
next
  case (Some pc)
  note pc = Some
  from calculateMove_InrD [OF assms] pc have pm: "piece m = pc" by auto
  have col: "getColor pc = turnColor b"
  proof (rule ccontr)
    assume "getColor pc \<noteq> turnColor b"
    with assms pc show False by (simp add: calculateMove_def Let_def)
  qed
  have own: "\<not> (case BoardMap_get (pieces b) to of None \<Rightarrow> False
                 | Some t \<Rightarrow> turnColor b = getColor t)"
  proof
    assume "case BoardMap_get (pieces b) to of None \<Rightarrow> False
            | Some t \<Rightarrow> turnColor b = getColor t"
    with assms pc col show False by (simp add: calculateMove_def Let_def)
  qed
  have mem: "List.member (allowedFrom b from) to
               = (case BoardMap_get (allowedMoves b) from of
                    None \<Rightarrow> False | Some ms \<Rightarrow> List.member ms to)"
    by (simp add: allowedFrom_def split: option.splits)
  show ?thesis
  proof (cases "List.member (allowedFrom b from) to")
    case True
    with assms pc col own mem show ?thesis by (simp add: calculateMove_def Let_def)
  next
    case False
    with pc col own mem pm show ?thesis by (simp add: calculateMove_def Let_def)
  qed
qed

lemma findPositionFor_set:
  "findPositionFor m v = None \<Longrightarrow> findPositionFor (BoardMap_set m k v) v = Some k"
  by (induction m k v rule: BoardMap_set.induct) (auto split: if_splits)

text \<open>The boards that \<open>parseFen\<close> and \<open>applyMove\<close> return carry a computed list.\<close>

lemma BoardMap_set_keys: "fst ` set (BoardMap_set m k v) = insert k (fst ` set m)"
  by (induction m k v rule: BoardMap_set.induct) auto

lemma BoardMap_set_distinct:
  "distinct (map fst m) \<Longrightarrow> distinct (map fst (BoardMap_set m k v))"
proof (induction m k v rule: BoardMap_set.induct)
  case (1 k v)
  then show ?case by simp
next
  case (2 k' v' m k v)
  show ?case
  proof (cases "k' = k")
    case True
    with "2.prems" show ?thesis by simp
  next
    case False
    with "2.prems" "2.IH" have "distinct (map fst (BoardMap_set m k v))" by simp
    moreover from "2.prems" False have "k' \<notin> fst ` set (BoardMap_set m k v)"
      by (simp add: BoardMap_set_keys)
    ultimately show ?thesis using False by simp
  qed
qed

lemma BoardMap_delete_distinct:
  "distinct (map fst m) \<Longrightarrow> distinct (map fst (BoardMap_delete m k))"
  by (simp add: BoardMap_delete_def distinct_map_filter)

lemma parseFenRow_distinct:
  "parseFenRow cs colIndex rowIndex ps = Inr ps' \<Longrightarrow> distinct (map fst ps)
     \<Longrightarrow> distinct (map fst ps')"
proof (induction cs colIndex rowIndex ps rule: parseFenRow.induct)
  case (1 colIndex rowIndex ps)
  then show ?case by simp
next
  case (2 c cs colIndex rowIndex ps)
  show ?case
  proof (cases "isNumberChar c")
    case True
    with "2.prems" "2.IH"(1) show ?thesis by simp
  next
    case False
    with "2.prems"(1) obtain piece' col row where
      h: "parsePieceId c = Some piece'" "BOARD_FILES_at colIndex = Some col"
         "BOARD_RANKS_at rowIndex = Some row"
      and r: "parseFenRow cs (colIndex + 1) rowIndex
                (BoardMap_set ps \<lparr>file = col, rank = row\<rparr> piece') = Inr ps'"
      by (auto split: option.splits)
    from "2.IH"(2) [OF False h r] "2.prems"(2) show ?thesis
      by (simp add: BoardMap_set_distinct)
  qed
qed

lemma parseFenRows_distinct:
  "parseFenRows fenRows n ps = Inr ps' \<Longrightarrow> distinct (map fst ps) \<Longrightarrow> distinct (map fst ps')"
proof (induction n arbitrary: ps)
  case 0
  then show ?case by simp
next
  case (Suc n)
  from Suc.prems(1) obtain ps1 where
    a: "parseFenRow (fenRows ! n) 0 (int n) ps = Inr ps1"
    and b: "parseFenRows fenRows n ps1 = Inr ps'"
    by (auto split: sum.splits)
  from parseFenRow_distinct [OF a Suc.prems(2)] Suc.IH [OF b] show ?case by simp
qed

lemma fillAllowedMoves_computed:
  assumes "fillAllowedMoves b0 = Inr b" and "distinct (map fst (pieces b0))"
  shows "legalListComputed b"
proof -
  from assms(1) have empty: "allowedMoves b0 = []"
    by (cases "allowedMoves b0") (simp_all add: fillAllowedMoves_def BoardMap_size_def)
  with assms(1) obtain am where b: "b = b0\<lparr>allowedMoves := am\<rparr>"
    by (auto simp: fillAllowedMoves_def BoardMap_size_def split: sum.splits)
  from b empty have "b\<lparr>allowedMoves := []\<rparr> = b0" by simp
  with assms b show ?thesis by (simp add: legalListComputed_def)
qed

lemma parseFen_computed:
  assumes "parseFen t = Inr b"
  shows "legalListComputed b"
proof -
  define rows where "rows = split (fenPart (split t (CHR '' '')) 0 []) (CHR ''/'')"
  from assms have len: "length rows = 8"
    by (auto simp: parseFen_def rows_def Let_def split: if_splits)
  from assms len obtain ps where ps: "parseFenRows (rev rows) (length rows) [] = Inr ps"
    by (cases "parseFenRows (rev rows) (length rows) []")
       (auto simp: parseFen_def rows_def Let_def)
  from parseFenRows_distinct [OF ps] have d: "distinct (map fst ps)" by simp
  from assms len ps obtain b0 where "fillAllowedMoves b0 = Inr b" "pieces b0 = ps"
    by (auto simp: parseFen_def rows_def Let_def split: if_splits option.splits)
  with d show ?thesis by (auto intro: fillAllowedMoves_computed)
qed

lemma applyMove_pieces:
  assumes "applyMove p m = Inr q"
  shows "pieces q =
           (if castling m \<noteq> None
            then pieces (applyCastlingMove (p\<lparr>canCastle := canCastle p\<rparr>) m)
            else pieces (boardAfter p m))"
  using assms
  by (auto simp: applyMove_def Let_def applyCastlingMove_def boardAfter_def
           dest!: fillAllowedMoves_fields(1) split: if_splits option.splits)

lemma applyCastlingMove_distinct:
  "distinct (map fst (pieces nb)) \<Longrightarrow> distinct (map fst (pieces (applyCastlingMove nb m)))"
  by (simp add: applyCastlingMove_def Let_def BoardMap_set_distinct BoardMap_delete_distinct)

lemma boardAfter_distinct:
  "distinct (map fst (pieces p)) \<Longrightarrow> distinct (map fst (pieces (boardAfter p m)))"
  by (simp add: boardAfter_def Let_def BoardMap_set_distinct BoardMap_delete_distinct)

lemma applyMove_computed:
  assumes "applyMove p m = Inr q" and "distinct (map fst (pieces p))"
  shows "legalListComputed q"
proof -
  from assms(1) obtain b0 where f: "fillAllowedMoves b0 = Inr q"
    by (auto simp: applyMove_def Let_def split: if_splits)
  from assms(2) have "distinct (map fst (pieces q))"
    by (simp add: applyMove_pieces [OF assms(1)] applyCastlingMove_distinct
          boardAfter_distinct)
  with fillAllowedMoves_fields(1) [OF f] have "distinct (map fst (pieces b0))" by simp
  with f show ?thesis by (rule fillAllowedMoves_computed)
qed

lemma reachable_computed:
  "reachable p q \<Longrightarrow> legalListComputed p \<Longrightarrow> legalListComputed q"
proof (induction rule: reachable.induct)
  case reachable_refl
  then show ?case .
next
  case (reachable_step q m q')
  then have "distinct (map fst (pieces q))" by (simp add: legalListComputed_def)
  with reachable_step.hyps(2) show ?case by (rule applyMove_computed)
qed

















subsection \<open>C2: the legality filter in \<open>calculateMoveFromAlgebraic\<close>\<close>



text \<open>
  The filter does act on texts that start with a piece letter. White knight d2, White king
  e1, Black bishop a5: the knight is pinned, the move d2-f3 has the right shape, the bishop
  reaches the king once the knight has left, and the text \<open>Nf3\<close> is refused.
\<close>

lemma pinned_knight_text_is_rejected:
  "parseFen pinnedKnightFen = Inr pinnedKnightBoard
   \<and> calculateMove pinnedKnightBoard (sq Fd R2) (sq Ff R3) None True = Inr (Inr pinnedKnightMove)
   \<and> attackers (boardAfter pinnedKnightBoard pinnedKnightMove) WHITE (sq Fe R1)
        = [(sq Fa R5, BLACK_BISHOP)]
   \<and> calculateMoveFromAlgebraic pinnedKnightBoard ''Nf3''
        = Inr (Inl (MoveError (InvalidPieceMove WHITE_KNIGHT)))"
  by code_simp



subsection \<open>C1: castling requests\<close>

text \<open>
  C1, counterexample. White king e1 and rook h1 with the king-side right, f1 and g1 empty,
  Black rook e8: the king is attacked (the scan of the opposing pieces finds a piece that
  reaches e1), and yet g1 is in the legal-destination list of e1 and the request e1-g1,
  also as the text \<open>O-O\<close>, returns the castling move. And with a White knight on g1
  the request returns \<open>CaptureOwnPiece\<close>, not \<open>InvalidPieceMove\<close>.
\<close>

theorem C1_castling_out_of_check_is_legal:
  "parseFen attackedKingFen = Inr attackedKingBoard
   \<and> isKingInCheckLoop attackedKingBoard WHITE (sq Fe R1) (pieces attackedKingBoard) = Inr True
   \<and> List.member (allowedFrom attackedKingBoard (sq Fe R1)) (sq Fg R1)
   \<and> calculateMove attackedKingBoard (sq Fe R1) (sq Fg R1) None False = Inr (Inr castleOutOfCheck)
   \<and> calculateMoveFromAlgebraic attackedKingBoard ''O-O'' = Inr (Inr castleOutOfCheck)
   \<and> parseFen ownKnightFen = Inr ownKnightBoard
   \<and> calculateMove ownKnightBoard (sq Fe R1) (sq Fg R1) None False = Inr (Inl CaptureOwnPiece)"
  by code_simp


lemma between_e1_g1: "getPositionsBetween (sq Fe R1) (sq Fg R1) = Some [sq Ff R1]"
  by (simp add: getPositionsBetween_def fileIndex_def rankIndex_def horizontalLoop.simps
        BOARD_FILES_at_def)

lemma castling_request_text:
  assumes "turnColor b = WHITE"
  shows "calculateMoveFromAlgebraic b ''O-O''
           = liftMoveResult (calculateMove b (sq Fe R1) (sq Fg R1) None True)"
  using assms
  by (simp add: calculateMoveFromAlgebraic_def tryParseAlgebraicCastlingMove_def
        KING_SIDE_CASTLING_STR_def Let_def)

lemma white_short_castle:
  assumes "turnColor b = WHITE" and "BoardMap_get (pieces b) (sq Fe R1) = Some WHITE_KING"
    and "\<not> BoardMap_has (pieces b) (sq Ff R1)" and "\<not> BoardMap_has (pieces b) (sq Fg R1)"
    and "whiteKingSide (canCastle b)"
  shows "calculateMove b (sq Fe R1) (sq Fg R1) pp True = Inr (Inr whiteShortCastle)"
proof -
  from assms(3) have clear: "isPathClear (sq Fe R1) (sq Fg R1) (pieces b) = Some True"
    by (simp add: isPathClear_def between_e1_g1)
  have shape: "validateByPiece b (sq Fe R1) (sq Fg R1) WHITE_KING
                 = Some (True, Some KingSide, False)"
    using assms(5)
    by (simp add: validateByPiece_def isValidKingMove_def Let_def clear fileIndex_def
          rankIndex_def)
  from assms(4) have target: "BoardMap_get (pieces b) (sq Fg R1) = None"
    by (simp add: BoardMap_has_def BoardMap_get_def)
  show ?thesis
    using assms(1,2) target shape
    by (simp add: calculateMove_def Let_def getColor_def whiteShortCastle_def
          moveToAlgebraic_def)
qed

lemma white_short_castle_board:
  assumes "findPositionFor (BoardMap_delete (pieces b) (sq Fe R1)) WHITE_KING = None"
  shows "kingSafe (boardAfter b whiteShortCastle) WHITE
           \<longleftrightarrow> attackers (boardAfter b whiteShortCastle) WHITE (sq Fg R1) = []"
proof -
  have "pieces (boardAfter b whiteShortCastle)
          = BoardMap_set (BoardMap_delete (pieces b) (sq Fe R1)) (sq Fg R1) WHITE_KING"
    by (simp add: boardAfter_def whiteShortCastle_def)
  with findPositionFor_set [OF assms, of "sq Fg R1"] show ?thesis
    by (simp add: kingSafe_def kingOf_def)
qed


text \<open>
  C1, amended. With White to move and the White king on e1, the request e1-g1 (and the
  text \<open>O-O\<close>) returns \<open>CaptureOwnPiece\<close> whenever g1 holds a White piece, and
  \<open>InvalidPieceMove\<close> for the king whenever f1 is occupied and g1 holds no White piece;
  this holds with and without the legality filter. When f1 and g1 are empty and the
  king-side right is set, the request with the filter ignored, and the text \<open>O-O\<close>,
  return the castling move; and on a board whose legal-destination list is the one that
  \<open>fillAllowedMoves\<close> computes and that holds no second White king, g1 is in the list of
  e1 exactly when no opposing piece has a move onto g1 on the board with the king put on
  g1, and the request with the filter active returns the castling move in that case and
  \<open>InvalidPieceMove\<close> otherwise.
\<close>

theorem C1_castling_blocked:
  assumes "turnColor b = WHITE" and "BoardMap_get (pieces b) (sq Fe R1) = Some WHITE_KING"
  shows "((\<exists>w. BoardMap_get (pieces b) (sq Fg R1) = Some w \<and> isWhite w) \<longrightarrow>
            calculateMove b (sq Fe R1) (sq Fg R1) pp ign = Inr (Inl CaptureOwnPiece)
            \<and> calculateMoveFromAlgebraic b ''O-O'' = Inr (Inl (MoveError CaptureOwnPiece)))
       \<and> (BoardMap_has (pieces b) (sq Ff R1)
            \<and> \<not> (\<exists>w. BoardMap_get (pieces b) (sq Fg R1) = Some w \<and> isWhite w) \<longrightarrow>
            calculateMove b (sq Fe R1) (sq Fg R1) pp ign = Inr (Inl (InvalidPieceMove WHITE_KING))
            \<and> calculateMoveFromAlgebraic b ''O-O''
                = Inr (Inl (MoveError (InvalidPieceMove WHITE_KING))))
       \<and> (\<not> BoardMap_has (pieces b) (sq Ff R1) \<and> \<not> BoardMap_has (pieces b) (sq Fg R1)
            \<and> whiteKingSide (canCastle b) \<longrightarrow>
            calculateMove b (sq Fe R1) (sq Fg R1) pp True = Inr (Inr whiteShortCastle)
            \<and> calculateMoveFromAlgebraic b ''O-O'' = Inr (Inr whiteShortCastle)
            \<and> (legalListComputed b
                 \<and> findPositionFor (BoardMap_delete (pieces b) (sq Fe R1)) WHITE_KING = None \<longrightarrow>
                 (List.member (allowedFrom b (sq Fe R1)) (sq Fg R1)
                    \<longleftrightarrow> attackers (boardAfter b whiteShortCastle) WHITE (sq Fg R1) = [])
                 \<and> calculateMove b (sq Fe R1) (sq Fg R1) pp False
                     = (if attackers (boardAfter b whiteShortCastle) WHITE (sq Fg R1) = []
                        then Inr (Inr whiteShortCastle)
                        else Inr (Inl (InvalidPieceMove WHITE_KING)))))"
proof (intro conjI impI)
  assume "\<exists>w. BoardMap_get (pieces b) (sq Fg R1) = Some w \<and> isWhite w"
  then obtain w where w: "BoardMap_get (pieces b) (sq Fg R1) = Some w" "getColor w = WHITE"
    by (auto simp: getColor_WHITE_iff)
  with assms have "\<And>i. calculateMove b (sq Fe R1) (sq Fg R1) pp i = Inr (Inl CaptureOwnPiece)"
    by (simp add: calculateMove_def Let_def getColor_def)
  then show "calculateMove b (sq Fe R1) (sq Fg R1) pp ign = Inr (Inl CaptureOwnPiece)"
    and "calculateMoveFromAlgebraic b ''O-O'' = Inr (Inl (MoveError CaptureOwnPiece))"
    using w assms by (simp_all add: castling_request_text liftMoveResult_def calculateMove_def Let_def getColor_def)
next
  assume a: "BoardMap_has (pieces b) (sq Ff R1)
            \<and> \<not> (\<exists>w. BoardMap_get (pieces b) (sq Fg R1) = Some w \<and> isWhite w)"
  then have own: "\<not> (case BoardMap_get (pieces b) (sq Fg R1) of None \<Rightarrow> False
                       | Some t \<Rightarrow> WHITE = getColor t)"
    by (auto simp: getColor_WHITE_iff [symmetric] split: option.splits)
  from a have clear: "isPathClear (sq Fe R1) (sq Fg R1) (pieces b) = Some False"
    by (simp add: isPathClear_def between_e1_g1)
  have shape: "validateByPiece b (sq Fe R1) (sq Fg R1) WHITE_KING = Some (False, None, False)"
    by (simp add: validateByPiece_def isValidKingMove_def Let_def clear fileIndex_def
          rankIndex_def)
  have r: "\<And>i q. calculateMove b (sq Fe R1) (sq Fg R1) q i = Inr (Inl (InvalidPieceMove WHITE_KING))"
    using assms own shape by (simp add: calculateMove_def Let_def getColor_def)
  show "calculateMove b (sq Fe R1) (sq Fg R1) pp ign = Inr (Inl (InvalidPieceMove WHITE_KING))"
    by (rule r)
  show "calculateMoveFromAlgebraic b ''O-O'' = Inr (Inl (MoveError (InvalidPieceMove WHITE_KING)))"
    using assms by (simp add: castling_request_text r liftMoveResult_def)
next
  assume a: "\<not> BoardMap_has (pieces b) (sq Ff R1) \<and> \<not> BoardMap_has (pieces b) (sq Fg R1)
            \<and> whiteKingSide (canCastle b)"
  with assms have c: "\<And>q. calculateMove b (sq Fe R1) (sq Fg R1) q True = Inr (Inr whiteShortCastle)"
    by (simp add: white_short_castle)
  show "calculateMove b (sq Fe R1) (sq Fg R1) pp True = Inr (Inr whiteShortCastle)" by (rule c)
  show "calculateMoveFromAlgebraic b ''O-O'' = Inr (Inr whiteShortCastle)"
    using assms(1) by (simp add: castling_request_text c liftMoveResult_def)
  assume f: "legalListComputed b
             \<and> findPositionFor (BoardMap_delete (pieces b) (sq Fe R1)) WHITE_KING = None"
  from f filter_decision [OF _ c [of None]] assms(1) white_short_castle_board [of b]
  show mem: "List.member (allowedFrom b (sq Fe R1)) (sq Fg R1)
           \<longleftrightarrow> attackers (boardAfter b whiteShortCastle) WHITE (sq Fg R1) = []"
    by simp
  from calculateMove_filter [OF c [of pp]] mem
  show "calculateMove b (sq Fe R1) (sq Fg R1) pp False
          = (if attackers (boardAfter b whiteShortCastle) WHITE (sq Fg R1) = []
             then Inr (Inr whiteShortCastle)
             else Inr (Inl (InvalidPieceMove WHITE_KING)))"
    by (simp add: whiteShortCastle_def)
qed

text \<open>Witness for C1: a White bishop on f1, and a Black rook on g8 with f1 and g1
  empty.\<close>

theorem C1_witness:
  "turnColor bishopOnF1Board = WHITE
   \<and> BoardMap_get (pieces bishopOnF1Board) (sq Fe R1) = Some WHITE_KING
   \<and> BoardMap_has (pieces bishopOnF1Board) (sq Ff R1)
   \<and> \<not> (\<exists>w. BoardMap_get (pieces bishopOnF1Board) (sq Fg R1) = Some w \<and> isWhite w)
   \<and> calculateMove bishopOnF1Board (sq Fe R1) (sq Fg R1) None True
       = Inr (Inl (InvalidPieceMove WHITE_KING))
   \<and> parseFen rookOnG8Fen = Inr rookOnG8Board
   \<and> turnColor rookOnG8Board = WHITE
   \<and> BoardMap_get (pieces rookOnG8Board) (sq Fe R1) = Some WHITE_KING
   \<and> \<not> BoardMap_has (pieces rookOnG8Board) (sq Ff R1)
   \<and> \<not> BoardMap_has (pieces rookOnG8Board) (sq Fg R1)
   \<and> whiteKingSide (canCastle rookOnG8Board)
   \<and> legalListComputed rookOnG8Board
   \<and> findPositionFor (BoardMap_delete (pieces rookOnG8Board) (sq Fe R1)) WHITE_KING = None
   \<and> attackers (boardAfter rookOnG8Board whiteShortCastle) WHITE (sq Fg R1)
       = [(sq Fg R8, BLACK_ROOK)]
   \<and> calculateMoveFromAlgebraic rookOnG8Board ''O-O'' = Inr (Inr whiteShortCastle)
   \<and> \<not> List.member (allowedFrom rookOnG8Board (sq Fe R1)) (sq Fg R1)
   \<and> calculateMove rookOnG8Board (sq Fe R1) (sq Fg R1) None False
       = Inr (Inl (InvalidPieceMove WHITE_KING))"
proof -
  have h1: "turnColor bishopOnF1Board = WHITE" by (simp add: bishopOnF1Board_def)
  have h2: "BoardMap_get (pieces bishopOnF1Board) (sq Fe R1) = Some WHITE_KING"
    by (simp add: bishopOnF1Board_def BoardMap_get_def)
  have h3: "BoardMap_has (pieces bishopOnF1Board) (sq Ff R1)"
    by (simp add: bishopOnF1Board_def BoardMap_has_def)
  have h4: "\<not> (\<exists>w. BoardMap_get (pieces bishopOnF1Board) (sq Fg R1) = Some w \<and> isWhite w)"
    by (simp add: bishopOnF1Board_def BoardMap_get_def)
  from C1_castling_blocked [OF h1 h2, of None True] h3 h4
  have r1: "calculateMove bishopOnF1Board (sq Fe R1) (sq Fg R1) None True
       = Inr (Inl (InvalidPieceMove WHITE_KING))" by blast
  have g0: "parseFen rookOnG8Fen = Inr rookOnG8Board" by code_simp
  have g1: "turnColor rookOnG8Board = WHITE" by (simp add: rookOnG8Board_def)
  have g2: "BoardMap_get (pieces rookOnG8Board) (sq Fe R1) = Some WHITE_KING"
    by (simp add: rookOnG8Board_def BoardMap_get_def)
  have g3: "\<not> BoardMap_has (pieces rookOnG8Board) (sq Ff R1)"
    by (simp add: rookOnG8Board_def BoardMap_has_def)
  have g4: "\<not> BoardMap_has (pieces rookOnG8Board) (sq Fg R1)"
    by (simp add: rookOnG8Board_def BoardMap_has_def)
  have g5: "whiteKingSide (canCastle rookOnG8Board)" by (simp add: rookOnG8Board_def)
  have g6: "legalListComputed rookOnG8Board" by code_simp
  have g7: "findPositionFor (BoardMap_delete (pieces rookOnG8Board) (sq Fe R1)) WHITE_KING = None"
    by (simp add: rookOnG8Board_def BoardMap_delete_def)
  have g8: "attackers (boardAfter rookOnG8Board whiteShortCastle) WHITE (sq Fg R1)
              = [(sq Fg R8, BLACK_ROOK)]" by code_simp
  from C1_castling_blocked [OF g1 g2, of None True] g3 g4 g5 g6 g7 g8
  have r2: "calculateMoveFromAlgebraic rookOnG8Board ''O-O'' = Inr (Inr whiteShortCastle)"
    and r3: "\<not> List.member (allowedFrom rookOnG8Board (sq Fe R1)) (sq Fg R1)"
    and r4: "calculateMove rookOnG8Board (sq Fe R1) (sq Fg R1) None False
               = Inr (Inl (InvalidPieceMove WHITE_KING))"
    by simp_all
  from h1 h2 h3 h4 r1 g0 g1 g2 g3 g4 g5 g6 g7 g8 r2 r3 r4 show ?thesis by blast
qed

end
